(* ===== verification/Prelude.thy ===== *)
theory Prelude
  imports Main "HOL-Library.Sublist"
begin

text \<open>
  Shared vocabulary of the development: the gRPC status a handler fails with,
  the combinators that stand for the \<^verbatim>\<open>?\<close> operator and for
  \<^verbatim>\<open>ok_or_else\<close>/\<^verbatim>\<open>map_err\<close> on \<^verbatim>\<open>Result\<close> and \<^verbatim>\<open>Option\<close>, a state-passing
  variant of them for handlers that also change state, and the generic facts on
  lists and maps that the component theories share.

  A Rust \<^verbatim>\<open>String\<close>, \<^verbatim>\<open>&str\<close> or \<^verbatim>\<open>Vec<u8>\<close> is a \<^typ>\<open>string\<close>: the list of its
  bytes (a \<^typ>\<open>char\<close> of HOL has eight bits), so a length is a byte length, as
  \<^verbatim>\<open>str::len\<close> is.
\<close>

section \<open>Results and statuses\<close>

text \<open>The status codes of \<^verbatim>\<open>tonic::Status\<close> that the program constructs or inspects.\<close>

datatype code = Internal | InvalidArgument | NotFound | PermissionDenied
  | Unavailable | FailedPrecondition

datatype status = Status (status_code: code) (status_message: string)

type_synonym 'a rpc = "status + 'a"

text \<open>The constructors \<^verbatim>\<open>Status::internal(..)\<close> and so on.\<close>

abbreviation internal :: "string \<Rightarrow> status" where
  "internal m \<equiv> Status Internal m"

abbreviation invalid_argument :: "string \<Rightarrow> status" where
  "invalid_argument m \<equiv> Status InvalidArgument m"

abbreviation not_found :: "string \<Rightarrow> status" where
  "not_found m \<equiv> Status NotFound m"

abbreviation permission_denied :: "string \<Rightarrow> status" where
  "permission_denied m \<equiv> Status PermissionDenied m"

abbreviation unavailable :: "string \<Rightarrow> status" where
  "unavailable m \<equiv> Status Unavailable m"

abbreviation failed_precondition :: "string \<Rightarrow> status" where
  "failed_precondition m \<equiv> Status FailedPrecondition m"

text \<open>
  \<^verbatim>\<open>Option::ok_or_else\<close>, \<^verbatim>\<open>Result::map_err\<close> and the \<^verbatim>\<open>?\<close> operator
  (\<^verbatim>\<open>and_then\<close>).
\<close>

definition ok_or :: "'e \<Rightarrow> 'a option \<Rightarrow> 'e + 'a" where
  "ok_or e x = (case x of None \<Rightarrow> Inl e | Some v \<Rightarrow> Inr v)"

definition map_err :: "('e \<Rightarrow> 'f) \<Rightarrow> 'e + 'a \<Rightarrow> 'f + 'a" where
  "map_err g r = (case r of Inl e \<Rightarrow> Inl (g e) | Inr v \<Rightarrow> Inr v)"

definition and_then :: "'e + 'a \<Rightarrow> ('a \<Rightarrow> 'e + 'b) \<Rightarrow> 'e + 'b" where
  "and_then r f = (case r of Inl e \<Rightarrow> Inl e | Inr v \<Rightarrow> f v)"

text \<open>A guard: the early return of an error when a condition does not hold.\<close>

definition ensure :: "bool \<Rightarrow> 'e \<Rightarrow> 'e + unit" where
  "ensure b e = (if b then Inr () else Inl e)"

named_theorems result_simps \<open>elimination of result combinators in favour of their success case\<close>

lemma ok_or_simps [simp]: "ok_or e None = Inl e" "ok_or e (Some v) = Inr v"
  by (simp_all add: ok_or_def)

lemma map_err_simps [simp]: "map_err g (Inl e) = Inl (g e)" "map_err g (Inr v) = Inr v"
  by (simp_all add: map_err_def)

lemma and_then_simps [simp]: "and_then (Inl e) f = Inl e" "and_then (Inr v) f = f v"
  by (simp_all add: and_then_def)

lemma ensure_simps [simp]: "ensure True e = Inr ()" "ensure False e = Inl e"
  by (simp_all add: ensure_def)

lemma ok_or_eq_Inr [result_simps]: "ok_or e x = Inr v \<longleftrightarrow> x = Some v"
  by (cases x) auto

lemma map_err_eq_Inr [result_simps]: "map_err g r = Inr v \<longleftrightarrow> r = Inr v"
  by (cases r) auto

lemma and_then_eq_Inr [result_simps]:
  "and_then r f = Inr v \<longleftrightarrow> (\<exists>x. r = Inr x \<and> f x = Inr v)"
  by (cases r) auto

lemma ensure_eq_Inr [result_simps]: "ensure b e = Inr u \<longleftrightarrow> b"
  by (cases b) auto

lemma if_Inl_eq_Inr [result_simps]: "(if b then Inl e else r) = Inr v \<longleftrightarrow> \<not> b \<and> r = Inr v"
  by auto

lemma if_Inl_else_eq_Inr [result_simps]: "(if b then r else Inl e) = Inr v \<longleftrightarrow> b \<and> r = Inr v"
  by auto

lemma bind_eq_Some [result_simps]: "Option.bind x f = Some v \<longleftrightarrow> (\<exists>y. x = Some y \<and> f y = Some v)"
  by (cases x) auto

section \<open>Stateful results\<close>

text \<open>
  A handler that also changes state maps a state to its result and the state it
  leaves. An error keeps the changes made before it, as an early return of the
  code does.
\<close>

type_synonym ('s, 'e, 'a) stm = "'s \<Rightarrow> ('e + 'a) \<times> 's"

definition retS :: "'a \<Rightarrow> ('s, 'e, 'a) stm" where
  "retS v s = (Inr v, s)"

definition failS :: "'e \<Rightarrow> ('s, 'e, 'a) stm" where
  "failS e s = (Inl e, s)"

definition bindS :: "('s, 'e, 'a) stm \<Rightarrow> ('a \<Rightarrow> ('s, 'e, 'b) stm) \<Rightarrow> ('s, 'e, 'b) stm" where
  "bindS m f s = (case m s of (Inl e, s') \<Rightarrow> (Inl e, s') | (Inr v, s') \<Rightarrow> f v s')"

text \<open>Lift a pure result, and a state change that cannot fail.\<close>

definition liftS :: "'e + 'a \<Rightarrow> ('s, 'e, 'a) stm" where
  "liftS r s = (r, s)"

definition modifyS :: "('s \<Rightarrow> 's) \<Rightarrow> ('s, 'e, unit) stm" where
  "modifyS g s = (Inr (), g s)"

definition getS :: "('s \<Rightarrow> 'a) \<Rightarrow> ('s, 'e, 'a) stm" where
  "getS g s = (Inr (g s), s)"

lemma retS_iff [result_simps]: "retS v s = (Inr w, s') \<longleftrightarrow> w = v \<and> s' = s"
  by (auto simp: retS_def)

lemma failS_iff [result_simps]: "failS e s = (Inr w, s') \<longleftrightarrow> False"
  by (simp add: failS_def)

lemma liftS_iff [result_simps]: "liftS r s = (Inr w, s') \<longleftrightarrow> r = Inr w \<and> s' = s"
  by (auto simp: liftS_def)

lemma modifyS_iff [result_simps]: "modifyS g s = (Inr w, s') \<longleftrightarrow> s' = g s"
  by (auto simp: modifyS_def)

lemma getS_iff [result_simps]: "getS g s = (Inr w, s') \<longleftrightarrow> w = g s \<and> s' = s"
  by (auto simp: getS_def)

lemma bindS_iff [result_simps]:
  "bindS m f s = (Inr w, s') \<longleftrightarrow> (\<exists>v s1. m s = (Inr v, s1) \<and> f v s1 = (Inr w, s'))"
  by (auto simp: bindS_def split: prod.splits sum.splits)

text \<open>\<^verbatim>\<open>map_err\<close> on a stateful result, and a guard on the state.\<close>

definition map_errS :: "('e \<Rightarrow> 'f) \<Rightarrow> ('s, 'e, 'a) stm \<Rightarrow> ('s, 'f, 'a) stm" where
  "map_errS g m s = (case m s of (r, s') \<Rightarrow> (map_err g r, s'))"

lemma map_errS_iff [result_simps]: "map_errS g m s = (Inr w, s') \<longleftrightarrow> m s = (Inr w, s')"
  by (auto simp: map_errS_def result_simps split: prod.splits)

definition ensureS :: "('s \<Rightarrow> bool) \<Rightarrow> 'e \<Rightarrow> ('s, 'e, unit) stm" where
  "ensureS b e s = (ensure (b s) e, s)"

lemma ensureS_iff [result_simps]: "ensureS b e s = (Inr u, s') \<longleftrightarrow> b s \<and> s' = s"
  by (auto simp: ensureS_def result_simps)

text \<open>The result of a handler put into the response type of its service.\<close>

definition respond :: "('a \<Rightarrow> 'b) \<Rightarrow> ('s, 'e, 'a) stm \<Rightarrow> ('s, 'e, 'b) stm" where
  "respond f m = bindS m (\<lambda>v. retS (f v))"

lemma respond_eq:
  "respond f m s = (case m s of (Inl e, s') \<Rightarrow> (Inl e, s') | (Inr v, s') \<Rightarrow> (Inr (f v), s'))"
  by (simp add: respond_def bindS_def retS_def split: prod.split sum.split)

lemma snd_respond [simp]: "snd (respond f m s) = snd (m s)"
  by (simp add: respond_eq split: prod.split sum.split)

lemma bindS_liftS [simp]: "bindS (liftS (Inr v)) f = f v" "bindS (liftS (Inl e)) f = failS e"
  by (simp_all add: fun_eq_iff bindS_def liftS_def failS_def)

lemma snd_failS [simp]: "snd (failS e s) = s"
  by (simp add: failS_def)

lemmas stm_defs = retS_def failS_def bindS_def liftS_def modifyS_def getS_def

text \<open>
  A relation between the state before and after that every run of a handler is in, as
  rules that follow the handler's composition.
\<close>

definition runs_in :: "('s \<Rightarrow> 's \<Rightarrow> bool) \<Rightarrow> ('s, 'e, 'a) stm \<Rightarrow> bool" where
  "runs_in R m \<longleftrightarrow> (\<forall>s. R s (snd (m s)))"

definition refl_trans :: "('s \<Rightarrow> 's \<Rightarrow> bool) \<Rightarrow> bool" where
  "refl_trans R \<longleftrightarrow> (\<forall>s. R s s) \<and> (\<forall>s t u. R s t \<longrightarrow> R t u \<longrightarrow> R s u)"

named_theorems runs_intros \<open>rules that put a handler into a relation\<close>

lemma runs_inD: "runs_in R m \<Longrightarrow> m s = (x, s') \<Longrightarrow> R s s'"
  by (metis runs_in_def snd_conv)

lemma runs_in_bindS [runs_intros]:
  assumes "refl_trans R" "runs_in R m" "\<And>v. runs_in R (f v)"
  shows "runs_in R (bindS m f)"
  unfolding runs_in_def
proof
  fix s
  obtain x s1 where m: "m s = (x, s1)" by fastforce
  have 1: "R s s1" by (rule runs_inD [OF assms(2) m])
  show "R s (snd (bindS m f s))"
  proof (cases x)
    case (Inl e)
    then show ?thesis using m 1 by (simp add: bindS_def)
  next
    case (Inr v)
    have "R s1 (snd (f v s1))" using assms(3) by (simp add: runs_in_def)
    then have "R s (snd (f v s1))" using 1 assms(1) unfolding refl_trans_def by blast
    then show ?thesis using m Inr by (simp add: bindS_def)
  qed
qed

lemma runs_in_pure [runs_intros]:
  assumes "refl_trans R"
  shows "runs_in R (retS v)" "runs_in R (failS e)" "runs_in R (liftS r)" "runs_in R (getS g)"
  using assms by (simp_all add: runs_in_def refl_trans_def retS_def failS_def liftS_def getS_def)

lemma runs_in_modifyS [runs_intros]: "(\<And>s. R s (g s)) \<Longrightarrow> runs_in R (modifyS g)"
  by (simp add: runs_in_def modifyS_def)

lemma runs_in_if [runs_intros]: "runs_in R m \<Longrightarrow> runs_in R n \<Longrightarrow> runs_in R (if b then m else n)"
  by simp

lemma runs_in_respond [runs_intros]: "refl_trans R \<Longrightarrow> runs_in R m \<Longrightarrow> runs_in R (respond f m)"
  unfolding respond_def by (intro runs_intros)

section \<open>Lists and maps\<close>

text \<open>
  \<^verbatim>\<open>Vec::sort_by\<close> is a stable sort; descending by a key it is \<^const>\<open>sort_key\<close> of the
  negated key.
\<close>

definition sort_desc_by :: "('a \<Rightarrow> nat) \<Rightarrow> 'a list \<Rightarrow> 'a list" where
  "sort_desc_by f xs = sort_key (\<lambda>x. - int (f x)) xs"

lemma set_sort_desc_by [simp]: "set (sort_desc_by f xs) = set xs"
  by (simp add: sort_desc_by_def)

lemma length_sort_desc_by [simp]: "length (sort_desc_by f xs) = length xs"
  by (simp add: sort_desc_by_def)

lemma sort_desc_by_sorted: "sorted_wrt (\<lambda>x y. f y \<le> f x) (sort_desc_by f xs)"
proof -
  have "sorted (map (\<lambda>x. - int (f x)) (sort_desc_by f xs))"
    by (simp add: sort_desc_by_def)
  then show ?thesis
    by (simp add: sorted_map)
qed

text \<open>\<^verbatim>\<open>iter().filter_map(f).collect()\<close> is \<^const>\<open>List.map_filter\<close>.\<close>

lemmas map_filter_Cons [simp] = List.map_filter_simps

lemma set_map_filter [simp]: "set (List.map_filter f xs) = {y. \<exists>x \<in> set xs. f x = Some y}"
  by (induction xs) (auto split: option.splits)

lemma map_filter_append [simp]:
  "List.map_filter f (xs @ ys) = List.map_filter f xs @ List.map_filter f ys"
  by (induction xs) (auto split: option.splits)

lemma map_Inr_project:
  "map f xs = map Inr ys \<Longrightarrow> (\<And>x y. f x = Inr y \<Longrightarrow> g y = h x) \<Longrightarrow> map g ys = map h xs"
proof (induction xs arbitrary: ys)
  case (Cons x xs)
  then show ?case by (cases ys) auto
qed simp

lemma map_of_map_filter:
  "distinct (map fst m) \<Longrightarrow> map_of (List.map_filter (\<lambda>(k, v). map_option (Pair k) (f v)) m) i = Option.bind (map_of m i) f"
proof (induction m)
  case (Cons kv m)
  obtain k v where kv: "kv = (k, v)" by (cases kv)
  have "map_of m k = None" using Cons.prems by (simp add: kv map_of_eq_None_iff)
  then show ?case using Cons by (cases "f v") (auto simp: kv simp del: set_map_filter)
qed simp

text \<open>An occurrence that avoids the last element of a prefix block lies on one side of it.\<close>

lemma sublist_append_cases:
  assumes "sublist x (t @ r)"
  obtains (left) "sublist x t" | (right) "sublist x r"
  | (straddle) a b where "x = a @ b" "a \<noteq> []" "b \<noteq> []" "suffix a t" "prefix b r"
  using assms that sublist_append [of x t r] by (metis append.right_neutral append_Nil
      prefix_imp_sublist suffix_imp_sublist)

lemma suffix_last_mem: "suffix a t \<Longrightarrow> a \<noteq> [] \<Longrightarrow> last t \<in> set a"
  by (metis last_appendR last_in_set suffixE)

end
