(* ===== verification/Rust_Str.thy ===== *)
theory Rust_Str
  imports Prelude
begin

text \<open>
  The operations of Rust's \<^verbatim>\<open>str\<close> that the program uses, on byte lists. UTF-8 is
  self-synchronising, so searching for a valid pattern byte by byte finds exactly
  the matches \<^verbatim>\<open>str::find\<close> and \<^verbatim>\<open>str::replace\<close> find. A character count counts
  the bytes that are not continuation bytes (\<^verbatim>\<open>10xxxxxx\<close>).
\<close>

section \<open>Characters and boundaries\<close>

definition is_cont_byte :: "char \<Rightarrow> bool" where
  "is_cont_byte c \<longleftrightarrow> 128 \<le> (of_char c :: nat) \<and> (of_char c :: nat) < 192"

text \<open>\<^verbatim>\<open>str::is_char_boundary\<close>: slicing a \<^verbatim>\<open>str\<close> elsewhere panics.\<close>

definition is_char_boundary :: "string \<Rightarrow> nat \<Rightarrow> bool" where
  "is_char_boundary s i \<longleftrightarrow> i = 0 \<or> i = length s \<or> (i < length s \<and> \<not> is_cont_byte (s ! i))"

definition chars_count :: "string \<Rightarrow> nat" where
  "chars_count s = length (filter (\<lambda>c. \<not> is_cont_byte c) s)"

text \<open>\<^verbatim>\<open>s.chars().take(n).collect()\<close>.\<close>

fun take_chars :: "nat \<Rightarrow> string \<Rightarrow> string" where
  "take_chars n [] = []"
| "take_chars n (c # s) =
     (if is_cont_byte c then c # take_chars n s
      else (case n of 0 \<Rightarrow> [] | Suc m \<Rightarrow> c # take_chars m s))"

abbreviation newline :: char where
  "newline \<equiv> CHR 0x0A"

abbreviation carriage_return :: char where
  "carriage_return \<equiv> CHR 0x0D"

section \<open>Prefixes, suffixes and search\<close>

fun starts_with :: "string \<Rightarrow> string \<Rightarrow> bool" where
  "starts_with s [] = True"
| "starts_with [] (p # ps) = False"
| "starts_with (c # s) (p # ps) = (c = p \<and> starts_with s ps)"

definition strip_prefix :: "string \<Rightarrow> string \<Rightarrow> string option" where
  "strip_prefix p s = (if starts_with s p then Some (drop (length p) s) else None)"

definition ends_with :: "string \<Rightarrow> string \<Rightarrow> bool" where
  "ends_with s p = starts_with (rev s) (rev p)"

definition strip_suffix :: "string \<Rightarrow> string \<Rightarrow> string option" where
  "strip_suffix p s = (if ends_with s p then Some (take (length s - length p) s) else None)"

fun contains_str :: "string \<Rightarrow> string \<Rightarrow> bool" where
  "contains_str [] p = (p = [])"
| "contains_str (c # s) p = (starts_with (c # s) p \<or> contains_str s p)"

fun find_str :: "string \<Rightarrow> string \<Rightarrow> nat option" where
  "find_str p [] = (if p = [] then Some 0 else None)"
| "find_str p (c # s) =
     (if starts_with (c # s) p then Some 0 else map_option Suc (find_str p s))"

lemma starts_with_iff_prefix [simp]: "starts_with s p \<longleftrightarrow> prefix p s"
  by (induction s p rule: starts_with.induct) auto

lemma ends_with_iff_suffix [simp]: "ends_with s p \<longleftrightarrow> suffix p s"
  by (simp add: ends_with_def suffix_to_prefix)

lemma strip_prefix_eq_Some [simp]: "strip_prefix p s = Some r \<longleftrightarrow> s = p @ r"
  by (auto simp: strip_prefix_def prefix_def)

lemma strip_prefix_append [simp]: "strip_prefix p (p @ r) = Some r"
  by simp

lemma strip_prefix_eq_None [simp]: "strip_prefix p s = None \<longleftrightarrow> \<not> prefix p s"
  by (simp add: strip_prefix_def)

lemma strip_suffix_eq_Some [simp]: "strip_suffix p s = Some r \<longleftrightarrow> s = r @ p"
  by (auto simp: strip_suffix_def suffix_def)

lemma strip_suffix_eq_None [simp]: "strip_suffix p s = None \<longleftrightarrow> \<not> suffix p s"
  by (simp add: strip_suffix_def)

lemma contains_str_iff_sublist [simp]: "contains_str s p \<longleftrightarrow> sublist p s"
  by (induction s) (auto simp: sublist_Cons_right)

text \<open>\<^const>\<open>find_str\<close> returns the first match.\<close>

lemma find_str_Some:
  "find_str p s = Some i \<Longrightarrow> \<exists>r. s = take i s @ p @ r \<and> i \<le> length s"
proof (induction s arbitrary: i)
  case Nil
  then show ?case by (auto split: if_splits)
next
  case (Cons c s)
  show ?case
  proof (cases "starts_with (c # s) p")
    case True
    with Cons.prems show ?thesis by (auto simp: prefix_def)
  next
    case False
    with Cons.prems obtain j where "find_str p s = Some j" "i = Suc j" by auto
    with Cons.IH show ?thesis by fastforce
  qed
qed

lemma find_str_None [simp]: "find_str p s = None \<longleftrightarrow> \<not> sublist p s"
  by (induction s) (auto simp: sublist_Cons_right)

section \<open>Splitting and joining\<close>

text \<open>\<^verbatim>\<open>s.split(c)\<close>: always at least one piece.\<close>

fun split_char :: "char \<Rightarrow> string \<Rightarrow> string list" where
  "split_char d [] = [[]]"
| "split_char d (c # s) =
     (if c = d then [] # split_char d s
      else (case split_char d s of [] \<Rightarrow> [[c]] | w # ws \<Rightarrow> (c # w) # ws))"

text \<open>\<^verbatim>\<open>s.split_once(c)\<close>.\<close>

fun split_once :: "char \<Rightarrow> string \<Rightarrow> (string \<times> string) option" where
  "split_once d [] = None"
| "split_once d (c # s) =
     (if c = d then Some ([], s)
      else map_option (\<lambda>(a, b). (c # a, b)) (split_once d s))"

text \<open>
  \<^verbatim>\<open>s.split_inclusive('\n')\<close> with the terminator of each piece stripped: no
  piece follows a final terminator.
\<close>

definition split_terminated :: "char \<Rightarrow> string \<Rightarrow> string list" where
  "split_terminated d s =
     (let ps = split_char d s in if last ps = [] then butlast ps else ps)"

text \<open>\<^verbatim>\<open>s.lines()\<close>: split on a newline, one carriage return before it dropped.\<close>

definition strip_cr :: "string \<Rightarrow> string" where
  "strip_cr l = (case strip_suffix [carriage_return] l of Some r \<Rightarrow> r | None \<Rightarrow> l)"

definition lines :: "string \<Rightarrow> string list" where
  "lines s =
     (let ps = split_char newline s
      in map strip_cr (butlast ps) @ (if last ps = [] then [] else [last ps]))"

fun join :: "string \<Rightarrow> string list \<Rightarrow> string" where
  "join sep [] = []"
| "join sep [x] = x"
| "join sep (x # y # xs) = x @ sep @ join sep (y # xs)"

lemma split_char_not_Nil [simp]: "split_char d s \<noteq> []"
  by (induction s) (auto split: list.splits)

lemma split_char_join [simp]: "join [d] (split_char d s) = s"
proof (induction s)
  case (Cons c s)
  then show ?case
    by (cases "split_char d s") (auto, metis join.simps(2,3) list.exhaust append_Cons)
qed simp

lemma split_char_pieces: "w \<in> set (split_char d s) \<Longrightarrow> d \<notin> set w"
  by (induction s arbitrary: w) (auto split: if_splits list.splits)

lemma split_char_no_sep: "d \<notin> set s \<Longrightarrow> split_char d s = [s]"
  by (induction s) auto

lemma split_char_append_sep:
  "d \<notin> set a \<Longrightarrow> split_char d (a @ d # b) = a # split_char d b"
  by (induction a) auto

lemma join_split_char:
  "xs \<noteq> [] \<Longrightarrow> (\<And>x. x \<in> set xs \<Longrightarrow> d \<notin> set x) \<Longrightarrow> split_char d (join [d] xs) = xs"
  by (induction "[d]" xs rule: join.induct) (auto simp: split_char_no_sep split_char_append_sep)

lemma split_once_eq_Some:
  "split_once d s = Some (a, b) \<longleftrightarrow> s = a @ d # b \<and> d \<notin> set a"
proof (induction s arbitrary: a)
  case (Cons c s)
  show ?case
  proof (cases "c = d")
    case True
    then show ?thesis by (cases a) auto
  next
    case False
    then show ?thesis using Cons by (cases a) auto
  qed
qed simp

lemma split_once_eq_None [simp]: "split_once d s = None \<longleftrightarrow> d \<notin> set s"
  by (induction s) auto

lemma split_char_append: "split_char d (a @ d # b) = split_char d a @ split_char d b"
  by (induction a) (auto split: list.splits)

lemma lines_append: "lines (a @ newline # b) = map strip_cr (split_char newline a) @ lines b"
  by (simp add: lines_def split_char_append Let_def butlast_append)

text \<open>
  A text is a sequence of complete lines when it is empty or ends with a newline; a
  further complete line then adds exactly itself.
\<close>

definition whole_lines :: "string \<Rightarrow> bool" where
  "whole_lines t \<longleftrightarrow> t = [] \<or> last t = newline"

lemma whole_lines_append [simp]: "whole_lines (t @ l @ [newline])"
  by (simp add: whole_lines_def)

lemma lines_append_line:
  assumes "whole_lines t" "newline \<notin> set l"
  shows "lines (t @ l @ [newline]) = lines t @ [strip_cr l]"
proof (cases "t = []")
  case True
  then show ?thesis
    using lines_append [of l "[]"] assms(2) by (simp add: split_char_no_sep lines_def)
next
  case False
  then obtain t' where t: "t = t' @ [newline]"
    using assms(1) by (metis append_butlast_last_id whole_lines_def)
  have "lines (t' @ newline # l @ newline # []) = map strip_cr (split_char newline t') @ [strip_cr l]"
    using lines_append [of t' "l @ newline # []"] lines_append [of l "[]"] assms(2)
    by (simp add: split_char_no_sep lines_def)
  moreover have "lines t = map strip_cr (split_char newline t')"
    using lines_append [of t' "[]"] t by (simp add: lines_def)
  ultimately show ?thesis by (simp add: t)
qed

lemma lines_append_part:
  assumes "whole_lines t" "newline \<notin> set l" "l \<noteq> []"
  shows "lines (t @ l) = lines t @ [l]"
proof (cases "t = []")
  case True
  then show ?thesis using assms by (simp add: split_char_no_sep lines_def)
next
  case False
  then obtain t' where t: "t = t' @ [newline]"
    using assms(1) by (metis append_butlast_last_id whole_lines_def)
  then show ?thesis
    using lines_append [of t' l] lines_append [of t' "[]"] assms
    by (simp add: split_char_no_sep lines_def)
qed

section \<open>Trimming\<close>

text \<open>
  The UTF-8 encodings of the characters with the Unicode property
  \<^verbatim>\<open>White_Space\<close>, which \<^verbatim>\<open>str::trim\<close> removes at both ends.
\<close>

definition white_space :: "string list" where
  "white_space =
     [[CHR 0x09], [CHR 0x0A], [CHR 0x0B], [CHR 0x0C], [CHR 0x0D], [CHR 0x20],
      [CHR 0xC2, CHR 0x85], [CHR 0xC2, CHR 0xA0], [CHR 0xE1, CHR 0x9A, CHR 0x80],
      [CHR 0xE2, CHR 0x80, CHR 0x80], [CHR 0xE2, CHR 0x80, CHR 0x81],
      [CHR 0xE2, CHR 0x80, CHR 0x82], [CHR 0xE2, CHR 0x80, CHR 0x83],
      [CHR 0xE2, CHR 0x80, CHR 0x84], [CHR 0xE2, CHR 0x80, CHR 0x85],
      [CHR 0xE2, CHR 0x80, CHR 0x86], [CHR 0xE2, CHR 0x80, CHR 0x87],
      [CHR 0xE2, CHR 0x80, CHR 0x88], [CHR 0xE2, CHR 0x80, CHR 0x89],
      [CHR 0xE2, CHR 0x80, CHR 0x8A], [CHR 0xE2, CHR 0x80, CHR 0xA8],
      [CHR 0xE2, CHR 0x80, CHR 0xA9], [CHR 0xE2, CHR 0x80, CHR 0xAF],
      [CHR 0xE2, CHR 0x81, CHR 0x9F], [CHR 0xE3, CHR 0x80, CHR 0x80]]"

text \<open>
  The number of bytes of the first of the given encodings that \<^term>\<open>s\<close> starts
  with, 0 for none, and the loop that removes them. Each encoding is not empty,
  so the loop ends.
\<close>

definition ws_len :: "string list \<Rightarrow> string \<Rightarrow> nat" where
  "ws_len ws s = (case find (\<lambda>w. starts_with s w) ws of Some w \<Rightarrow> length w | None \<Rightarrow> 0)"

function trim_front :: "string list \<Rightarrow> string \<Rightarrow> string" where
  "trim_front ws s =
     (if s = [] \<or> ws_len ws s = 0 then s else trim_front ws (drop (ws_len ws s) s))"
  by pat_completeness auto
termination
  by (relation "measure (\<lambda>(_, s). length s)") auto

declare trim_front.simps [simp del]

definition trim_start :: "string \<Rightarrow> string" where
  "trim_start s = trim_front white_space s"

definition trim_end :: "string \<Rightarrow> string" where
  "trim_end s = rev (trim_front (map rev white_space) (rev s))"

definition trim :: "string \<Rightarrow> string" where
  "trim s = trim_end (trim_start s)"

lemma trim_front_suffix: "suffix (trim_front ws s) s"
proof (induction ws s rule: trim_front.induct)
  case (1 ws s)
  show ?case
  proof (cases "s = [] \<or> ws_len ws s = 0")
    case True
    then show ?thesis by (simp add: trim_front.simps [of ws s])
  next
    case False
    with 1 have "suffix (trim_front ws (drop (ws_len ws s) s)) (drop (ws_len ws s) s)" by blast
    with False show ?thesis
      by (simp add: trim_front.simps [of ws s]) (meson suffix_drop suffix_order.trans)
  qed
qed

lemma trim_front_done: "trim_front ws s = [] \<or> ws_len ws (trim_front ws s) = 0"
proof (induction ws s rule: trim_front.induct)
  case (1 ws s)
  then show ?case
    by (cases "s = [] \<or> ws_len ws s = 0") (auto simp: trim_front.simps [of ws s])
qed

lemma trim_sublist: "sublist (trim s) s"
proof -
  have "prefix (trim_end (trim_start s)) (trim_start s)"
    unfolding trim_end_def using trim_front_suffix [of _ "rev (trim_start s)"]
    by (metis rev_rev_ident suffix_to_prefix)
  moreover have "suffix (trim_start s) s"
    unfolding trim_start_def by (rule trim_front_suffix)
  ultimately show ?thesis
    unfolding trim_def by (meson prefix_imp_sublist sublist_order.order_trans suffix_imp_sublist)
qed

lemma set_trim: "set (trim s) \<subseteq> set s"
  using set_mono_sublist [OF trim_sublist] .

lemma trim_Nil [simp]: "trim [] = []"
  by (simp add: trim_def trim_end_def trim_start_def trim_front.simps)

text \<open>A string whose first and last bytes are printable ASCII is its own trim.\<close>

definition ascii_graphic :: "char \<Rightarrow> bool" where
  "ascii_graphic c \<longleftrightarrow> 32 < (of_char c :: nat) \<and> (of_char c :: nat) < 127"

lemma ws_heads:
  "w \<in> set white_space \<Longrightarrow> w \<noteq> [] \<and> \<not> ascii_graphic (hd w) \<and> \<not> ascii_graphic (last w)"
  unfolding white_space_def ascii_graphic_def by (simp only: list.set insert_iff empty_iff) (elim disjE; simp)

lemma ws_len_0:
  assumes "\<And>w. w \<in> set ws \<Longrightarrow> w \<noteq> [] \<and> \<not> ascii_graphic (hd w)"
    and "s \<noteq> []" and "ascii_graphic (hd s)"
  shows "ws_len ws s = 0"
proof -
  have "find (\<lambda>w. starts_with s w) ws = None"
    using assms by (auto simp: find_None_iff prefix_def)
  then show ?thesis by (simp add: ws_len_def)
qed

lemma trim_id:
  assumes "s \<noteq> []" "ascii_graphic (hd s)" "ascii_graphic (last s)"
  shows "trim s = s"
proof -
  have "ws_len white_space s = 0"
    by (rule ws_len_0) (use assms ws_heads in auto)
  then have start: "trim_start s = s"
    by (simp add: trim_start_def trim_front.simps)
  have "ws_len (map rev white_space) (rev s) = 0"
    by (rule ws_len_0) (use assms ws_heads in \<open>auto simp: hd_rev\<close>)
  then have "trim_end s = s"
    by (simp add: trim_end_def trim_front.simps)
  with start show ?thesis by (simp add: trim_def)
qed

section \<open>Replacement\<close>

text \<open>
  \<^verbatim>\<open>str::replace\<close>: leftmost matches that do not overlap, scanned from left to
  right. An empty pattern matches at every character boundary.
\<close>

fun replace_nonempty :: "string \<Rightarrow> string \<Rightarrow> string \<Rightarrow> string" where
  "replace_nonempty p t [] = []"
| "replace_nonempty p t (c # s) =
     (if starts_with (c # s) p then t @ replace_nonempty p t (drop (length p - 1) s)
      else c # replace_nonempty p t s)"

definition replace :: "string \<Rightarrow> string \<Rightarrow> string \<Rightarrow> string" where
  "replace p t s =
     (if p = [] then concat (map (\<lambda>c. if is_cont_byte c then [c] else t @ [c]) s) @ t
      else replace_nonempty p t s)"

text \<open>\<^verbatim>\<open>str::replacen(p, t, 1)\<close> and \<^verbatim>\<open>s.matches(p).count()\<close> for a pattern that is not empty.\<close>

fun replace_first :: "string \<Rightarrow> string \<Rightarrow> string \<Rightarrow> string" where
  "replace_first p t [] = []"
| "replace_first p t (c # s) =
     (if starts_with (c # s) p then t @ drop (length p - 1) s else c # replace_first p t s)"

fun matches_count :: "string \<Rightarrow> string \<Rightarrow> nat" where
  "matches_count p [] = 0"
| "matches_count p (c # s) =
     (if starts_with (c # s) p then Suc (matches_count p (drop (length p - 1) s))
      else matches_count p s)"

lemma replace_nonempty_absent: "\<not> sublist p s \<Longrightarrow> replace_nonempty p t s = s"
  by (induction p t s rule: replace_nonempty.induct) (auto simp: sublist_Cons_right)

lemma replace_absent: "p \<noteq> [] \<Longrightarrow> \<not> sublist p s \<Longrightarrow> replace p t s = s"
  by (simp add: replace_def replace_nonempty_absent)

text \<open>
  A prefix of the output that has no opening character of the replacement text
  was a prefix of the input, and no match starts inside it.
\<close>

lemma prefix_replace_nonempty:
  assumes "t = d # t'" "d \<notin> set x" "prefix x (replace_nonempty p t s)"
  shows "prefix x s"
  using assms
proof (induction p t s arbitrary: x rule: replace_nonempty.induct)
  case (2 p t c s)
  show ?case
  proof (cases "starts_with (c # s) p")
    case True
    with 2 show ?thesis by (cases x) auto
  next
    case False
    with 2 show ?thesis by (cases x) auto
  qed
qed simp

text \<open>
  A text without the brackets of the replacement occurs in the output only where
  it occurred in the input or inside the replacement itself; the pattern itself
  occurs only inside the replacement.
\<close>

lemma sublist_replace_nonempty:
  assumes t: "t = d # t'" "last t = e" and x: "d \<notin> set x" "e \<notin> set x"
    and sub: "sublist x (replace_nonempty p t s)"
  shows "sublist x s \<or> sublist x t"
  using sub t
proof (induction p t s rule: replace_nonempty.induct)
  case (2 p t c s)
  show ?case
  proof (cases "starts_with (c # s) p")
    case True
    with "2.prems" have "sublist x (t @ replace_nonempty p t (drop (length p - 1) s))" by simp
    then show ?thesis
    proof (cases rule: sublist_append_cases)
      case right
      then have "sublist x (drop (length p - 1) s) \<or> sublist x t"
        using "2.IH"(1) True "2.prems" by blast
      then show ?thesis
        by (meson sublist_Cons_right sublist_drop sublist_order.order_trans)
    next
      case (straddle a b)
      then have "e \<in> set a" using suffix_last_mem "2.prems" by metis
      with straddle x show ?thesis by simp
    qed simp
  next
    case False
    with "2.prems"(1) consider "prefix x (c # replace_nonempty p t s)"
      | "sublist x (replace_nonempty p t s)"
      by (auto simp: sublist_Cons_right)
    then show ?thesis
    proof cases
      case 1
      then have "prefix x (replace_nonempty p t (c # s))" using False by simp
      then have "prefix x (c # s)"
        using prefix_replace_nonempty x(1) "2.prems"(2) by blast
      then show ?thesis by (simp add: prefix_imp_sublist)
    next
      case 2
      then show ?thesis
        using "2.IH"(2) False "2.prems" by (auto simp: sublist_Cons_right)
    qed
  qed
qed auto

lemma pattern_replace_nonempty:
  assumes t: "t = d # t'" "last t = e" and p: "d \<notin> set p" "e \<notin> set p" "p \<noteq> []"
    and sub: "sublist p (replace_nonempty p t s)"
  shows "sublist p t"
  using sub t p
proof (induction p t s rule: replace_nonempty.induct)
  case (2 p t c s)
  show ?case
  proof (cases "starts_with (c # s) p")
    case True
    with "2.prems" have "sublist p (t @ replace_nonempty p t (drop (length p - 1) s))" by simp
    then show ?thesis
    proof (cases rule: sublist_append_cases)
      case right
      then show ?thesis using "2.IH"(1) True "2.prems" by blast
    next
      case (straddle a b)
      then have "e \<in> set a" using suffix_last_mem "2.prems" by metis
      with straddle "2.prems" show ?thesis by simp
    qed simp
  next
    case False
    with "2.prems"(1) consider "prefix p (replace_nonempty p t (c # s))"
      | "sublist p (replace_nonempty p t s)"
      by (auto simp: sublist_Cons_right)
    then show ?thesis
    proof cases
      case 1
      then have "prefix p (c # s)"
        using prefix_replace_nonempty "2.prems" by blast
      with False show ?thesis by simp
    next
      case 2
      then show ?thesis using "2.IH"(2) False "2.prems" by blast
    qed
  qed
qed auto

text \<open>A unique match is replaced in place.\<close>

lemma matches_count_0: "p \<noteq> [] \<Longrightarrow> matches_count p s = 0 \<longleftrightarrow> \<not> sublist p s"
  by (induction p s rule: matches_count.induct) (auto simp: sublist_Cons_right)

lemma replace_first_split:
  "p \<noteq> [] \<Longrightarrow> matches_count p s > 0 \<Longrightarrow>
   \<exists>u v. s = u @ p @ v \<and> replace_first p t s = u @ t @ v"
proof (induction p t s rule: replace_first.induct)
  case (2 p t c s)
  show ?case
  proof (cases "starts_with (c # s) p")
    case True
    then obtain v where v: "c # s = p @ v" by (auto simp: prefix_def)
    then have "drop (length p - 1) s = v"
      using \<open>p \<noteq> []\<close> by (cases p) auto
    with True have "replace_first p t (c # s) = [] @ t @ v" by simp
    with v show ?thesis by (metis append_Nil)
  next
    case False
    with 2 obtain u v where "s = u @ p @ v" "replace_first p t s = u @ t @ v" by auto
    with False show ?thesis by (intro exI [of _ "c # u"] exI [of _ v]) simp
  qed
qed simp

section \<open>Numbers\<close>

text \<open>\<^verbatim>\<open>n.to_string()\<close> for an unsigned number, and the decimal \<^verbatim>\<open>parse\<close> of one of at most \<^term>\<open>m\<close>.\<close>

definition digit_char :: "nat \<Rightarrow> char" where
  "digit_char d = char_of (48 + d)"

fun nat_string :: "nat \<Rightarrow> string" where
  "nat_string n = (if n < 10 then [digit_char n] else nat_string (n div 10) @ [digit_char (n mod 10)])"

declare nat_string.simps [simp del]

definition is_digit :: "char \<Rightarrow> bool" where
  "is_digit c \<longleftrightarrow> 48 \<le> (of_char c :: nat) \<and> (of_char c :: nat) \<le> 57"

definition digits_value :: "string \<Rightarrow> nat" where
  "digits_value = foldl (\<lambda>n c. 10 * n + (of_char c - 48)) 0"

definition parse_unsigned :: "nat \<Rightarrow> string \<Rightarrow> nat option" where
  "parse_unsigned m s =
     (let ds = (case strip_prefix ''+'' s of Some r \<Rightarrow> r | None \<Rightarrow> s)
      in if ds \<noteq> [] \<and> list_all is_digit ds \<and> digits_value ds \<le> m then Some (digits_value ds)
         else None)"

lemma digit_char_simps [simp]:
  "d < 10 \<Longrightarrow> is_digit (digit_char d)" "d < 10 \<Longrightarrow> of_char (digit_char d) = (48 + d :: nat)"
  by (simp_all add: is_digit_def digit_char_def)

lemma nat_string_digits: "nat_string n \<noteq> [] \<and> list_all is_digit (nat_string n)"
proof (induction n rule: nat_string.induct)
  case (1 n)
  then show ?case by (simp add: nat_string.simps [of n])
qed

lemma digits_value_nat_string [simp]: "digits_value (nat_string n) = n"
proof (induction n rule: nat_string.induct)
  case (1 n)
  then show ?case by (simp add: nat_string.simps [of n] digits_value_def)
qed

lemma parse_nat_string: "n \<le> m \<Longrightarrow> parse_unsigned m (nat_string n) = Some n"
proof -
  assume "n \<le> m"
  have "strip_prefix ''+'' (nat_string n) = None"
    using nat_string_digits [of n] by (cases "nat_string n") (auto simp: is_digit_def)
  then show ?thesis
    unfolding parse_unsigned_def using \<open>n \<le> m\<close> nat_string_digits [of n]
    by (simp del: strip_prefix_eq_None)
qed

text \<open>\<^verbatim>\<open>s.parse::<i64>()\<close>.\<close>

definition parse_i64 :: "string \<Rightarrow> int option" where
  "parse_i64 s =
     (case strip_prefix ''-'' s of
        Some ds \<Rightarrow>
          if ds \<noteq> [] \<and> list_all is_digit ds \<and> digits_value ds \<le> 2 ^ 63
          then Some (- int (digits_value ds)) else None
      | None \<Rightarrow> map_option int (parse_unsigned (2 ^ 63 - 1) s))"

lemma parse_i64_bounds: "parse_i64 s = Some i \<Longrightarrow> - (2 ^ 63) \<le> i \<and> i < 2 ^ 63"
  by (auto simp: parse_i64_def parse_unsigned_def Let_def split: option.splits if_splits)

text \<open>A number as text, and \<^verbatim>\<open>{:?}\<close> of a string: quoted, with control characters escaped.\<close>

definition int_string :: "int \<Rightarrow> string" where
  "int_string i = (if i < 0 then ''-'' @ nat_string (nat (- i)) else nat_string (nat i))"

definition escape_debug :: "char \<Rightarrow> string" where
  "escape_debug c =
     (if c = CHR 0x22 then [CHR 0x5C, CHR 0x22]
      else if c = CHR 0x5C then [CHR 0x5C, CHR 0x5C]
      else if c = newline then [CHR 0x5C, CHR ''n'']
      else if c = carriage_return then [CHR 0x5C, CHR ''r'']
      else if c = CHR 0x09 then [CHR 0x5C, CHR ''t'']
      else [c])"

definition debug_str :: "string \<Rightarrow> string" where
  "debug_str s = [CHR 0x22] @ concat (map escape_debug s) @ [CHR 0x22]"

text \<open>\<^verbatim>\<open>s.trim_matches(c)\<close> for a single-byte character.\<close>

definition trim_matches :: "char \<Rightarrow> string \<Rightarrow> string" where
  "trim_matches d s = rev (dropWhile (\<lambda>c. c = d) (rev (dropWhile (\<lambda>c. c = d) s)))"

lemma trim_matches_subset: "set (trim_matches d s) \<subseteq> set s"
  unfolding trim_matches_def by (metis set_dropWhileD set_rev subsetI)

lemma trim_matches_ends:
  "trim_matches d s \<noteq> [] \<Longrightarrow> hd (trim_matches d s) \<noteq> d \<and> last (trim_matches d s) \<noteq> d"
proof -
  let ?a = "dropWhile (\<lambda>c. c = d) s"
  assume ne: "trim_matches d s \<noteq> []"
  then have r: "dropWhile (\<lambda>c. c = d) (rev ?a) \<noteq> []"
    unfolding trim_matches_def by (metis rev.simps(1))
  have "last (trim_matches d s) \<noteq> d"
    using hd_dropWhile [OF r] by (simp add: trim_matches_def last_rev)
  moreover have "hd (trim_matches d s) \<noteq> d"
  proof -
    have "?a \<noteq> []" using r by (metis dropWhile.simps(1) rev.simps(1))
    then have "hd ?a \<noteq> d" using hd_dropWhile by blast
    moreover have "suffix (dropWhile (\<lambda>c. c = d) (rev ?a)) (rev ?a)" by (rule suffix_dropWhile)
    then have "prefix (trim_matches d s) ?a"
      by (simp add: trim_matches_def suffix_to_prefix)
    ultimately show ?thesis using ne by (auto simp: prefix_def)
  qed
  ultimately show ?thesis by simp
qed

lemma trim_matches_nonempty: "c \<in> set s \<Longrightarrow> c \<noteq> d \<Longrightarrow> trim_matches d s \<noteq> []"
proof
  let ?a = "dropWhile (\<lambda>c. c = d) s"
  assume c: "c \<in> set s" "c \<noteq> d" and "trim_matches d s = []"
  then have "dropWhile (\<lambda>c. c = d) (rev ?a) = []"
    unfolding trim_matches_def by (metis rev_is_Nil_conv)
  then have "\<forall>x \<in> set ?a. x = d" by (simp only: dropWhile_eq_Nil_conv set_rev)
  moreover have "?a \<noteq> []" using c by (auto simp: dropWhile_eq_Nil_conv)
  ultimately show False using hd_dropWhile [of "\<lambda>c. c = d" s] list.set_sel(1) by blast
qed

section \<open>JSON values\<close>

text \<open>
  \<^verbatim>\<open>serde_json::Value\<close>. A number carries whether it is an integer
  (\<^verbatim>\<open>is_i64() || is_u64()\<close>) and its text; the parser is an argument wherever it is used.
\<close>

datatype json = JNull | JBool bool | JNumber bool string | JString string
  | JArray "json list" | JObject "(string \<times> json) list"

end
