(* ===== verification/Proto.thy ===== *)
theory Proto
  imports Rust_Str
begin

text \<open>
  The wire vocabulary: the messages of \<^verbatim>\<open>common.proto\<close> and \<^verbatim>\<open>toolset.proto\<close> that
  the components exchange, with the field set of the generated Rust structs, and
  the content helpers of \<^verbatim>\<open>proto-common/src/lib.rs\<close>. A protobuf \<^verbatim>\<open>oneof\<close> is an
  optional sum; a protobuf enum field holds its number, as prost keeps it.
\<close>

section \<open>Content\<close>

datatype block = Block_Text string | Block_Image string string | Block_Thinking string
  | Block_File string string nat

type_synonym content_block = "block option"

definition text_block :: "string \<Rightarrow> content_block" where
  "text_block t = Some (Block_Text t)"

definition image_block :: "string \<Rightarrow> string \<Rightarrow> content_block" where
  "image_block media_type data = Some (Block_Image media_type data)"

definition file_block :: "string \<Rightarrow> string \<Rightarrow> nat \<Rightarrow> content_block" where
  "file_block filename mime_type sz = Some (Block_File filename mime_type sz)"

definition text_content :: "string \<Rightarrow> content_block list" where
  "text_content s = [text_block s]"

definition block_text :: "content_block \<Rightarrow> string option" where
  "block_text b = (case b of Some (Block_Text t) \<Rightarrow> Some t | _ \<Rightarrow> None)"

definition content_text :: "content_block list \<Rightarrow> string" where
  "content_text parts = join [newline] (List.map_filter block_text parts)"

lemma content_text_text_content [simp]: "content_text (text_content s) = s"
  by (simp add: content_text_def text_content_def text_block_def block_text_def
      List.map_filter_def)

section \<open>Messages\<close>

record tool_call =
  tc_id :: string
  tc_name :: string
  tc_input_json :: string

record message =
  role :: string
  content :: "content_block list"
  tool_calls :: "tool_call list"
  tool_call_id :: "string option"
  msg_is_error :: "bool option"

record tool_definition =
  td_name :: string
  td_description :: string
  td_parameters_json :: string

text \<open>A catalog element as the relay and the client see it.\<close>

record tool_info =
  ti_toolset :: string
  ti_name :: string
  ti_description :: string
  ti_parameters_json :: string

record call_tool_response =
  resp_content :: "content_block list"
  resp_is_error :: bool

text \<open>The numbers of \<^verbatim>\<open>StopReason\<close>, \<^verbatim>\<open>ToolOutcome\<close> and \<^verbatim>\<open>TurnState\<close>.\<close>

abbreviation (input) stop_unspecified :: int where "stop_unspecified \<equiv> 0"
abbreviation (input) stop_end_turn :: int where "stop_end_turn \<equiv> 1"
abbreviation (input) stop_tool_use :: int where "stop_tool_use \<equiv> 2"
abbreviation (input) stop_max_tokens :: int where "stop_max_tokens \<equiv> 3"

abbreviation (input) outcome_unspecified :: int where "outcome_unspecified \<equiv> 0"
abbreviation (input) outcome_done :: int where "outcome_done \<equiv> 1"
abbreviation (input) outcome_failed :: int where "outcome_failed \<equiv> 2"
abbreviation (input) outcome_canceled :: int where "outcome_canceled \<equiv> 3"

abbreviation (input) turn_idle :: int where "turn_idle \<equiv> 1"
abbreviation (input) turn_working :: int where "turn_working \<equiv> 2"
abbreviation (input) turn_failed :: int where "turn_failed \<equiv> 5"
abbreviation (input) turn_cancelled :: int where "turn_cancelled \<equiv> 6"

section \<open>Tool result frames\<close>

text \<open>\<^verbatim>\<open>ToolComplete { outcome, exit_code }\<close> is the terminal frame.\<close>

datatype frame = Frame_Stdout string | Frame_Stderr string | Frame_Image string string
  | Frame_Complete int int

type_synonym tool_result_frame = "frame option"

section \<open>Turn events\<close>

datatype turn_event_body = Event_ContentDelta string | Event_ToolUseStart string string
  | Event_ToolUseInput string | Event_Complete int "content_block list" "tool_call list"
  | Event_Error int string | Event_Warning string string

type_synonym turn_event = "turn_event_body option"

section \<open>Streamed items\<close>

datatype start_kind = Kind_Text | Kind_ToolUse string
datatype delta_kind = Kind_TextDelta string | Kind_ToolInputJson string
datatype phase = Phase_Start "start_kind option" | Phase_Delta "delta_kind option" | Phase_Stop

record stream_item =
  event_id :: string
  item_id :: string
  si_conversation_id :: string
  si_phase :: "phase option"
  parent_conversation_id :: string
  si_agent_name :: string

section \<open>Turn state, user messages and server requests\<close>

record turn_state_event =
  ts_state :: int
  ts_conversation_id :: string
  ts_reason :: string
  ts_code :: string
  ts_agent_name :: string
  ts_system_prompt_sha256 :: string

record grant_selection =
  gs_toolset :: string
  gs_grant :: string

record user_message =
  um_content :: "content_block list"
  um_sender :: string
  um_reply_channel_stream :: "string option"
  um_conversation_id :: string
  um_grants :: "grant_selection list"

record server_request =
  sr_request_id :: string
  sr_method :: string
  sr_params_json :: string

record client_response =
  cr_request_id :: string
  cr_result_json :: string
  cr_error :: "(int \<times> string) option"

text \<open>The response of the relay's \<^verbatim>\<open>SendServerRequestAndAwait\<close>.\<close>

record server_request_response =
  ssr_result_json :: string
  ssr_error :: "(int \<times> string) option"
  ssr_timed_out :: bool
  ssr_unknown_channel_stream :: bool
  ssr_unsupported_method :: bool

text \<open>The commands of \<^verbatim>\<open>ChannelStreamOutbound\<close>.\<close>

datatype outbound_command = Command_Ack string
  | Command_SendMessage "content_block list" string
  | Command_TurnState turn_state_event
  | Command_ServerRequest server_request
  | Command_StreamItem stream_item
  | Command_Heartbeat

type_synonym outbound = "outbound_command option"

end
