(* ===== verification/Scrub.thy ===== *)
theory Scrub
  imports Proto
begin

text \<open>
  The secret scrubber, \<^verbatim>\<open>shared/src/scrub.rs\<close>, the log writer that filters
  through it, \<^verbatim>\<open>inference-runtime/src/scrub_writer.rs\<close>, and the redaction of the
  turn events an inference pod sends, \<^verbatim>\<open>inference-runtime/src/server.rs\<close>. The
  base64 and URL encoders, the JSON parser, the process environment and the file
  system are arguments.
\<close>

section \<open>Building the replacement set\<close>

record scrub_entry =
  se_name :: string
  se_env :: "string option"
  se_file :: "string option"

record scrub_set =
  replacements :: "(string \<times> string) list"

definition redacted_tag :: "string \<Rightarrow> string" where
  "redacted_tag name = ''[REDACTED:'' @ name @ '']''"

definition secret_replacements ::
  "(string \<Rightarrow> string) \<Rightarrow> (string \<Rightarrow> string) \<Rightarrow> string \<times> string \<Rightarrow> (string \<times> string) list" where
  "secret_replacements b64 url nv =
     (let value = trim (snd nv); tag = redacted_tag (fst nv) in
      if value = [] then []
      else [(value, tag)]
        @ (if b64 value \<noteq> value then [(b64 value, tag)] else [])
        @ (if url value \<noteq> value then [(url value, tag)] else []))"

definition from_secrets ::
  "(string \<Rightarrow> string) \<Rightarrow> (string \<Rightarrow> string) \<Rightarrow> (string \<times> string) list \<Rightarrow> scrub_set" where
  "from_secrets b64 url secrets =
     \<lparr> replacements = sort_desc_by (\<lambda>r. length (fst r))
         (concat (map (secret_replacements b64 url) secrets)) \<rparr>"

text \<open>
  \<^verbatim>\<open>from_env_var\<close>: \<open>env\<close> reads an environment variable, \<open>read_file\<close> a file and
  \<open>parse\<close> is the JSON parser of the registry.
\<close>

definition entry_secret ::
  "(string \<Rightarrow> string option) \<Rightarrow> (string \<Rightarrow> string option) \<Rightarrow> scrub_entry \<Rightarrow> (string \<times> string) option" where
  "entry_secret env read_file entry =
     (case se_env entry of
        Some env_name \<Rightarrow> Some (se_name entry, case env env_name of Some v \<Rightarrow> v | None \<Rightarrow> [])
      | None \<Rightarrow> (case se_file entry of
          Some file_path \<Rightarrow>
            Some (se_name entry, case read_file file_path of Some v \<Rightarrow> v | None \<Rightarrow> [])
        | None \<Rightarrow> None))"

definition from_env_var ::
  "(string \<Rightarrow> string) \<Rightarrow> (string \<Rightarrow> string) \<Rightarrow> (string \<Rightarrow> string option) \<Rightarrow> (string \<Rightarrow> string option)
   \<Rightarrow> (string \<Rightarrow> scrub_entry list option) \<Rightarrow> string \<Rightarrow> scrub_set" where
  "from_env_var b64 url env read_file parse env_var_name =
     (case env env_var_name of
        None \<Rightarrow> \<lparr> replacements = [] \<rparr>
      | Some json \<Rightarrow>
          if json = [] then \<lparr> replacements = [] \<rparr>
          else (case parse json of
              None \<Rightarrow> \<lparr> replacements = [] \<rparr>
            | Some entries \<Rightarrow>
                from_secrets b64 url (List.map_filter (entry_secret env read_file) entries)))"

section \<open>Applying it\<close>

definition apply_scrub :: "scrub_set \<Rightarrow> string \<Rightarrow> string" where
  "apply_scrub S input =
     foldl (\<lambda>result (pattern, replacement). replace pattern replacement result) input
       (replacements S)"

definition is_empty_scrub :: "scrub_set \<Rightarrow> bool" where
  "is_empty_scrub S \<longleftrightarrow> replacements S = []"

text \<open>
  \<^verbatim>\<open>ScrubWriter::write\<close> over an inner writer given by its \<^verbatim>\<open>write\<close> and
  \<^verbatim>\<open>write_all\<close>; \<open>valid\<close> is \<^verbatim>\<open>str::from_utf8(..).is_ok()\<close>.
\<close>

definition scrub_write ::
  "('w \<Rightarrow> string \<Rightarrow> ('e + nat) \<times> 'w) \<Rightarrow> ('w \<Rightarrow> string \<Rightarrow> ('e + unit) \<times> 'w)
   \<Rightarrow> (string \<Rightarrow> bool) \<Rightarrow> scrub_set \<Rightarrow> 'w \<Rightarrow> string \<Rightarrow> ('e + nat) \<times> 'w" where
  "scrub_write inner_write inner_write_all valid S inner buf =
     (if is_empty_scrub S then inner_write inner buf
      else
        let raw = (if valid buf then buf else []);
            scrubbed = apply_scrub S raw
        in (case inner_write_all inner scrubbed of
              (Inl e, inner') \<Rightarrow> (Inl e, inner')
            | (Inr _, inner') \<Rightarrow> (Inr (length buf), inner')))"

section \<open>Redacting turn events\<close>

definition scrub_block :: "scrub_set \<Rightarrow> content_block \<Rightarrow> content_block" where
  "scrub_block scrub b =
     (case b of
        Some (Block_Text t) \<Rightarrow> Some (Block_Text (apply_scrub scrub t))
      | Some (Block_Thinking t) \<Rightarrow> Some (Block_Thinking (apply_scrub scrub t))
      | _ \<Rightarrow> b)"

definition scrub_call :: "scrub_set \<Rightarrow> tool_call \<Rightarrow> tool_call" where
  "scrub_call scrub call =
     \<lparr> tc_id = apply_scrub scrub (tc_id call), tc_name = apply_scrub scrub (tc_name call),
       tc_input_json = apply_scrub scrub (tc_input_json call) \<rparr>"

fun scrub_turn_event_body :: "scrub_set \<Rightarrow> turn_event_body \<Rightarrow> turn_event_body" where
  "scrub_turn_event_body scrub (Event_ContentDelta t) = Event_ContentDelta (apply_scrub scrub t)"
| "scrub_turn_event_body scrub (Event_ToolUseStart i n) =
     Event_ToolUseStart (apply_scrub scrub i) (apply_scrub scrub n)"
| "scrub_turn_event_body scrub (Event_ToolUseInput j) = Event_ToolUseInput (apply_scrub scrub j)"
| "scrub_turn_event_body scrub (Event_Complete stop cs calls) =
     Event_Complete stop (map (scrub_block scrub) cs) (map (scrub_call scrub) calls)"
| "scrub_turn_event_body scrub (Event_Error c m) = Event_Error c (apply_scrub scrub m)"
| "scrub_turn_event_body scrub (Event_Warning f r) =
     Event_Warning (apply_scrub scrub f) (apply_scrub scrub r)"

definition scrub_turn_event :: "scrub_set \<Rightarrow> turn_event \<Rightarrow> turn_event" where
  "scrub_turn_event scrub event = map_option (scrub_turn_event_body scrub) event"

text \<open>The texts an event carries in the clear.\<close>

fun block_texts :: "block \<Rightarrow> string list" where
  "block_texts (Block_Text t) = [t]"
| "block_texts (Block_Thinking t) = [t]"
| "block_texts _ = []"

fun event_texts :: "turn_event_body \<Rightarrow> string list" where
  "event_texts (Event_ContentDelta t) = [t]"
| "event_texts (Event_ToolUseStart i n) = [i, n]"
| "event_texts (Event_ToolUseInput j) = [j]"
| "event_texts (Event_Complete stop cs calls) =
     concat (map (\<lambda>b. case b of Some b' \<Rightarrow> block_texts b' | None \<Rightarrow> []) cs)
     @ concat (map (\<lambda>c. [tc_id c, tc_name c, tc_input_json c]) calls)"
| "event_texts (Event_Error c m) = [m]"
| "event_texts (Event_Warning f r) = [f, r]"

section \<open>Correctness\<close>

text \<open>
  A set can be applied safely when every pattern is a text without square
  brackets that is not empty and does not occur inside a redaction tag, and every
  replacement is such a tag.
\<close>

definition tag_shaped :: "string \<Rightarrow> bool" where
  "tag_shaped t \<longleftrightarrow> t \<noteq> [] \<and> hd t = CHR ''['' \<and> last t = CHR '']''"

definition bracket_free :: "string \<Rightarrow> bool" where
  "bracket_free p \<longleftrightarrow> p \<noteq> [] \<and> CHR ''['' \<notin> set p \<and> CHR '']'' \<notin> set p"

definition safe_replacements :: "(string \<times> string) list \<Rightarrow> bool" where
  "safe_replacements rs \<longleftrightarrow>
     list_all (\<lambda>(p, t). bracket_free p \<and> tag_shaped t \<and>
       list_all (\<lambda>(q, u). \<not> contains_str u p) rs) rs"

lemma redacted_tag_shaped [simp]: "tag_shaped (redacted_tag n)"
  by (simp add: tag_shaped_def redacted_tag_def)

lemma sublist_replace_tag:
  assumes "bracket_free p" "tag_shaped t" "bracket_free x" "sublist x (replace p t s)"
  shows "sublist x s \<or> sublist x t"
proof -
  obtain t' where "t = CHR ''['' # t'"
    using assms(2) by (cases t) (auto simp: tag_shaped_def)
  then show ?thesis
    using sublist_replace_nonempty [of t "CHR ''[''" t' "CHR '']''" x p s] assms
    by (auto simp: tag_shaped_def bracket_free_def replace_def)
qed

lemma pattern_replace_tag:
  assumes "bracket_free p" "tag_shaped t" "sublist p (replace p t s)"
  shows "sublist p t"
proof -
  obtain t' where "t = CHR ''['' # t'"
    using assms(2) by (cases t) (auto simp: tag_shaped_def)
  then show ?thesis
    using pattern_replace_nonempty [of t "CHR ''[''" t' "CHR '']''" p s] assms
    by (auto simp: tag_shaped_def bracket_free_def replace_def)
qed

text \<open>A bracket-free text absent from the input and from every tag stays absent.\<close>

lemma foldl_replace_absent:
  assumes "\<forall>(p, t) \<in> set rs. bracket_free p \<and> tag_shaped t \<and> \<not> sublist x t"
    and "bracket_free x" and "\<not> sublist x s"
  shows "\<not> sublist x (foldl (\<lambda>r (p, t). replace p t r) s rs)"
  using assms
proof (induction rs arbitrary: s)
  case (Cons pt rs)
  obtain p t where pt: "pt = (p, t)" by (cases pt)
  then have "\<not> sublist x (replace p t s)"
    using sublist_replace_tag [of p t x s] Cons.prems by auto
  with Cons pt show ?case by auto
qed simp

lemma foldl_replace_pattern:
  assumes "\<forall>(p, t) \<in> set rs. bracket_free p \<and> tag_shaped t \<and> \<not> sublist x t"
    and "(x, u) \<in> set rs"
  shows "\<not> sublist x (foldl (\<lambda>r (p, t). replace p t r) s rs)"
  using assms
proof (induction rs arbitrary: s)
  case (Cons pt rs)
  show ?case
  proof (cases "pt = (x, u)")
    case True
    then have "\<not> sublist x (replace x u s)"
      using pattern_replace_tag [of x u s] Cons.prems by auto
    moreover have "bracket_free x" using True Cons.prems by auto
    ultimately show ?thesis
      using foldl_replace_absent [of rs x "replace x u s"] Cons.prems True by auto
  next
    case False
    with Cons show ?thesis by (cases pt) auto
  qed
qed simp

lemma apply_scrub_removes:
  assumes "safe_replacements (replacements S)" "(p, t) \<in> set (replacements S)"
  shows "\<not> sublist p (apply_scrub S s)"
proof -
  have "\<forall>(q, u) \<in> set (replacements S). bracket_free q \<and> tag_shaped u \<and> \<not> sublist p u"
    using assms by (fastforce simp: safe_replacements_def list_all_iff)
  with assms(2) show ?thesis
    unfolding apply_scrub_def by (intro foldl_replace_pattern) auto
qed

text \<open>The three forms of a registered secret that the set replaces.\<close>

definition secret_forms :: "(string \<Rightarrow> string) \<Rightarrow> (string \<Rightarrow> string) \<Rightarrow> string \<Rightarrow> string list" where
  "secret_forms b64 url v = [trim v, b64 (trim v), url (trim v)]"

lemma from_secrets_forms:
  assumes "(n, v) \<in> set secrets" "trim v \<noteq> []" "p \<in> set (secret_forms b64 url v)"
  shows "(p, redacted_tag n) \<in> set (replacements (from_secrets b64 url secrets))"
proof -
  have "(p, redacted_tag n) \<in> set (secret_replacements b64 url (n, v))"
    using assms by (auto simp: secret_replacements_def secret_forms_def Let_def)
  with assms(1) show ?thesis by (auto simp: from_secrets_def intro!: bexI [of _ "(n, v)"])
qed

lemma from_secrets_memD:
  assumes "(p, t) \<in> set (replacements (from_secrets b64 url secrets))"
  obtains n v where "(n, v) \<in> set secrets" "trim v \<noteq> []" "t = redacted_tag n"
    "p \<in> set (secret_forms b64 url v)"
  using assms that
  by (auto simp: from_secrets_def secret_replacements_def secret_forms_def Let_def split: if_splits)

text \<open>
  What the registry has to satisfy: no form of a secret has a bracket or occurs in
  a redaction tag. Both encoders produce only bracket-free text, so for the encoded
  forms only the second part depends on the secret.
\<close>

definition scrubbable ::
  "(string \<Rightarrow> string) \<Rightarrow> (string \<Rightarrow> string) \<Rightarrow> (string \<times> string) list \<Rightarrow> bool" where
  "scrubbable b64 url secrets \<longleftrightarrow>
     list_all (\<lambda>(n, v). trim v = [] \<or>
       (CHR ''['' \<notin> set (trim v) \<and> CHR '']'' \<notin> set (trim v) \<and>
        list_all (\<lambda>p. list_all (\<lambda>(n', v'). \<not> contains_str (redacted_tag n') p) secrets)
          (secret_forms b64 url v))) secrets"

text \<open>
  Documented behaviour of the two encoders: the base64 alphabet and percent
  encoding have no square bracket, and text that is not empty has an encoding
  that is not empty.
\<close>

definition bracket_free_encoder :: "(string \<Rightarrow> string) \<Rightarrow> bool" where
  "bracket_free_encoder enc \<longleftrightarrow> (\<forall>v. v \<noteq> [] \<longrightarrow> bracket_free (enc v))"

lemma from_secrets_safe:
  assumes "bracket_free_encoder b64" "bracket_free_encoder url" "scrubbable b64 url secrets"
  shows "safe_replacements (replacements (from_secrets b64 url secrets))"
  unfolding safe_replacements_def list_all_iff
proof clarify
  fix p t assume "(p, t) \<in> set (replacements (from_secrets b64 url secrets))"
  then obtain n v where nv: "(n, v) \<in> set secrets" "trim v \<noteq> []" "t = redacted_tag n"
    "p \<in> set (secret_forms b64 url v)" by (rule from_secrets_memD)
  have clean: "CHR ''['' \<notin> set (trim v)" "CHR '']'' \<notin> set (trim v)"
    and tags: "\<And>n' v'. (n', v') \<in> set secrets \<Longrightarrow> \<not> contains_str (redacted_tag n') p"
    using assms(3) nv by (fastforce simp: scrubbable_def list_all_iff)+
  have "bracket_free p"
    using nv clean assms(1,2) by (auto simp: secret_forms_def bracket_free_encoder_def bracket_free_def)
  moreover have "\<not> contains_str u p"
    if "(q, u) \<in> set (replacements (from_secrets b64 url secrets))" for q u
    using that tags by (auto elim: from_secrets_memD)
  ultimately show "bracket_free p \<and> tag_shaped t \<and>
      (\<forall>x\<in>set (replacements (from_secrets b64 url secrets)). case x of (q, u) \<Rightarrow> \<not> contains_str u p)"
    using nv(3) by auto
qed

text \<open>A hexadecimal encoder, bracket-free like the two encoders of the program.\<close>

definition hex_digits :: string where
  "hex_digits = ''0123456789ABCDEF''"

definition hex_encode :: "string \<Rightarrow> string" where
  "hex_encode v =
     concat (map (\<lambda>c. [hex_digits ! (of_char c div 16), hex_digits ! (of_char c mod 16)]) v)"

lemma hex_encode_bracket_free: "bracket_free_encoder hex_encode"
proof -
  have "hex_digits ! m \<in> set hex_digits" if "m < 16" for m
    using that by (intro nth_mem) (simp add: hex_digits_def)
  then have digit: "hex_digits ! m \<noteq> CHR ''[''" "hex_digits ! m \<noteq> CHR '']''" if "m < 16" for m
    using that by (force simp: hex_digits_def)+
  have "(of_char c :: nat) < 256" for c :: char
    using of_char_mod_256 [of c] by (metis mod_less_divisor zero_less_numeral)
  then have "(of_char c :: nat) div 16 < 16" for c :: char
    by (simp add: less_mult_imp_div_less)
  with digit show ?thesis
    by (auto simp: bracket_free_encoder_def bracket_free_def hex_encode_def)
      (metis mod_less_divisor zero_less_numeral)+
qed

text \<open>
  C9. After scrubbing, no registered secret is left in the text, neither as its
  trimmed value nor base64- or URL-encoded, for every input text and every
  registry whose secrets have no square brackets and do not occur in a redaction
  tag.
\<close>

theorem scrub_removes_secrets:
  assumes "bracket_free_encoder b64" "bracket_free_encoder url" "scrubbable b64 url secrets"
    and "(n, v) \<in> set secrets" "trim v \<noteq> []" "p \<in> set (secret_forms b64 url v)"
  shows "\<not> contains_str (apply_scrub (from_secrets b64 url secrets) input) p"
  using apply_scrub_removes [OF from_secrets_safe from_secrets_forms] assms by simp

theorem scrub_removes_secrets_witness:
  "scrubbable hex_encode hex_encode [(''KEY'', '' s3cr3t ''), (''B'', ''tok'')] \<and>
   \<not> contains_str (apply_scrub (from_secrets hex_encode hex_encode
       [(''KEY'', '' s3cr3t ''), (''B'', ''tok'')]) ''ab s3cr3t=tok'') ''s3cr3t''"
proof -
  have ok: "scrubbable hex_encode hex_encode [(''KEY'', '' s3cr3t ''), (''B'', ''tok'')]"
    by code_simp
  moreover have "trim '' s3cr3t '' = ''s3cr3t''" by code_simp
  ultimately show ?thesis
    using scrub_removes_secrets [OF hex_encode_bracket_free hex_encode_bracket_free ok,
        of "''KEY''" "'' s3cr3t ''" "''s3cr3t''" "''ab s3cr3t=tok''"]
    by (simp add: secret_forms_def)
qed

lemma scrub_block_texts:
  "scrub_block S b = Some b' \<Longrightarrow> txt \<in> set (block_texts b') \<Longrightarrow> \<exists>x. txt = apply_scrub S x"
  by (cases b rule: option.exhaust; cases "the b")
    (auto simp: scrub_block_def)

lemma scrub_event_texts:
  assumes "txt \<in> set (event_texts (scrub_turn_event_body S e))"
  shows "\<exists>x. txt = apply_scrub S x"
proof (cases "\<exists>stop cs calls. e = Event_Complete stop cs calls")
  case True
  with assms show ?thesis
    by (auto simp: scrub_call_def split: option.splits dest!: scrub_block_texts [OF sym])
next
  case False
  with assms show ?thesis by (cases e) auto
qed

text \<open>
  Every event an inference pod puts on the wire is clean: none of the texts of
  a scrubbed turn event, its tool-call ids, names and arguments included, has a
  form of a registered secret in it.
\<close>

theorem scrubbed_event_clean:
  assumes "safe_replacements (replacements S)" "(p, t) \<in> set (replacements S)"
    and "scrub_turn_event S ev = Some body" "txt \<in> set (event_texts body)"
  shows "\<not> contains_str txt p"
proof -
  obtain e where "ev = Some e" "body = scrub_turn_event_body S e"
    using assms(3) by (auto simp: scrub_turn_event_def)
  with scrub_event_texts assms(4) obtain x where "txt = apply_scrub S x" by blast
  with apply_scrub_removes [OF assms(1,2)] show ?thesis by simp
qed

theorem scrubbed_event_clean_witness:
  "safe_replacements (replacements (from_secrets hex_encode hex_encode [(''K'', ''s3cr3t'')])) \<and>
   \<not> contains_str (hd (event_texts (the (scrub_turn_event
      (from_secrets hex_encode hex_encode [(''K'', ''s3cr3t'')])
      (Some (Event_Error 0 ''bad key s3cr3t'')))))) ''s3cr3t''"
proof -
  let ?S = "from_secrets hex_encode hex_encode [(''K'', ''s3cr3t'')]"
  have "safe_replacements (replacements ?S)" by code_simp
  moreover have "(''s3cr3t'', ''[REDACTED:K]'') \<in> set (replacements ?S)" by code_simp
  moreover have "scrub_turn_event ?S (Some (Event_Error 0 ''bad key s3cr3t'')) =
      Some (Event_Error 0 ''bad key [REDACTED:K]'')" by code_simp
  ultimately show ?thesis
    using scrubbed_event_clean [of ?S "''s3cr3t''" "''[REDACTED:K]''"
        "Some (Event_Error 0 ''bad key s3cr3t'')" "Event_Error 0 ''bad key [REDACTED:K]''"
        "''bad key [REDACTED:K]''"]
    by simp
qed

text \<open>
  Each event is scrubbed on its own. A secret the model streams in two deltas
  leaves the pod: no pattern matches either delta, and their texts concatenate to
  the secret.
\<close>

lemma split_secret_crosses_frames:
  "let S = from_secrets hex_encode hex_encode [(''K'', ''s3cr3t'')];
       out = map (scrub_turn_event S) [Some (Event_ContentDelta ''s3c''), Some (Event_ContentDelta ''r3t'')]
   in concat (map (\<lambda>e. concat (event_texts (the e))) out) = ''s3cr3t''"
  by code_simp

text \<open>
  Patterns are tried longest first, so that a secret that contains another is
  replaced as a whole.
\<close>

lemma from_secrets_longest_first:
  "sorted_wrt (\<lambda>r r'. length (fst r') \<le> length (fst r))
     (replacements (from_secrets b64 url secrets))"
  by (simp add: from_secrets_def sort_desc_by_sorted)

text \<open>The log writer consumes its whole input and passes on only scrubbed text.\<close>

lemma scrub_write_scrubbed:
  assumes "\<not> is_empty_scrub S"
  shows "snd (scrub_write w wa valid S inner buf) =
      snd (wa inner (apply_scrub S (if valid buf then buf else [])))"
    and "fst (scrub_write w wa valid S inner buf) = Inr n \<Longrightarrow> n = length buf"
  using assms by (auto simp: scrub_write_def Let_def split: prod.splits sum.splits)

end
