(* ===== verification/Auth.thy ===== *)
theory Auth
  imports Rust_Str
begin

text \<open>
  Authentication, \<^verbatim>\<open>shared/src/auth.rs\<close>: the token and subject-access reviews sent
  to the apiserver, the decision taken on a completed review, and the mapping from
  a ServiceAccount name to its workspace. The apiserver is an argument: a function
  from a review to an error text or the completed review. The header decoder of
  the gRPC library is an argument too.
\<close>

section \<open>Reviews\<close>

record token_review_spec =
  trs_token :: "string option"
  trs_audiences :: "string list option"

text \<open>\<^verbatim>\<open>status.user\<close> is an optional record with an optional \<^verbatim>\<open>username\<close>.\<close>

record token_review_status =
  authenticated :: "bool option"
  audiences :: "string list option"
  user :: "string option option"

record token_review =
  tr_spec :: token_review_spec
  tr_status :: "token_review_status option"

record resource_attributes =
  ra_group :: "string option"
  ra_name :: "string option"
  ra_namespace :: "string option"
  ra_resource :: "string option"
  ra_verb :: "string option"

record subject_access_review =
  sar_user :: "string option"
  sar_resource_attributes :: "resource_attributes option"

type_synonym token_api = "token_review \<Rightarrow> string + token_review"

definition TOOL_TOOLSET_AUDIENCE :: string where
  "TOOL_TOOLSET_AUDIENCE = ''tool.toolset.sycophant.md''"

definition RELAY_HARNESS_AUDIENCE :: string where
  "RELAY_HARNESS_AUDIENCE = ''relay.harness.sycophant.md''"

definition HARNESS_RELAY_AUDIENCE :: string where
  "HARNESS_RELAY_AUDIENCE = ''harness.relay.sycophant.md''"

definition CHANNEL_RELAY_AUDIENCE :: string where
  "CHANNEL_RELAY_AUDIENCE = ''channel.relay.sycophant.md''"

definition build_token_review :: "string \<Rightarrow> string option \<Rightarrow> token_review" where
  "build_token_review token audience =
     \<lparr> tr_spec = \<lparr> trs_token = Some token, trs_audiences = map_option (\<lambda>a. [a]) audience \<rparr>,
       tr_status = None \<rparr>"

definition username_from_review :: "token_review \<Rightarrow> string option \<Rightarrow> string rpc" where
  "username_from_review review expected_audience =
     and_then (ok_or (internal ''no TokenReview status'') (tr_status review)) (\<lambda>st.
     if authenticated st \<noteq> Some True then Inl (permission_denied ''invalid token'')
     else
       let audience_ok =
         (case expected_audience of
            None \<Rightarrow> True
          | Some expected \<Rightarrow>
              (case audiences st of None \<Rightarrow> False | Some auds \<Rightarrow> list_ex (\<lambda>a. a = expected) auds))
       in if \<not> audience_ok then Inl (permission_denied ''audience echo mismatch'')
          else
            and_then (ok_or (internal ''no username in TokenReview'') (Option.bind (user st) id))
              (\<lambda>username.
                 if username = [] then
                   Inl (permission_denied ''authenticated token carries no username'')
                 else Inr username))"

definition review_token_username :: "token_api \<Rightarrow> string \<Rightarrow> string option \<Rightarrow> string rpc" where
  "review_token_username api token audience =
     and_then (map_err (\<lambda>e. internal (''TokenReview API error: '' @ e))
                 (api (build_token_review token audience)))
       (\<lambda>result. username_from_review result audience)"

section \<open>ServiceAccount names\<close>

definition SERVICEACCOUNT_USERNAME_PREFIX :: string where
  "SERVICEACCOUNT_USERNAME_PREFIX = ''system:serviceaccount:''"

definition serviceaccount_from_username :: "string \<Rightarrow> (string \<times> string) option" where
  "serviceaccount_from_username username =
     Option.bind (strip_prefix SERVICEACCOUNT_USERNAME_PREFIX username) (split_once (CHR '':''))"

definition WORKSPACE_PREFIX :: string where
  "WORKSPACE_PREFIX = ''ws-''"

definition UNPRIVILEGED_SA_SUFFIX :: string where
  "UNPRIVILEGED_SA_SUFFIX = ''-unprivileged''"

definition unprivileged_sa :: "string \<Rightarrow> string" where
  "unprivileged_sa workspace = WORKSPACE_PREFIX @ workspace @ UNPRIVILEGED_SA_SUFFIX"

definition parse_workspace_from_sa :: "string \<Rightarrow> string option" where
  "parse_workspace_from_sa sa_name =
     Option.bind (strip_prefix WORKSPACE_PREFIX sa_name) (\<lambda>rest.
       let workspace = (case strip_suffix UNPRIVILEGED_SA_SUFFIX rest of Some w \<Rightarrow> w | None \<Rightarrow> rest)
       in if workspace = [] then None else Some workspace)"

definition workspace_from_username :: "string \<Rightarrow> string rpc" where
  "workspace_from_username username =
     and_then (ok_or (permission_denied ''caller is not a ServiceAccount'')
                 (map_option snd (serviceaccount_from_username username)))
       (\<lambda>sa_name. ok_or (permission_denied (''ServiceAccount '' @ sa_name @ '' is not a workspace SA''))
          (parse_workspace_from_sa sa_name))"

text \<open>\<^verbatim>\<open>K8sTokenVerifier::verify_token\<close>.\<close>

definition verify_token :: "token_api \<Rightarrow> string \<Rightarrow> string \<Rightarrow> string rpc" where
  "verify_token api audience token =
     and_then (review_token_username api token (Some audience)) workspace_from_username"

section \<open>Request metadata\<close>

text \<open>
  \<open>authorization\<close> is the value of that metadata key, \<open>to_str\<close> decodes a header
  value; \<open>read_token\<close> reads the mounted token file and \<open>parse_value\<close> makes a header
  value of a text.
\<close>

definition extract_bearer_token ::
  "(string \<Rightarrow> string option) \<Rightarrow> string option \<Rightarrow> string rpc" where
  "extract_bearer_token to_str authorization =
     and_then (ok_or (permission_denied ''missing authorization metadata'') authorization) (\<lambda>v.
     and_then (ok_or (permission_denied ''invalid authorization encoding'') (to_str v)) (\<lambda>t.
     ok_or (permission_denied ''authorization must be Bearer token'') (strip_prefix ''Bearer '' t)))"

definition sa_token_interceptor ::
  "(string \<Rightarrow> string option) \<Rightarrow> (string \<Rightarrow> string option) \<Rightarrow> string
   \<Rightarrow> (string \<rightharpoonup> string) \<Rightarrow> (string \<rightharpoonup> string)" where
  "sa_token_interceptor read_token parse_value token_path metadata =
     (case read_token token_path of
        None \<Rightarrow> metadata
      | Some token \<Rightarrow>
          (case parse_value (''Bearer '' @ trim token) of
             None \<Rightarrow> metadata
           | Some val \<Rightarrow> metadata(''authorization'' \<mapsto> val)))"

section \<open>Subject access reviews\<close>

definition build_subject_access_review :: "string \<Rightarrow> string \<Rightarrow> string \<Rightarrow> subject_access_review" where
  "build_subject_access_review subject workspace namespace =
     \<lparr> sar_user = Some subject,
       sar_resource_attributes = Some
         \<lparr> ra_group = Some [], ra_name = Some (WORKSPACE_PREFIX @ workspace),
           ra_namespace = Some namespace, ra_resource = Some ''services'', ra_verb = Some ''get'' \<rparr> \<rparr>"

section \<open>Correctness\<close>

text \<open>
  Exactly the reviews that report an authenticated user with a username, and
  echo the pinned audience when one is pinned, authenticate a token.
\<close>

theorem username_from_review_iff:
  "username_from_review review expected = Inr username \<longleftrightarrow>
     (\<exists>st. tr_status review = Some st \<and> authenticated st = Some True \<and>
        (case expected of None \<Rightarrow> True
         | Some a \<Rightarrow> \<exists>auds. audiences st = Some auds \<and> a \<in> set auds) \<and>
        user st = Some (Some username) \<and> username \<noteq> [])"
proof (cases expected)
  case None
  then show ?thesis by (auto simp: username_from_review_def result_simps)
next
  case (Some a)
  then show ?thesis
    by (auto simp: username_from_review_def result_simps list_ex_iff split: option.split_asm)
qed

lemma review_token_username_iff:
  "review_token_username api token aud = Inr u \<longleftrightarrow>
     (\<exists>r. api (build_token_review token aud) = Inr r \<and> username_from_review r aud = Inr u)"
  by (auto simp: review_token_username_def result_simps)

lemma serviceaccount_from_username_iff:
  "serviceaccount_from_username u = Some (ns, sa) \<longleftrightarrow>
     u = SERVICEACCOUNT_USERNAME_PREFIX @ ns @ CHR '':'' # sa \<and> CHR '':'' \<notin> set ns"
  by (auto simp: serviceaccount_from_username_def split_once_eq_Some result_simps)

lemma parse_workspace_from_sa_iff:
  "parse_workspace_from_sa sa = Some w \<longleftrightarrow>
     w \<noteq> [] \<and> (sa = unprivileged_sa w \<or>
       (sa = WORKSPACE_PREFIX @ w \<and> \<not> suffix UNPRIVILEGED_SA_SUFFIX w))"
  by (auto simp: parse_workspace_from_sa_def unprivileged_sa_def Let_def suffix_def
      result_simps split: option.splits if_splits)


text \<open>
  The namespace of the account plays no part: an account \<open>ws-w\<close> of any namespace is
  taken for workspace \<open>w\<close>.
\<close>

lemma workspace_ignores_namespace:
  assumes "CHR '':'' \<notin> set ns" "CHR '':'' \<notin> set ns'"
  shows "workspace_from_username (SERVICEACCOUNT_USERNAME_PREFIX @ ns @ CHR '':'' # sa) =
         workspace_from_username (SERVICEACCOUNT_USERNAME_PREFIX @ ns' @ CHR '':'' # sa)"
proof -
  have "serviceaccount_from_username (SERVICEACCOUNT_USERNAME_PREFIX @ m @ CHR '':'' # sa)
      = Some (m, sa)" if "CHR '':'' \<notin> set m" for m
    using that by (simp add: serviceaccount_from_username_iff)
  with assms show ?thesis by (simp add: workspace_from_username_def)
qed

text \<open>
  The name of a workspace that itself ends in \<open>-unprivileged\<close> is read as another
  workspace.
\<close>

lemma unprivileged_workspace_collision:
  "w \<noteq> [] \<Longrightarrow>
   parse_workspace_from_sa (WORKSPACE_PREFIX @ w @ UNPRIVILEGED_SA_SUFFIX) = Some w"
  by (simp add: parse_workspace_from_sa_iff unprivileged_sa_def)

text \<open>A bearer token put on a request is the one extracted from it.\<close>

lemma interceptor_roundtrip:
  assumes "read_token path = Some token" "parse_value (''Bearer '' @ trim token) = Some val"
    and "to_str val = Some (''Bearer '' @ trim token)"
  shows "extract_bearer_token to_str
    (sa_token_interceptor read_token parse_value path metadata ''authorization'') = Inr (trim token)"
  using assms by (simp add: sa_token_interceptor_def extract_bearer_token_def result_simps del: append.simps)

end
