(* ===== verification/Ordered_Map.thy ===== *)
theory Ordered_Map
  imports Rust_Str "HOL-Library.Char_ord" "HOL-Library.List_Lexorder"
begin

text \<open>
  \<^verbatim>\<open>BTreeMap\<close>: a finite map whose iteration runs in the order of its keys. It is the
  list of its entries in key order; strings are ordered byte by byte, as Rust
  orders them. The interface locale states what the clients use (lookup after
  insert and remove, and that the iteration order is an invariant) and is
  interpreted on the list operations.
\<close>

section \<open>The interface\<close>

locale ordered_map =
  fixes empty :: 'm
    and insert :: "'k::linorder \<Rightarrow> 'v \<Rightarrow> 'm \<Rightarrow> 'm"
    and remove :: "'k \<Rightarrow> 'm \<Rightarrow> 'm"
    and entries :: "'m \<Rightarrow> ('k \<times> 'v) list"
    and invar :: "'m \<Rightarrow> bool"
  assumes invar_empty: "invar empty"
    and invar_insert: "invar m \<Longrightarrow> invar (insert k v m)"
    and invar_remove: "invar m \<Longrightarrow> invar (remove k m)"
    and entries_empty: "entries empty = []"
    and entries_ordered: "invar m \<Longrightarrow> sorted_wrt (<) (map fst (entries m))"
    and lookup_insert: "map_of (entries (insert k v m)) = (map_of (entries m))(k \<mapsto> v)"
    and lookup_remove: "invar m \<Longrightarrow> map_of (entries (remove k m)) = (map_of (entries m))(k := None)"
begin

lemma distinct_keys: "invar m \<Longrightarrow> distinct (map fst (entries m))"
  using entries_ordered by (metis strict_sorted_iff)

lemma entry_iff_lookup: "invar m \<Longrightarrow> (k, v) \<in> set (entries m) \<longleftrightarrow> map_of (entries m) k = Some v"
  using distinct_keys by (simp add: map_of_eq_Some_iff)

text \<open>Two well-formed maps with the same lookups have the same entries in the same order.\<close>

lemma entries_ext:
  assumes "invar m" "invar m'" "map_of (entries m) = map_of (entries m')"
  shows "entries m = entries m'"
proof -
  have "set (entries m) = set (entries m')"
    using assms entry_iff_lookup by auto
  moreover have "sorted (map fst (entries m))" "sorted (map fst (entries m'))"
    using assms entries_ordered by (metis strict_sorted_iff)+
  moreover have "distinct (map fst (entries m))" "distinct (map fst (entries m'))"
    using assms distinct_keys by auto
  moreover from calculation have "inj_on fst (set (entries m) \<union> set (entries m'))"
    by (simp add: distinct_map)
  ultimately show ?thesis
    by (intro map_sorted_distinct_set_unique [of fst]) auto
qed

end

section \<open>The map as a sorted list of entries\<close>

fun bt_insert :: "'k::linorder \<Rightarrow> 'v \<Rightarrow> ('k \<times> 'v) list \<Rightarrow> ('k \<times> 'v) list" where
  "bt_insert k v [] = [(k, v)]"
| "bt_insert k v ((k', v') # m) =
     (if k < k' then (k, v) # (k', v') # m
      else if k = k' then (k, v) # m
      else (k', v') # bt_insert k v m)"

fun bt_remove :: "'k \<Rightarrow> ('k \<times> 'v) list \<Rightarrow> ('k \<times> 'v) list" where
  "bt_remove k [] = []"
| "bt_remove k ((k', v') # m) = (if k = k' then m else (k', v') # bt_remove k m)"

definition bt_wf :: "('k::linorder \<times> 'v) list \<Rightarrow> bool" where
  "bt_wf m = sorted_wrt (<) (map fst m)"

lemma map_of_bt_insert [simp]: "map_of (bt_insert k v m) = (map_of m)(k \<mapsto> v)"
  by (induction k v m rule: bt_insert.induct) auto

lemma keys_bt_insert: "fst ` set (bt_insert k v m) = insert k (fst ` set m)"
  by (induction k v m rule: bt_insert.induct) auto

lemma keys_bt_remove: "fst ` set (bt_remove k m) \<subseteq> fst ` set m"
  by (induction k m rule: bt_remove.induct) auto

lemma bt_wf_insert: "bt_wf m \<Longrightarrow> bt_wf (bt_insert k v m)"
proof (induction k v m rule: bt_insert.induct)
  case (2 k v k' v' m)
  then show ?case
    using keys_bt_insert [of k v m] by (force simp: bt_wf_def)
qed (simp add: bt_wf_def)

lemma bt_wf_remove: "bt_wf m \<Longrightarrow> bt_wf (bt_remove k m)"
proof (induction k m rule: bt_remove.induct)
  case (2 k k' v' m)
  then show ?case
    using keys_bt_remove [of k m] by (force simp: bt_wf_def)
qed simp

lemma map_of_bt_remove: "bt_wf m \<Longrightarrow> map_of (bt_remove k m) = (map_of m)(k := None)"
proof (induction k m rule: bt_remove.induct)
  case (2 k k' v' m)
  then show ?case
    by (fastforce simp: bt_wf_def map_of_eq_None_iff)
qed simp

interpretation bt: ordered_map "[]" bt_insert bt_remove "\<lambda>m. m" bt_wf
  by unfold_locales
    (auto simp: bt_wf_insert bt_wf_remove map_of_bt_remove, auto simp: bt_wf_def)

lemmas bt_simps = bt.invar_empty bt_wf_insert bt_wf_remove map_of_bt_remove

end
