(* ===== verification/Watcher.thy ===== *)
theory Watcher
  imports Ordered_Map
begin

text \<open>
  The ConfigMap watcher, \<^verbatim>\<open>shared/src/configmap_watcher.rs\<close>, and the retry loops and
  shutdown condition around the long-running tasks: \<^verbatim>\<open>shared/src/watcher_retry.rs\<close>,
  \<^verbatim>\<open>retry_with_backoff\<close> of \<^verbatim>\<open>shared/src/lib.rs\<close> and \<^verbatim>\<open>shared/src/keepalive.rs\<close>. The
  kube watch stream is a list of events or errors.
\<close>

section \<open>The watch loop\<close>

record configmap =
  cm_name :: "string option"
  cm_labels :: "(string \<times> string) list option"
  cm_data :: "(string \<times> string) list option"

datatype watch_event = Init | InitApply configmap | InitDone | Apply configmap | Delete configmap

text \<open>
  The loop's two local maps, the shared table and the readiness flag.
\<close>

record 't watch_state =
  current :: "(string \<times> configmap) list"
  scratch :: "(string \<times> configmap) list"
  table :: 't
  ready :: bool

type_synonym 't merge = "(string \<times> configmap) list \<Rightarrow> 't \<times> string list"

definition key :: "configmap \<Rightarrow> string" where
  "key cm = (case cm_name cm of Some n \<Rightarrow> n | None \<Rightarrow> [])"

definition display_name :: "configmap \<Rightarrow> string" where
  "display_name cm = (case cm_name cm of Some n \<Rightarrow> n | None \<Rightarrow> ''<unnamed>'')"

definition install :: "'t merge \<Rightarrow> 't watch_state \<Rightarrow> 't watch_state" where
  "install merge w = w\<lparr> table := fst (merge (current w)) \<rparr>"

fun watch_step :: "'t merge \<Rightarrow> watch_event \<Rightarrow> 't watch_state \<Rightarrow> 't watch_state" where
  "watch_step merge Init w = w\<lparr> scratch := [] \<rparr>"
| "watch_step merge (InitApply cm) w = w\<lparr> scratch := bt_insert (key cm) cm (scratch w) \<rparr>"
| "watch_step merge InitDone w =
     (install merge (w\<lparr> current := scratch w, scratch := [] \<rparr>))\<lparr> ready := True \<rparr>"
| "watch_step merge (Apply cm) w =
     install merge (w\<lparr> current := bt_insert (key cm) cm (current w) \<rparr>)"
| "watch_step merge (Delete cm) w =
     install merge (w\<lparr> current := bt_remove (key cm) (current w) \<rparr>)"

fun watch_loop ::
  "'t merge \<Rightarrow> string \<Rightarrow> (string + watch_event) list \<Rightarrow> 't watch_state
   \<Rightarrow> (string + unit) \<times> 't watch_state" where
  "watch_loop merge subject [] w = (Inr (), w)"
| "watch_loop merge subject (Inl e # evs) w = (Inl (subject @ '' watcher error: '' @ e), w)"
| "watch_loop merge subject (Inr ev # evs) w = watch_loop merge subject evs (watch_step merge ev w)"

text \<open>\<^verbatim>\<open>watch_configmaps\<close> starts from empty local maps and the table it finds.\<close>

definition watch_configmaps ::
  "'t merge \<Rightarrow> string \<Rightarrow> (string + watch_event) list \<Rightarrow> 't \<times> bool \<Rightarrow> (string + unit) \<times> 't \<times> bool" where
  "watch_configmaps merge subject evs tr =
     (case watch_loop merge subject evs
        \<lparr> current = [], scratch = [], table = fst tr, ready = snd tr \<rparr> of
        (r, w) \<Rightarrow> (r, table w, ready w))"

text \<open>The rounds of \<^verbatim>\<open>run_watcher_forever\<close>: each restart keeps the shared table.\<close>

fun watch_rounds ::
  "'t merge \<Rightarrow> string \<Rightarrow> (string + watch_event) list list \<Rightarrow> 't \<times> bool \<Rightarrow> 't \<times> bool" where
  "watch_rounds merge subject [] tr = tr"
| "watch_rounds merge subject (evs # rounds) tr =
     watch_rounds merge subject rounds (snd (watch_configmaps merge subject evs tr))"

section \<open>Merging\<close>

definition merge_configmaps_step ::
  "string \<Rightarrow> (string \<Rightarrow> string + (string \<rightharpoonup> 'v)) \<Rightarrow> (string \<rightharpoonup> 'v) \<times> string list \<Rightarrow> configmap
   \<Rightarrow> (string \<rightharpoonup> 'v) \<times> string list" where
  "merge_configmaps_step data_key parse acc cm =
     (case Option.bind (cm_data cm) (\<lambda>d. map_of d data_key) of
        None \<Rightarrow> (fst acc, snd acc @ [display_name cm @ '': no '' @ data_key @ '' key''])
      | Some raw \<Rightarrow>
          (case parse raw of
             Inr parsed \<Rightarrow> (fst acc ++ parsed, snd acc)
           | Inl e \<Rightarrow> (fst acc, snd acc @ [display_name cm @ '': '' @ e])))"

definition merge_configmaps ::
  "string \<Rightarrow> (string \<Rightarrow> string + (string \<rightharpoonup> 'v)) \<Rightarrow> configmap list \<Rightarrow> (string \<rightharpoonup> 'v) \<times> string list" where
  "merge_configmaps data_key parse cms =
     foldl (merge_configmaps_step data_key parse) (Map.empty, []) cms"

definition merge_labelled_step ::
  "((string \<times> string) list \<Rightarrow> string + 'v) \<Rightarrow> (string \<rightharpoonup> 'v) \<times> string list \<Rightarrow> configmap
   \<Rightarrow> (string \<rightharpoonup> 'v) \<times> string list" where
  "merge_labelled_step parse acc cm =
     (case Option.bind (cm_labels cm) (\<lambda>l. map_of l ''app.kubernetes.io/name'') of
        None \<Rightarrow>
          (fst acc, snd acc @ [display_name cm @ '': no app.kubernetes.io/name label''])
      | Some k \<Rightarrow>
          (case parse (case cm_data cm of Some d \<Rightarrow> d | None \<Rightarrow> []) of
             Inr value \<Rightarrow> ((fst acc)(k \<mapsto> value), snd acc)
           | Inl e \<Rightarrow> (fst acc, snd acc @ [display_name cm @ '': '' @ e])))"

definition merge_labelled ::
  "((string \<times> string) list \<Rightarrow> string + 'v) \<Rightarrow> configmap list \<Rightarrow> (string \<rightharpoonup> 'v) \<times> string list" where
  "merge_labelled parse cms = foldl (merge_labelled_step parse) (Map.empty, []) cms"

section \<open>Correctness of the watch loop\<close>

text \<open>
  What the loop promises, stated on finite maps: the watched set after a sequence
  of events is the last complete listing with the later changes applied. An
  unfinished listing does not show.
\<close>

fun spec_step ::
  "watch_event \<Rightarrow> (string \<rightharpoonup> configmap) \<times> (string \<rightharpoonup> configmap)
   \<Rightarrow> (string \<rightharpoonup> configmap) \<times> (string \<rightharpoonup> configmap)" where
  "spec_step Init (live, listing) = (live, Map.empty)"
| "spec_step (InitApply cm) (live, listing) = (live, listing(key cm \<mapsto> cm))"
| "spec_step InitDone (live, listing) = (listing, Map.empty)"
| "spec_step (Apply cm) (live, listing) = (live(key cm \<mapsto> cm), listing)"
| "spec_step (Delete cm) (live, listing) = (live(key cm := None), listing)"

definition watch_invar :: "'t watch_state \<Rightarrow> bool" where
  "watch_invar w \<longleftrightarrow> bt_wf (current w) \<and> bt_wf (scratch w)"

definition watch_abs :: "'t watch_state \<Rightarrow> (string \<rightharpoonup> configmap) \<times> (string \<rightharpoonup> configmap)" where
  "watch_abs w = (map_of (current w), map_of (scratch w))"

lemmas watch_defs = watch_invar_def watch_abs_def install_def

lemma watch_step_invar: "watch_invar w \<Longrightarrow> watch_invar (watch_step merge ev w)"
  by (cases ev) (auto simp: watch_defs bt_simps bt_wf_def [of "[]"])

lemma watch_step_refines: "watch_invar w \<Longrightarrow> watch_abs (watch_step merge ev w) = spec_step ev (watch_abs w)"
  by (cases ev) (auto simp: watch_defs bt_simps)

text \<open>The table is up to date unless a first listing is still incomplete.\<close>

definition in_sync :: "'t merge \<Rightarrow> 't watch_state \<Rightarrow> bool" where
  "in_sync merge w \<longleftrightarrow> table w = fst (merge (current w))"

fun changes_table :: "watch_event \<Rightarrow> bool" where
  "changes_table Init = False"
| "changes_table (InitApply cm) = False"
| "changes_table _ = True"

lemma watch_step_table:
  "changes_table ev \<Longrightarrow> in_sync merge (watch_step merge ev w)"
  "\<not> changes_table ev \<Longrightarrow> table (watch_step merge ev w) = table w \<and>
     current (watch_step merge ev w) = current w"
  by (cases ev; simp add: in_sync_def install_def)+

lemma foldl_watch_step:
  assumes "watch_invar w"
  shows "watch_invar (foldl (\<lambda>w ev. watch_step merge ev w) w evs)"
    and "watch_abs (foldl (\<lambda>w ev. watch_step merge ev w) w evs) = foldl (\<lambda>a ev. spec_step ev a) (watch_abs w) evs"
  using assms by (induction evs arbitrary: w) (simp_all add: watch_step_invar watch_step_refines)

lemma foldl_in_sync:
  assumes "in_sync merge w \<or> list_ex changes_table evs"
  shows "in_sync merge (foldl (\<lambda>w ev. watch_step merge ev w) w evs)"
  using assms
proof (induction evs arbitrary: w)
  case (Cons ev evs)
  have "in_sync merge (watch_step merge ev w) \<or> list_ex changes_table evs"
  proof (cases "changes_table ev")
    case True
    then show ?thesis using watch_step_table(1) by blast
  next
    case False
    then have "in_sync merge w \<or> list_ex changes_table evs" using Cons.prems by auto
    with False watch_step_table(2) [of ev merge w] show ?thesis by (auto simp: in_sync_def)
  qed
  with Cons.IH show ?case by simp
qed simp

lemma watch_loop_foldl:
  "watch_loop merge subject (map Inr evs @ rest) w
     = watch_loop merge subject rest (foldl (\<lambda>w ev. watch_step merge ev w) w evs)"
  by (induction evs arbitrary: w) auto

definition watch_init :: "'t \<times> bool \<Rightarrow> 't watch_state" where
  "watch_init tr = \<lparr> current = [], scratch = [], table = fst tr, ready = snd tr \<rparr>"

lemma watch_init_invar [simp]: "watch_invar (watch_init tr)"
  by (simp add: watch_init_def watch_invar_def bt_wf_def)

lemma watch_init_abs [simp]: "watch_abs (watch_init tr) = (Map.empty, Map.empty)"
  by (simp add: watch_init_def watch_abs_def)

text \<open>
  C17. A stream of events that has completed a listing or delivered a change leaves
  the shared table equal to the merge of the watched set: the last complete listing
  with every later change applied, in name order. A listing under way is invisible.
\<close>

theorem watch_table_is_merge:
  assumes "list_ex changes_table evs"
  shows "\<exists>m. bt_wf m
     \<and> map_of m = fst (foldl (\<lambda>a ev. spec_step ev a) (Map.empty, Map.empty) evs)
     \<and> watch_configmaps merge subject (map Inr evs) tr
         = (Inr (), fst (merge m), snd tr \<or> InitDone \<in> set evs)"
proof -
  let ?w = "foldl (\<lambda>w ev. watch_step merge ev w) (watch_init tr) evs"
  have loop: "watch_loop merge subject (map Inr evs) (watch_init tr) = (Inr (), ?w)"
    using watch_loop_foldl [of merge subject evs "[]"] by simp
  have abs: "watch_abs ?w = foldl (\<lambda>a ev. spec_step ev a) (Map.empty, Map.empty) evs"
    using foldl_watch_step(2) [of "watch_init tr" merge evs] by simp
  have ready: "ready (foldl (\<lambda>w ev. watch_step merge ev w) w evs) \<longleftrightarrow> ready w \<or> InitDone \<in> set evs" for w
  proof (induction evs arbitrary: w)
    case (Cons ev evs)
    then show ?case by (cases ev) (auto simp: install_def)
  qed simp
  have "table ?w = fst (merge (current ?w))"
    using foldl_in_sync [of merge "watch_init tr" evs] assms by (simp add: in_sync_def)
  moreover have "bt_wf (current ?w)"
    using foldl_watch_step(1) [OF watch_init_invar, of merge tr evs] by (simp add: watch_invar_def)
  moreover have "map_of (current ?w) = fst (foldl (\<lambda>a ev. spec_step ev a) (Map.empty, Map.empty) evs)"
    using abs by (metis fst_conv watch_abs_def)
  ultimately show ?thesis
    using loop ready [of "watch_init tr"]
    by (auto simp: watch_configmaps_def watch_init_def)
qed

theorem watch_table_is_merge_witness:
  "list_ex changes_table
      [Init, InitApply \<lparr> cm_name = Some ''a'', cm_labels = None, cm_data = None \<rparr>, InitDone] \<and>
   fst (snd (watch_configmaps (\<lambda>m. (map fst m, [])) ''identity''
      (map Inr [Init, InitApply \<lparr> cm_name = Some ''a'', cm_labels = None, cm_data = None \<rparr>, InitDone])
      ([], False))) = [''a'']"
proof -
  let ?evs = "[Init, InitApply \<lparr> cm_name = Some ''a'', cm_labels = None, cm_data = None \<rparr>, InitDone]"
  have "list_ex changes_table ?evs" by simp
  from watch_table_is_merge [OF this, of "\<lambda>m. (map fst m, [])" "''identity''" "([], False)"]
  obtain m where m: "bt_wf m" "map_of m = [''a'' \<mapsto> \<lparr> cm_name = Some ''a'', cm_labels = None, cm_data = None \<rparr>]"
    "watch_configmaps (\<lambda>m. (map fst m, [])) ''identity'' (map Inr ?evs) ([], False)
      = (Inr (), map fst m, True)"
    by (auto simp: key_def)
  have "m = [(''a'', \<lparr> cm_name = Some ''a'', cm_labels = None, cm_data = None \<rparr>)]"
    by (rule bt.entries_ext) (use m in \<open>auto simp: bt_wf_def\<close>)
  with m show ?thesis by simp
qed

section \<open>Rejected ConfigMaps\<close>

text \<open>
  The contract every merge of the program keeps: a ConfigMap it rejects leaves no
  trace in the table it builds. Under it a broken delivery has the effect of a
  deletion, so a mistake in one ConfigMap neither keeps its former content alive
  nor disturbs another one.
\<close>

locale fault_isolated_merge =
  fixes merge :: "'t merge"
    and accepts :: "configmap \<Rightarrow> bool"
  assumes rejected_is_absent:
    "\<not> accepts cm \<Longrightarrow> fst (merge (xs @ (k, cm) # ys)) = fst (merge (xs @ ys))"
begin

lemma broken_apply_is_delete:
  assumes "watch_invar w" "\<not> accepts cm"
  shows "table (watch_step merge (Apply cm) w) = table (watch_step merge (Delete cm) w)"
proof -
  have "fst (merge (pre @ bt_insert (key cm) cm m)) = fst (merge (pre @ bt_remove (key cm) m))"
    if "bt_wf m" for pre m
    using that
  proof (induction m arbitrary: pre)
    case Nil
    then show ?case using rejected_is_absent [OF assms(2), of pre "key cm" "[]"] by simp
  next
    case (Cons e m)
    obtain k' c' where e: "e = (k', c')" by (cases e)
    show ?case
    proof (cases "key cm < k'")
      case True
      have "key cm \<notin> fst ` set (e # m)"
        using Cons.prems True by (auto simp: bt_wf_def e)
      moreover have "bt_remove k m' = m'" if "k \<notin> fst ` set m'" for k :: string and m' :: "(string \<times> configmap) list"
        using that by (induction k m' rule: bt_remove.induct) auto
      ultimately show ?thesis
        using rejected_is_absent [OF assms(2), of pre "key cm" "e # m"] True by (simp add: e)
    next
      case False
      then show ?thesis
        using Cons.IH [of "pre @ [e]"] Cons.prems rejected_is_absent [OF assms(2), of pre "key cm" m]
        by (auto simp: e bt_wf_def)
    qed
  qed
  from this [of "current w" "[]"] assms(1) show ?thesis
    by (simp add: install_def watch_invar_def)
qed

end

text \<open>Both generic merges keep the contract.\<close>

definition accepts_keyed :: "string \<Rightarrow> (string \<Rightarrow> string + (string \<rightharpoonup> 'v)) \<Rightarrow> configmap \<Rightarrow> bool" where
  "accepts_keyed data_key parse cm \<longleftrightarrow>
     (case Option.bind (cm_data cm) (\<lambda>d. map_of d data_key) of
        None \<Rightarrow> False | Some raw \<Rightarrow> (case parse raw of Inr _ \<Rightarrow> True | Inl _ \<Rightarrow> False))"

definition accepts_labelled :: "((string \<times> string) list \<Rightarrow> string + 'v) \<Rightarrow> configmap \<Rightarrow> bool" where
  "accepts_labelled parse cm \<longleftrightarrow>
     Option.bind (cm_labels cm) (\<lambda>l. map_of l ''app.kubernetes.io/name'') \<noteq> None \<and>
     (case parse (case cm_data cm of Some d \<Rightarrow> d | None \<Rightarrow> []) of Inr _ \<Rightarrow> True | Inl _ \<Rightarrow> False)"

lemma merge_keyed_foldl:
  "fst (foldl (merge_configmaps_step data_key parse) acc cms)
     = fst (foldl (merge_configmaps_step data_key parse) (fst acc, errs) cms)"
proof (induction cms arbitrary: acc errs)
  case (Cons cm cms)
  show ?case
    using Cons.IH [of "merge_configmaps_step data_key parse acc cm"
        "snd (merge_configmaps_step data_key parse (fst acc, errs) cm)"]
    by (simp add: merge_configmaps_step_def split: option.splits sum.splits)
qed simp

lemma merge_labelled_foldl:
  "fst (foldl (merge_labelled_step parse) acc cms)
     = fst (foldl (merge_labelled_step parse) (fst acc, errs) cms)"
proof (induction cms arbitrary: acc errs)
  case (Cons cm cms)
  show ?case
    using Cons.IH [of "merge_labelled_step parse acc cm"
        "snd (merge_labelled_step parse (fst acc, errs) cm)"]
    by (simp add: merge_labelled_step_def split: option.splits sum.splits)
qed simp

interpretation keyed: fault_isolated_merge
  "\<lambda>m. merge_configmaps data_key parse (map snd m)" "accepts_keyed data_key parse"
  for data_key :: string and parse :: "string \<Rightarrow> string + (string \<rightharpoonup> 'v)"
proof
  fix cm :: configmap and xs ys :: "(string \<times> configmap) list" and k
  assume rejected: "\<not> accepts_keyed data_key parse cm"
  let ?acc = "foldl (merge_configmaps_step data_key parse) (Map.empty, []) (map snd xs)"
  have "fst (merge_configmaps_step data_key parse ?acc cm) = fst ?acc"
    using rejected
    by (auto simp: merge_configmaps_step_def accepts_keyed_def split: option.splits sum.splits)
  then show "fst (merge_configmaps data_key parse (map snd (xs @ (k, cm) # ys)))
      = fst (merge_configmaps data_key parse (map snd (xs @ ys)))"
    using merge_keyed_foldl [of data_key parse "merge_configmaps_step data_key parse ?acc cm" _ "snd ?acc"]
    by (simp add: merge_configmaps_def)
qed

interpretation labelled: fault_isolated_merge
  "\<lambda>m. merge_labelled parse (map snd m)" "accepts_labelled parse"
  for parse :: "(string \<times> string) list \<Rightarrow> string + 'v"
proof
  fix cm :: configmap and xs ys :: "(string \<times> configmap) list" and k
  assume rejected: "\<not> accepts_labelled parse cm"
  let ?acc = "foldl (merge_labelled_step parse) (Map.empty, []) (map snd xs)"
  have "fst (merge_labelled_step parse ?acc cm) = fst ?acc"
    using rejected
    by (auto simp: merge_labelled_step_def accepts_labelled_def split: option.splits sum.splits)
  then show "fst (merge_labelled parse (map snd (xs @ (k, cm) # ys)))
      = fst (merge_labelled parse (map snd (xs @ ys)))"
    using merge_labelled_foldl [of parse "merge_labelled_step parse ?acc cm" _ "snd ?acc"]
    by (simp add: merge_labelled_def)
qed

section \<open>Retry loops\<close>

text \<open>
  \<^verbatim>\<open>run_watcher_forever\<close>: the delay, in seconds, slept after the \<open>n\<close>-th return of
  the watched task, whether it returned \<^verbatim>\<open>Ok\<close> or an error.
\<close>

definition next_delay :: "nat \<Rightarrow> nat" where
  "next_delay delay = min (delay * 2) 30"

fun watcher_delays :: "(string + unit) list \<Rightarrow> nat \<Rightarrow> nat list" where
  "watcher_delays [] delay = []"
| "watcher_delays (Inr _ # results) delay = delay # watcher_delays results (next_delay delay)"
| "watcher_delays (Inl _ # results) delay = delay # watcher_delays results (next_delay delay)"

definition run_watcher_forever :: "(string + unit) list \<Rightarrow> nat list" where
  "run_watcher_forever results = watcher_delays results 1"

text \<open>
  \<^verbatim>\<open>retry_with_backoff\<close>: the result and the sleeps, \<^const>\<open>None\<close> for the panic of the
  assertion.
\<close>

fun retry_loop :: "nat \<Rightarrow> (nat \<Rightarrow> 'e + 'a) \<Rightarrow> nat \<Rightarrow> nat \<Rightarrow> ('e + 'a) option \<times> nat list" where
  "retry_loop max_attempts op attempt 0 = (None, [])"
| "retry_loop max_attempts op attempt (Suc left) =
     (case op attempt of
        Inr v \<Rightarrow> (Some (Inr v), [])
      | Inl e \<Rightarrow>
          if attempt < max_attempts then
            (case retry_loop max_attempts op (attempt + 1) left of (r, sl) \<Rightarrow> (r, attempt # sl))
          else (Some (Inl e), []))"

definition retry_with_backoff :: "nat \<Rightarrow> (nat \<Rightarrow> 'e + 'a) \<Rightarrow> ('e + 'a) option \<times> nat list" where
  "retry_with_backoff max_attempts op = retry_loop max_attempts op 1 max_attempts"

lemma watcher_delays_closed:
  "watcher_delays results (min (2 ^ n) 30) = map (\<lambda>i. min (2 ^ (n + i)) 30) [0..<length results]"
proof (induction results arbitrary: n)
  case (Cons r results)
  have step: "next_delay (min (2 ^ n) 30) = min (2 ^ Suc n) 30"
    by (auto simp: next_delay_def min_def)
  have "watcher_delays (r # results) (min (2 ^ n) 30)
      = min (2 ^ n) 30 # watcher_delays results (min (2 ^ Suc n) 30)"
    by (cases r) (simp_all only: watcher_delays.simps step)
  also have "\<dots> = map (\<lambda>i. min (2 ^ (n + i)) 30) (0 # map Suc [0..<length results])"
    using Cons.IH [of "Suc n"] by simp
  finally show ?case
    by (simp only: length_Cons map_Suc_upt upt_conv_Cons [OF zero_less_Suc])
qed simp

text \<open>
  The restart delays are 1, 2, 4, 8, 16 and then 30 seconds for ever, whatever
  the results of the watched task: a return without error does not reset them.
\<close>

theorem watcher_delays_capped:
  "run_watcher_forever results = map (\<lambda>i. min (2 ^ i) 30) [0..<length results]"
  using watcher_delays_closed [of results 0] by (simp add: run_watcher_forever_def)

lemma retry_loop_result:
  assumes "attempt + left = max_attempts + 1" "left > 0"
  shows "fst (retry_loop max_attempts op attempt left) =
     Some (case find (\<lambda>i. \<not> isl (op i)) [attempt..<max_attempts + 1] of
             Some i \<Rightarrow> op i | None \<Rightarrow> op max_attempts)"
  using assms
proof (induction max_attempts op attempt left rule: retry_loop.induct)
  case (2 max_attempts op attempt left)
  have upt: "[attempt..<max_attempts + 1] = attempt # [Suc attempt..<max_attempts + 1]"
    using 2 by (intro upt_conv_Cons) simp
  show ?case
  proof (cases "op attempt")
    case (Inl e)
    show ?thesis
    proof (cases "attempt < max_attempts")
      case True
      then have "fst (retry_loop max_attempts op (attempt + 1) left) =
        Some (case find (\<lambda>i. \<not> isl (op i)) [attempt + 1..<max_attempts + 1] of
             Some i \<Rightarrow> op i | None \<Rightarrow> op max_attempts)"
        using 2 Inl by (intro "2.IH") auto
      then have "fst (retry_loop max_attempts op (attempt + 1) left) =
        Some (case find (\<lambda>i. \<not> isl (op i)) [attempt..<max_attempts + 1] of
             Some i \<Rightarrow> op i | None \<Rightarrow> op max_attempts)"
        using Inl by (simp only: upt) simp
      with Inl True show ?thesis by (simp add: case_prod_beta del: upt_Suc)
    next
      case False
      then have "attempt = max_attempts" using 2 by simp
      with Inl show ?thesis by simp
    qed
  next
    case (Inr v)
    then show ?thesis by (simp only: upt) simp
  qed
qed simp

text \<open>
  C40. A retried operation always answers: with the first attempt that succeeds, or
  with the error of the last of exactly \<open>max_attempts\<close> attempts.
\<close>

theorem retry_with_backoff_result:
  assumes "max_attempts \<ge> 1"
  shows "fst (retry_with_backoff max_attempts op) =
     Some (case find (\<lambda>i. \<not> isl (op i)) [1..<max_attempts + 1] of
             Some i \<Rightarrow> op i | None \<Rightarrow> op max_attempts)"
  using retry_loop_result [of 1 max_attempts max_attempts op] assms
  by (simp add: retry_with_backoff_def)

theorem retry_with_backoff_result_witness:
  "(3::nat) \<ge> 1 \<and>
   fst (retry_with_backoff 3 (\<lambda>i. if i = 2 then Inr ''up'' else Inl i)) = Some (Inr ''up'')"
  using retry_with_backoff_result [of 3 "\<lambda>i. if i = 2 then Inr ''up'' else Inl i"]
  by (simp add: upt_rec)

section \<open>Shutdown of a capability-job pod\<close>

text \<open>
  One poll of \<^verbatim>\<open>ShutdownWatcher::wait\<close> reads the counters; the loop ends at the
  first poll that allows it.
\<close>

record activity =
  in_flight :: int
  completed :: int
  last_activity :: nat

definition activity_new :: "nat \<Rightarrow> activity" where
  "activity_new now = \<lparr> in_flight = 0, completed = 0, last_activity = now \<rparr>"

definition activity_touch :: "nat \<Rightarrow> activity \<Rightarrow> activity" where
  "activity_touch now a = a\<lparr> last_activity := now \<rparr>"

definition may_stop :: "bool \<Rightarrow> nat \<Rightarrow> nat \<times> activity \<Rightarrow> bool" where
  "may_stop keepalive idle_window poll =
     (case poll of (now, a) \<Rightarrow>
        if in_flight a > 0 then False
        else if \<not> keepalive \<and> completed a \<ge> 1 then True
        else now - last_activity a \<ge> idle_window)"

fun shutdown_wait :: "bool \<Rightarrow> nat \<Rightarrow> (nat \<times> activity) list \<Rightarrow> (nat \<times> activity) option" where
  "shutdown_wait keepalive idle_window [] = None"
| "shutdown_wait keepalive idle_window (poll # polls) =
     (if may_stop keepalive idle_window poll then Some poll
      else shutdown_wait keepalive idle_window polls)"

text \<open>The counter updates of the two pod servers around a call.\<close>

definition call_started :: "nat \<Rightarrow> activity \<Rightarrow> activity" where
  "call_started now a = activity_touch now (a\<lparr> in_flight := in_flight a + 1 \<rparr>)"

definition call_finished :: "nat \<Rightarrow> activity \<Rightarrow> activity" where
  "call_finished now a =
     activity_touch now (a\<lparr> completed := completed a + 1, in_flight := in_flight a - 1 \<rparr>)"

text \<open>A pod never stops while a call runs, and an idle keepalive pod only after its window.\<close>

lemma shutdown_wait_sound:
  assumes "shutdown_wait keepalive idle_window polls = Some (now, a)"
  shows "(now, a) \<in> set polls \<and> in_flight a \<le> 0 \<and>
     (\<not> keepalive \<and> completed a \<ge> 1 \<or> now - last_activity a \<ge> idle_window)"
  using assms
  by (induction polls) (auto simp: may_stop_def split: if_splits)

end
