(* ===== verification/Identity.thy ===== *)
theory Identity
  imports Watcher
begin

text \<open>
  The relay's watched tables: the identity table of
  \<^verbatim>\<open>relay-controller/src/identity.rs\<close> with its watcher \<^verbatim>\<open>identity_watcher.rs\<close>, and the
  per-workspace grants of \<^verbatim>\<open>relay-controller/src/capabilities.rs\<close>. A \<^verbatim>\<open>HashMap\<close> the
  code iterates is an association list in insertion order, which stands for the
  unspecified order of the iteration.
\<close>

section \<open>The identity table\<close>

record row_error =
  re_key :: string
  re_reason :: string

record identity_table =
  by_subject :: "string \<rightharpoonup> string list"
  handles :: "string \<times> string \<rightharpoonup> string"

record subject_row =
  row_subject :: string
  row_workspaces :: "string list"
  row_handles :: "(string \<times> string) list"

definition workspaces_for :: "identity_table \<Rightarrow> string \<Rightarrow> string list" where
  "workspaces_for t subject = (case by_subject t subject of Some ws \<Rightarrow> ws | None \<Rightarrow> [])"

definition resolve_handle :: "identity_table \<Rightarrow> string \<Rightarrow> string \<Rightarrow> string option" where
  "resolve_handle t channel handle = handles t (channel, handle)"

definition split_workspaces :: "string \<Rightarrow> string list" where
  "split_workspaces w = filter (\<lambda>ws. ws \<noteq> []) (map trim (split_char (CHR '','') w))"

fun parse_handles :: "(string \<times> string) list \<Rightarrow> string + (string \<times> string) list" where
  "parse_handles [] = Inr []"
| "parse_handles ((k, value) # data) =
     (case strip_prefix ''handle.'' k of
        None \<Rightarrow> parse_handles data
      | Some channel \<Rightarrow>
          if channel = [] \<or> trim value = [] then
            Inl (''handle key \"'' @ k @ ''\" has an empty channel or value'')
          else (case parse_handles data of
              Inl e \<Rightarrow> Inl e
            | Inr hs \<Rightarrow> Inr ((channel, trim value) # hs)))"

definition parse_configmap :: "(string \<times> string) list \<Rightarrow> string + subject_row" where
  "parse_configmap data =
     and_then (ok_or ''no subject key''
         (Option.bind (map_of data ''subject'') (\<lambda>s. if trim s = [] then None else Some s))) (\<lambda>s.
     and_then (parse_handles data) (\<lambda>hs.
     Inr \<lparr> row_subject = trim s,
           row_workspaces =
             (case map_of data ''workspaces'' of Some w \<Rightarrow> split_workspaces w | None \<Rightarrow> []),
           row_handles = hs \<rparr>))"

definition parse_cm :: "configmap \<Rightarrow> string + subject_row" where
  "parse_cm cm = parse_configmap (case cm_data cm of Some d \<Rightarrow> d | None \<Rightarrow> [])"

text \<open>\<^verbatim>\<open>handle_claims.entry(k).or_default().push(subject)\<close>.\<close>

fun claim_push :: "'k \<Rightarrow> 'v \<Rightarrow> ('k \<times> 'v list) list \<Rightarrow> ('k \<times> 'v list) list" where
  "claim_push k s [] = [(k, [s])]"
| "claim_push k s ((k', ss) # claims) =
     (if k = k' then (k', ss @ [s]) # claims else (k', ss) # claim_push k s claims)"

record delivery =
  d_by_subject :: "string \<rightharpoonup> string list"
  d_claims :: "((string \<times> string) \<times> string list) list"
  d_errors :: "row_error list"

definition delivery_step :: "delivery \<Rightarrow> configmap \<Rightarrow> delivery" where
  "delivery_step d cm =
     (case parse_cm cm of
        Inr row \<Rightarrow>
          d\<lparr> d_by_subject := (d_by_subject d)(row_subject row \<mapsto> row_workspaces row),
             d_claims := foldl (\<lambda>claims h. claim_push h (row_subject row) claims)
                           (d_claims d) (row_handles row) \<rparr>
      | Inl reason \<Rightarrow>
          d\<lparr> d_errors := d_errors d @ [\<lparr> re_key = display_name cm, re_reason = reason \<rparr>] \<rparr>)"

definition conflict_error :: "string \<times> string \<Rightarrow> string list \<Rightarrow> row_error" where
  "conflict_error k subjects =
     (case k of (channel, handle) \<Rightarrow>
        \<lparr> re_key = ''handle.'' @ channel @ ''.'' @ handle,
          re_reason = ''handle \"'' @ handle @ ''\" on channel \"'' @ channel
            @ ''\" is claimed by multiple subjects: '' @ join '', '' subjects \<rparr>)"

definition resolve_claims ::
  "((string \<times> string) \<times> string list) list \<Rightarrow> (string \<times> string \<rightharpoonup> string) \<times> row_error list" where
  "resolve_claims claims =
     foldl (\<lambda>(hs, errors) (k, subjects).
        if length subjects = 1 then (hs(k \<mapsto> subjects ! 0), errors)
        else (hs, errors @ [conflict_error k subjects])) (Map.empty, []) claims"

definition apply_delivery :: "configmap list \<Rightarrow> identity_table \<times> row_error list" where
  "apply_delivery cms =
     (let d = foldl delivery_step \<lparr> d_by_subject = Map.empty, d_claims = [], d_errors = [] \<rparr> cms;
          (hs, errors) = resolve_claims (d_claims d)
      in (\<lparr> by_subject = d_by_subject d, handles = hs \<rparr>, d_errors d @ errors))"

section \<open>The identity watcher\<close>

text \<open>The merge closure of \<^verbatim>\<open>watch_identities\<close>, without the event publication it spawns.\<close>

definition identity_merge :: "identity_table merge" where
  "identity_merge cms =
     (case apply_delivery (map snd cms) of (parsed, errors) \<Rightarrow>
        (parsed, map (\<lambda>e. re_key e @ '': '' @ re_reason e) errors))"

definition watch_identities ::
  "(string + watch_event) list \<Rightarrow> identity_table \<times> bool \<Rightarrow> (string + unit) \<times> identity_table \<times> bool" where
  "watch_identities evs tr = watch_configmaps identity_merge ''identity'' evs tr"

record object_reference =
  or_name :: "string option"
  or_namespace :: "string option"

record warning_event =
  we_reason :: string
  we_action :: string
  we_note :: "string option"

text \<open>
  \<^verbatim>\<open>publish_row_errors\<close>; \<open>object_ref\<close> and \<open>publish\<close> are the kube client's.
\<close>

definition row_event :: "row_error \<Rightarrow> warning_event" where
  "row_event err =
     \<lparr> we_reason = ''InvalidIdentityRow'', we_action = ''ValidateRow:'' @ re_key err,
       we_note = Some (''identity row \"'' @ re_key err
         @ ''\" rejected and treated as absent: '' @ re_reason err) \<rparr>"

definition row_reference ::
  "(configmap \<Rightarrow> object_reference) \<Rightarrow> string \<Rightarrow> configmap list \<Rightarrow> row_error \<Rightarrow> object_reference" where
  "row_reference object_ref namespace cms err =
     (let regarding = (case find (\<lambda>cm. cm_name cm = Some (re_key err)) cms of
                         Some cm \<Rightarrow> Some cm
                       | None \<Rightarrow> (case cms of [] \<Rightarrow> None | cm # _ \<Rightarrow> Some cm));
          reference = (case regarding of
                         Some cm \<Rightarrow> object_ref cm
                       | None \<Rightarrow> \<lparr> or_name = None, or_namespace = None \<rparr>)
      in if or_namespace reference = None then reference\<lparr> or_namespace := Some namespace \<rparr>
         else reference)"

fun publish_row_errors ::
  "(configmap \<Rightarrow> object_reference) \<Rightarrow> (warning_event \<Rightarrow> object_reference \<Rightarrow> 's \<Rightarrow> (string + unit) \<times> 's)
   \<Rightarrow> string \<Rightarrow> configmap list \<Rightarrow> row_error list \<Rightarrow> 's \<Rightarrow> (string + unit) \<times> 's" where
  "publish_row_errors object_ref publish namespace cms [] s = (Inr (), s)"
| "publish_row_errors object_ref publish namespace cms (err # errors) s =
     (case publish (row_event err) (row_reference object_ref namespace cms err) s of
        (Inl e, s') \<Rightarrow> (Inl (''publishing Warning Event for row '' @ re_key err @ '': '' @ e), s')
      | (Inr _, s') \<Rightarrow> publish_row_errors object_ref publish namespace cms errors s')"

section \<open>The grants table\<close>

text \<open>
  A YAML value is a string or something else of an unspecified type; \<open>from_value\<close>
  reads a \<^verbatim>\<open>RawGrantedEntry\<close> and \<open>from_str\<close> the bindings block.
\<close>

datatype 'y yaml_value = Yaml_String string | Yaml_Other 'y

datatype 'y binding_entry = Bare | Granted string "(string \<times> 'y) list"

definition deserialize_entry ::
  "('y \<Rightarrow> string + string \<times> (string \<times> 'y) list) \<Rightarrow> 'y yaml_value \<Rightarrow> string + 'y binding_entry" where
  "deserialize_entry from_value v =
     (case v of
        Yaml_String _ \<Rightarrow> Inr Bare
      | Yaml_Other other \<Rightarrow>
          and_then (from_value other) (\<lambda>(name, grants). Inr (Granted name grants)))"

type_synonym capability_grants = "string \<rightharpoonup> (string \<times> string list) list"

definition binding_grants :: "'y binding_entry \<Rightarrow> (string \<times> string list) option" where
  "binding_grants entry =
     (case entry of
        Bare \<Rightarrow> None
      | Granted name grants \<Rightarrow> if grants = [] then None else Some (name, map fst grants))"

definition parse_grants ::
  "(string \<Rightarrow> string + (string \<rightharpoonup> 'y binding_entry list)) \<Rightarrow> string \<Rightarrow> string + capability_grants" where
  "parse_grants from_str yaml =
     and_then (map_err (\<lambda>e. ''parse bindings: '' @ e) (from_str yaml)) (\<lambda>parsed.
       Inr (\<lambda>workspace. map_option (List.map_filter binding_grants) (parsed workspace)))"

definition merge_grants ::
  "(string \<Rightarrow> string + (string \<rightharpoonup> 'y binding_entry list)) \<Rightarrow> configmap list
   \<Rightarrow> capability_grants \<times> string list" where
  "merge_grants from_str cms = merge_configmaps ''grants.yaml'' (parse_grants from_str) cms"

definition for_workspace :: "capability_grants \<Rightarrow> string \<Rightarrow> (string \<times> string list) list" where
  "for_workspace g workspace = (case g workspace of Some ts \<Rightarrow> ts | None \<Rightarrow> [])"

section \<open>Handle claims\<close>

text \<open>The subjects that claim a handle, in delivery order.\<close>

definition row_claims :: "subject_row \<Rightarrow> string \<times> string \<Rightarrow> string list" where
  "row_claims row k = map (\<lambda>_. row_subject row) (filter (\<lambda>h. h = k) (row_handles row))"

definition cm_claims :: "configmap \<Rightarrow> string \<times> string \<Rightarrow> string list" where
  "cm_claims cm k = (case parse_cm cm of Inr row \<Rightarrow> row_claims row k | Inl _ \<Rightarrow> [])"

definition claimants :: "configmap list \<Rightarrow> string \<times> string \<Rightarrow> string list" where
  "claimants cms k = concat (map (\<lambda>cm. cm_claims cm k) cms)"

definition claims_wf :: "('k \<times> 'v list) list \<Rightarrow> bool" where
  "claims_wf claims \<longleftrightarrow> distinct (map fst claims) \<and> (\<forall>(k, ss) \<in> set claims. ss \<noteq> [])"

definition claims_of :: "('k \<times> 'v list) list \<Rightarrow> 'k \<Rightarrow> 'v list" where
  "claims_of claims k = (case map_of claims k of Some ss \<Rightarrow> ss | None \<Rightarrow> [])"

lemma claim_push_keys: "fst ` set (claim_push k s claims) = insert k (fst ` set claims)"
  by (induction k s claims rule: claim_push.induct) auto

lemma claim_push_wf: "claims_wf claims \<Longrightarrow> claims_wf (claim_push k s claims)"
proof (induction k s claims rule: claim_push.induct)
  case (2 k s k' ss claims)
  then show ?case
    using claim_push_keys [of k s claims] by (auto simp: claims_wf_def)
qed (simp add: claims_wf_def)

lemma claims_of_push:
  "claims_of (claim_push k s claims) k' = (if k' = k then claims_of claims k @ [s] else claims_of claims k')"
  by (induction k s claims rule: claim_push.induct) (auto simp: claims_of_def)

lemma claims_foldl:
  assumes "claims_wf claims"
  shows "claims_wf (foldl (\<lambda>c h. claim_push h s c) claims hs)"
    and "claims_of (foldl (\<lambda>c h. claim_push h s c) claims hs) k
         = claims_of claims k @ map (\<lambda>_. s) (filter (\<lambda>h. h = k) hs)"
  using assms by (induction hs arbitrary: claims) (auto simp: claim_push_wf claims_of_push)

lemma delivery_foldl:
  assumes "claims_wf (d_claims d)"
  shows "claims_wf (d_claims (foldl delivery_step d cms)) \<and>
    claims_of (d_claims (foldl delivery_step d cms)) k = claims_of (d_claims d) k @ claimants cms k"
  using assms
proof (induction cms arbitrary: d)
  case (Cons cm cms)
  have wf: "claims_wf (d_claims (delivery_step d cm))"
    using Cons.prems by (simp add: delivery_step_def claims_foldl split: sum.splits)
  have step: "claims_of (d_claims (delivery_step d cm)) k = claims_of (d_claims d) k @ cm_claims cm k"
    using Cons.prems
    by (simp add: delivery_step_def claims_foldl cm_claims_def row_claims_def split: sum.splits)
  show ?case using Cons.IH [OF wf] step by (simp add: claimants_def)
qed (simp add: claimants_def)

lemma resolve_claims_lookup:
  assumes "distinct (map fst claims)"
  shows "fst (resolve_claims claims) k =
    (case map_of claims k of Some ss \<Rightarrow> if length ss = 1 then Some (ss ! 0) else None | None \<Rightarrow> None)"
proof -
  have "fst (foldl (\<lambda>(hs, errors) (k, subjects).
        if length subjects = 1 then (hs(k \<mapsto> subjects ! 0), errors)
        else (hs, errors @ [conflict_error k subjects])) acc claims) k =
    (case map_of claims k of Some ss \<Rightarrow> if length ss = 1 then Some (ss ! 0) else fst acc k | None \<Rightarrow> fst acc k)"
    for acc
    using assms
  proof (induction claims arbitrary: acc)
    case (Cons c claims)
    obtain k' ss where c: "c = (k', ss)" by (cases c)
    then have "k' \<notin> dom (map_of claims)"
      using Cons.prems by (simp add: dom_map_of_conv_image_fst)
    then have none: "map_of claims k' = None" by blast
    show ?case
      using Cons.IH Cons.prems none
      by (auto simp: c case_prod_beta split: option.splits)
  qed simp
  then show ?thesis by (simp add: resolve_claims_def split: option.splits)
qed

definition handle_of :: "configmap list \<Rightarrow> string \<times> string \<Rightarrow> string option" where
  "handle_of cms k = (case claimants cms k of [s] \<Rightarrow> Some s | _ \<Rightarrow> None)"

lemma handles_apply_delivery:
  "handles (fst (apply_delivery cms)) k = handle_of cms k"
proof -
  let ?d = "foldl delivery_step \<lparr> d_by_subject = Map.empty, d_claims = [], d_errors = [] \<rparr> cms"
  have wf: "claims_wf (d_claims ?d)" and claims: "claims_of (d_claims ?d) k = claimants cms k"
    using delivery_foldl [of "\<lparr> d_by_subject = Map.empty, d_claims = [], d_errors = [] \<rparr>" cms]
    by (simp_all add: claims_wf_def claims_of_def)
  have "fst (resolve_claims (d_claims ?d)) k = handle_of cms k"
  proof (cases "map_of (d_claims ?d) k")
    case None
    with claims wf show ?thesis
      by (simp add: resolve_claims_lookup claims_wf_def claims_of_def handle_of_def)
  next
    case (Some ss)
    with claims have "claimants cms k = ss" by (simp add: claims_of_def)
    with Some wf show ?thesis
      by (cases ss rule: list.exhaust; cases "tl ss")
        (auto simp: resolve_claims_lookup claims_wf_def handle_of_def)
  qed
  then show ?thesis by (simp add: apply_delivery_def Let_def case_prod_beta)
qed

text \<open>
  C26. A platform handle resolves to a subject exactly when one single claim of the
  delivery binds it and that claim is the subject's: a handle bound twice, or only
  by a ConfigMap that does not parse, resolves to nobody.
\<close>

theorem resolve_handle_iff_sole_claim:
  "resolve_handle (fst (apply_delivery cms)) channel handle = Some subject \<longleftrightarrow>
   claimants cms (channel, handle) = [subject]"
  by (auto simp: resolve_handle_def handles_apply_delivery handle_of_def split: list.splits)

text \<open>The workspace list of a subject is that of the last ConfigMap that names it.\<close>

definition last_row_of :: "configmap list \<Rightarrow> string \<Rightarrow> subject_row option" where
  "last_row_of cms subject =
     (case filter (\<lambda>row. row_subject row = subject)
             (List.map_filter (\<lambda>cm. case parse_cm cm of Inr row \<Rightarrow> Some row | Inl _ \<Rightarrow> None) cms) of
        [] \<Rightarrow> None | rows \<Rightarrow> Some (last rows))"

lemma by_subject_foldl:
  "d_by_subject (foldl delivery_step d cms) subject =
     (case last_row_of cms subject of Some row \<Rightarrow> Some (row_workspaces row) | None \<Rightarrow> d_by_subject d subject)"
proof (induction cms arbitrary: d)
  case (Cons cm cms)
  then show ?case
    by (auto simp: delivery_step_def last_row_of_def split: sum.splits list.splits)
qed (simp add: last_row_of_def)

lemma by_subject_apply_delivery:
  "by_subject (fst (apply_delivery cms)) subject = map_option row_workspaces (last_row_of cms subject)"
  using by_subject_foldl [of "\<lparr> d_by_subject = Map.empty, d_claims = [], d_errors = [] \<rparr>" cms subject]
  by (simp add: apply_delivery_def Let_def case_prod_beta split: option.splits)

text \<open>
  A subject reaches exactly the workspaces that the last ConfigMap that parses
  and names it lists, and none when there is no such ConfigMap: a subject whose
  ConfigMap is deleted or broken is revoked.
\<close>

theorem workspaces_for_delivery:
  "workspaces_for (fst (apply_delivery cms)) subject =
     (case last_row_of cms subject of Some row \<Rightarrow> row_workspaces row | None \<Rightarrow> [])"
  by (simp add: workspaces_for_def by_subject_apply_delivery split: option.splits)

section \<open>Rejected rows\<close>

lemma parse_fails_absent:
  assumes "isl (parse_cm cm)"
  shows "by_subject (fst (apply_delivery (xs @ cm # ys))) = by_subject (fst (apply_delivery (xs @ ys)))"
    and "handles (fst (apply_delivery (xs @ cm # ys))) = handles (fst (apply_delivery (xs @ ys)))"
proof -
  have "claimants (xs @ cm # ys) k = claimants (xs @ ys) k" for k
    using assms by (auto simp: claimants_def cm_claims_def split: sum.splits)
  then show "handles (fst (apply_delivery (xs @ cm # ys))) = handles (fst (apply_delivery (xs @ ys)))"
    by (auto simp: handles_apply_delivery handle_of_def)
  have "last_row_of (xs @ cm # ys) s = last_row_of (xs @ ys) s" for s
    using assms by (auto simp: last_row_of_def split: sum.splits)
  then show "by_subject (fst (apply_delivery (xs @ cm # ys))) = by_subject (fst (apply_delivery (xs @ ys)))"
    by (simp add: by_subject_apply_delivery fun_eq_iff)
qed

interpretation identity: fault_isolated_merge identity_merge "\<lambda>cm. \<not> isl (parse_cm cm)"
proof
  fix cm :: configmap and xs ys :: "(string \<times> configmap) list" and k
  assume "\<not> \<not> isl (parse_cm cm)"
  then show "fst (identity_merge (xs @ (k, cm) # ys)) = fst (identity_merge (xs @ ys))"
    using parse_fails_absent [of cm "map snd xs" "map snd ys"]
    by (simp add: identity_merge_def case_prod_beta identity_table.equality)
qed

text \<open>
  Invalid is absent: delivering an identity ConfigMap that does not parse has
  the effect on the live table of deleting it, so a broken edit revokes what it
  held and leaves every other subject untouched.
\<close>

theorem broken_identity_is_revoked:
  assumes "watch_invar w" "isl (parse_cm cm)"
  shows "table (watch_step identity_merge (Apply cm) w) = table (watch_step identity_merge (Delete cm) w)"
  using identity.broken_apply_is_delete assms by simp

theorem broken_identity_is_revoked_witness:
  "let cm = \<lparr> cm_name = Some ''a'', cm_labels = None, cm_data = Some [(''workspaces'', ''w'')] \<rparr>;
       good = \<lparr> cm_name = Some ''a'', cm_labels = None,
                cm_data = Some [(''subject'', ''ann''), (''workspaces'', ''w'')] \<rparr>;
       w = watch_step identity_merge (Apply good)
             (watch_init (\<lparr> by_subject = Map.empty, handles = Map.empty \<rparr>, True))
   in workspaces_for (table w) ''ann'' = [''w''] \<and>
      workspaces_for (table (watch_step identity_merge (Apply cm) w)) ''ann'' = []"
proof -
  let ?cm = "\<lparr> cm_name = Some ''a'', cm_labels = None, cm_data = Some [(''workspaces'', ''w'')] \<rparr>"
  let ?good = "\<lparr> cm_name = Some ''a'', cm_labels = None,
                cm_data = Some [(''subject'', ''ann''), (''workspaces'', ''w'')] \<rparr>"
  let ?w = "watch_step identity_merge (Apply ?good)
             (watch_init (\<lparr> by_subject = Map.empty, handles = Map.empty \<rparr>, True))"
  have bad: "isl (parse_cm ?cm)" by code_simp
  have inv: "watch_invar ?w" by (intro watch_step_invar watch_init_invar)
  have good: "workspaces_for (table ?w) ''ann'' = [''w'']" by code_simp
  have "workspaces_for (table (watch_step identity_merge (Delete ?cm) ?w)) ''ann'' = []" by code_simp
  with good broken_identity_is_revoked [OF inv bad] show ?thesis by (simp add: Let_def)
qed

end
