(* ===== verification/Toolset_Config.thy ===== *)
theory Toolset_Config
  imports Watcher
begin

text \<open>
  The operator-authored tables of a workspace: toolsets, \<^verbatim>\<open>shared/src/toolset.rs\<close>,
  and models, \<^verbatim>\<open>harness/src/model_config.rs\<close>, both read from the flat data of
  labelled ConfigMaps, with the validation of a model's tool-call arguments and the
  derivation of a Kubernetes name from a tool name.
\<close>

section \<open>Capability grants\<close>

record capability_grant =
  cg_secret :: string
  cg_path :: "string option"
  cg_egress :: "string option"

definition WORKSPACE_MOUNT_PATH :: string where
  "WORKSPACE_MOUNT_PATH = ''/workspace''"

definition SA_TOKEN_MOUNT_PATH :: string where
  "SA_TOKEN_MOUNT_PATH = ''/var/run/secrets/kubernetes.io/serviceaccount''"

definition DISPATCH_MOUNT_PATH :: string where
  "DISPATCH_MOUNT_PATH = ''/etc/toolset''"

definition reserved_path :: "string \<Rightarrow> bool" where
  "reserved_path path \<longleftrightarrow>
     path = SA_TOKEN_MOUNT_PATH \<or> path = DISPATCH_MOUNT_PATH
     \<or> starts_with path (DISPATCH_MOUNT_PATH @ ''/'') \<or> path = WORKSPACE_MOUNT_PATH"

text \<open>\<^verbatim>\<open>CapabilityGrant::try_from(RawGrant)\<close>; the raw grant has the same three fields.\<close>

definition grant_try_from :: "capability_grant \<Rightarrow> string + capability_grant" where
  "grant_try_from raw =
     (if cg_secret raw = [] then
        Inl ''a grant names exactly one Secret, so `secret` must not be empty''
      else
        (case cg_path raw of
           None \<Rightarrow> Inr raw
         | Some path \<Rightarrow>
             if \<not> starts_with path ''/'' then
               Inl (''grant `path` must be an absolute mount target, got '' @ debug_str path)
             else if reserved_path path then
               Inl (''grant `path` '' @ path @ '' is a reserved mount the tool job already depends on'')
             else Inr raw))"

section \<open>Toolset entries\<close>

datatype arg_type = ArgType_String | ArgType_Integer | ArgType_Number | ArgType_Boolean

fun as_schema_str :: "arg_type \<Rightarrow> string" where
  "as_schema_str ArgType_String = ''string''"
| "as_schema_str ArgType_Integer = ''integer''"
| "as_schema_str ArgType_Number = ''number''"
| "as_schema_str ArgType_Boolean = ''boolean''"

definition from_schema_str :: "string \<Rightarrow> arg_type option" where
  "from_schema_str s =
     (if s = ''string'' then Some ArgType_String
      else if s = ''integer'' then Some ArgType_Integer
      else if s = ''number'' then Some ArgType_Number
      else if s = ''boolean'' then Some ArgType_Boolean
      else None)"

record arg_decl =
  ad_name :: string
  ad_ty :: arg_type
  ad_required :: bool
  ad_env :: string
  ad_description :: "string option"

record tool_decl =
  tl_name :: string
  tl_description :: string
  tl_args :: "arg_decl list"

record toolset_entry =
  te_image :: "string option"
  te_keepalive :: bool
  te_deadline_seconds :: "int option"
  te_env :: "(string \<times> string) list"
  te_tools :: "tool_decl list"

type_synonym toolset_config = "string \<rightharpoonup> toolset_entry"

text \<open>
  \<^verbatim>\<open>ToolDecl::parameters_json\<close> as a JSON value; objects list their keys in order.
\<close>

definition arg_property :: "arg_decl \<Rightarrow> json" where
  "arg_property a =
     JObject (case ad_description a of
        None \<Rightarrow> [(''type'', JString (as_schema_str (ad_ty a)))]
      | Some d \<Rightarrow> [(''description'', JString d), (''type'', JString (as_schema_str (ad_ty a)))])"

definition parameters_json :: "tool_decl \<Rightarrow> json" where
  "parameters_json t =
     JObject
       [(''additionalProperties'', JBool False),
        (''properties'',
          JObject (foldl (\<lambda>m a. bt_insert (ad_name a) (arg_property a) m) [] (tl_args t))),
        (''required'', JArray (map (\<lambda>a. JString (ad_name a)) (filter ad_required (tl_args t)))),
        (''type'', JString ''object'')]"

text \<open>
  The accumulator of \<^verbatim>\<open>from_data\<close>: the entry under construction and, per tool, its
  description and its arguments' attributes.
\<close>

type_synonym arg_fields = "(string \<times> (string \<times> string) list) list"

record from_data_state =
  fd_entry :: toolset_entry
  fd_tools :: "(string \<times> string \<times> arg_fields) list"

definition default_entry :: toolset_entry where
  "default_entry = \<lparr> te_image = None, te_keepalive = False, te_deadline_seconds = None,
     te_env = [], te_tools = [] \<rparr>"

text \<open>\<^verbatim>\<open>map.entry(k).or_default()\<close> with an update of the slot.\<close>

definition bt_entry :: "'k::linorder \<Rightarrow> 'v \<Rightarrow> ('v \<Rightarrow> 'v) \<Rightarrow> ('k \<times> 'v) list \<Rightarrow> ('k \<times> 'v) list" where
  "bt_entry k d f m = bt_insert k (f (case map_of m k of Some v \<Rightarrow> v | None \<Rightarrow> d)) m"

definition tool_key ::
  "string \<Rightarrow> string \<Rightarrow> (string \<times> string \<times> arg_fields) list
   \<Rightarrow> string + (string \<times> string \<times> arg_fields) list" where
  "tool_key k value tools =
     (let unknown = ''unknown key '' @ k in
      and_then (ok_or unknown (strip_prefix ''tool.'' k)) (\<lambda>rest.
      and_then (ok_or unknown (split_once (CHR ''.'') rest)) (\<lambda>(tool, field).
      if field = ''description'' then
        Inr (bt_entry tool ([], []) (\<lambda>(d, a). (value, a)) tools)
      else
        and_then (ok_or unknown (Option.bind (strip_prefix ''arg.'' field) (split_once (CHR ''.''))))
          (\<lambda>(arg, attr).
             Inr (bt_entry tool ([], [])
               (\<lambda>(d, a). (d, bt_entry arg [] (bt_insert attr value) a)) tools)))))"

definition from_data_key :: "string \<times> string \<Rightarrow> from_data_state \<Rightarrow> string + from_data_state" where
  "from_data_key kv st =
     (case kv of (k, value) \<Rightarrow>
        let entry = fd_entry st in
        if k = ''image'' then Inr (st\<lparr> fd_entry := entry\<lparr> te_image := Some value \<rparr> \<rparr>)
        else if k = ''keepalive'' then
          Inr (st\<lparr> fd_entry := entry\<lparr> te_keepalive := (value = ''true'') \<rparr> \<rparr>)
        else if k = ''deadlineSeconds'' then
          (case parse_i64 value of
             None \<Rightarrow> Inl (''deadlineSeconds '' @ debug_str value @ '' is not a number'')
           | Some n \<Rightarrow> Inr (st\<lparr> fd_entry := entry\<lparr> te_deadline_seconds := Some n \<rparr> \<rparr>))
        else
          (case strip_prefix ''env.'' k of
             Some name \<Rightarrow>
               Inr (st\<lparr> fd_entry := entry\<lparr> te_env := bt_insert name value (te_env entry) \<rparr> \<rparr>)
           | None \<Rightarrow>
               and_then (tool_key k value (fd_tools st)) (\<lambda>tools. Inr (st\<lparr> fd_tools := tools \<rparr>))))"

fun from_data_keys :: "(string \<times> string) list \<Rightarrow> from_data_state \<Rightarrow> string + from_data_state" where
  "from_data_keys [] st = Inr st"
| "from_data_keys (kv # data) st = and_then (from_data_key kv st) (from_data_keys data)"

definition arg_field :: "string \<Rightarrow> string \<Rightarrow> (string \<times> string) list \<Rightarrow> string \<Rightarrow> string + string" where
  "arg_field name arg attrs attr =
     ok_or (''tool.'' @ name @ ''.arg.'' @ arg @ ''.'' @ attr @ '' is missing'') (map_of attrs attr)"

definition build_arg :: "string \<Rightarrow> string \<times> (string \<times> string) list \<Rightarrow> string + arg_decl" where
  "build_arg name aa =
     (case aa of (arg, attrs) \<Rightarrow>
        and_then (arg_field name arg attrs ''type'') (\<lambda>ty.
        and_then (ok_or (''tool.'' @ name @ ''.arg.'' @ arg @ ''.type '' @ debug_str ty @ '' is unknown'')
                    (from_schema_str ty)) (\<lambda>aty.
        and_then (arg_field name arg attrs ''env'') (\<lambda>env.
        Inr \<lparr> ad_name = arg, ad_ty = aty, ad_required = (map_of attrs ''required'' = Some ''true''),
              ad_env = env, ad_description = map_of attrs ''description'' \<rparr>))))"

text \<open>\<^verbatim>\<open>.collect::<Result<_, _>>()\<close>: the first error, or all the values.\<close>

fun collect_results :: "('e + 'a) list \<Rightarrow> 'e + 'a list" where
  "collect_results [] = Inr []"
| "collect_results (r # rs) = and_then r (\<lambda>v. and_then (collect_results rs) (\<lambda>vs. Inr (v # vs)))"

definition build_tool :: "string \<times> string \<times> arg_fields \<Rightarrow> string + tool_decl" where
  "build_tool t =
     (case t of (name, description, args) \<Rightarrow>
        and_then (collect_results (map (build_arg name) args)) (\<lambda>as.
        Inr \<lparr> tl_name = name, tl_description = description, tl_args = as \<rparr>))"

definition from_data :: "(string \<times> string) list \<Rightarrow> string + toolset_entry" where
  "from_data data =
     and_then (from_data_keys data \<lparr> fd_entry = default_entry, fd_tools = [] \<rparr>) (\<lambda>st.
     and_then (collect_results (map build_tool (fd_tools st))) (\<lambda>tools.
     Inr ((fd_entry st)\<lparr> te_tools := tools \<rparr>)))"

definition merge_toolsets :: "configmap list \<Rightarrow> toolset_config \<times> string list" where
  "merge_toolsets cms = merge_labelled from_data cms"

text \<open>\<^verbatim>\<open>forwarded_env\<close> sorts the pairs; the keys are distinct, so key order is pair order.\<close>

definition forwarded_env :: "toolset_entry \<Rightarrow> (string \<times> string) list" where
  "forwarded_env entry = sort_key fst (te_env entry)"

section \<open>Argument validation\<close>

datatype arg_validation_error = NotJson string | NotObject | UnknownField string string
  | MissingRequired string | WrongType string string

definition arg_string :: "arg_type \<Rightarrow> json \<Rightarrow> string option" where
  "arg_string ty value =
     (case (ty, value) of
        (ArgType_String, JString s) \<Rightarrow> Some s
      | (ArgType_Integer, JNumber is_int n) \<Rightarrow> if is_int then Some n else None
      | (ArgType_Number, JNumber is_int n) \<Rightarrow> Some n
      | (ArgType_Boolean, JBool b) \<Rightarrow> Some (if b then ''true'' else ''false'')
      | _ \<Rightarrow> None)"

fun validate_args ::
  "(string \<times> json) list \<Rightarrow> arg_decl list \<Rightarrow> (string \<rightharpoonup> string) \<Rightarrow> arg_validation_error + (string \<rightharpoonup> string)" where
  "validate_args obj [] env_map = Inr env_map"
| "validate_args obj (arg # args) env_map =
     (case map_of obj (ad_name arg) of
        None \<Rightarrow>
          if ad_required arg then Inl (MissingRequired (ad_name arg))
          else validate_args obj args env_map
      | Some value \<Rightarrow>
          (case arg_string (ad_ty arg) value of
             None \<Rightarrow> Inl (WrongType (ad_name arg) (as_schema_str (ad_ty arg)))
           | Some str_val \<Rightarrow> validate_args obj args (env_map(ad_env arg \<mapsto> str_val))))"

definition declared_debug :: "arg_decl list \<Rightarrow> string" where
  "declared_debug args =
     ''{'' @ join '', '' (map debug_str (remdups (map ad_name args))) @ ''}''"

definition validate_call_input ::
  "(string \<Rightarrow> string + json) \<Rightarrow> string \<Rightarrow> arg_decl list \<Rightarrow> arg_validation_error + (string \<rightharpoonup> string)" where
  "validate_call_input parse input_json args =
     and_then (map_err NotJson (parse input_json)) (\<lambda>parsed.
       case parsed of
         JObject obj \<Rightarrow>
           (case find (\<lambda>k. k \<notin> set (map ad_name args)) (map fst obj) of
              Some k \<Rightarrow> Inl (UnknownField k (declared_debug args))
            | None \<Rightarrow> validate_args obj args Map.empty)
       | _ \<Rightarrow> Inl NotObject)"

section \<open>Kubernetes name segments\<close>

definition is_ascii_uppercase :: "char \<Rightarrow> bool" where
  "is_ascii_uppercase c \<longleftrightarrow> 65 \<le> (of_char c :: nat) \<and> (of_char c :: nat) \<le> 90"

definition is_ascii_lowercase :: "char \<Rightarrow> bool" where
  "is_ascii_lowercase c \<longleftrightarrow> 97 \<le> (of_char c :: nat) \<and> (of_char c :: nat) \<le> 122"

definition to_ascii_lowercase :: "char \<Rightarrow> char" where
  "to_ascii_lowercase c = (if is_ascii_uppercase c then char_of (of_char c + 32 :: nat) else c)"

text \<open>\<^verbatim>\<open>out.push(b as char)\<close>: a byte above 127 becomes a two-byte character.\<close>

definition byte_as_char :: "char \<Rightarrow> string" where
  "byte_as_char b =
     (if (of_char b :: nat) < 128 then [b]
      else [char_of (192 + of_char b div 64 :: nat), char_of (128 + of_char b mod 64 :: nat)])"

text \<open>
  The loop over the bytes: \<open>prev\<close> is \<^verbatim>\<open>bytes[i - 1]\<close>, the head of the rest \<^verbatim>\<open>bytes[i + 1]\<close>.
\<close>

fun k8s_segment_loop :: "char option \<Rightarrow> string \<Rightarrow> string \<Rightarrow> string" where
  "k8s_segment_loop prev [] out = out"
| "k8s_segment_loop prev (b # bytes) out =
     (if b = CHR ''_'' then
        k8s_segment_loop (Some b) bytes (if ends_with out ''-'' then out else out @ ''-'')
      else if is_ascii_uppercase b then
        let prev_lower_or_digit =
              (case prev of Some p \<Rightarrow> is_ascii_lowercase p \<or> is_digit p | None \<Rightarrow> False);
            prev_upper = (case prev of Some p \<Rightarrow> is_ascii_uppercase p | None \<Rightarrow> False);
            next_lower = (case bytes of c # _ \<Rightarrow> is_ascii_lowercase c | [] \<Rightarrow> False);
            out' = (if \<not> ends_with out ''-'' \<and> (prev_lower_or_digit \<or> (prev_upper \<and> next_lower))
                    then out @ ''-'' else out)
        in k8s_segment_loop (Some b) bytes (out' @ [to_ascii_lowercase b])
      else k8s_segment_loop (Some b) bytes (out @ byte_as_char b))"

definition tool_name_to_k8s_segment :: "string \<Rightarrow> string" where
  "tool_name_to_k8s_segment name = trim_matches (CHR ''-'') (k8s_segment_loop None name [])"

section \<open>Models\<close>

datatype model_config = Local string string
  | Remote string string string string "string option"

fun model_format :: "model_config \<Rightarrow> string" where
  "model_format (Local fmt model) = fmt"
| "model_format (Remote fmt model base_url img secret) = fmt"

fun model_id :: "model_config \<Rightarrow> string" where
  "model_id (Local fmt model) = model"
| "model_id (Remote fmt model base_url img secret) = model"

definition model_field :: "(string \<times> string) list \<Rightarrow> string \<Rightarrow> string + string" where
  "model_field data k =
     ok_or (''missing '' @ k) (Option.bind (map_of data k) (\<lambda>v. if v = [] then None else Some v))"

definition model_from_data :: "(string \<times> string) list \<Rightarrow> string + model_config" where
  "model_from_data data =
     and_then (model_field data ''format'') (\<lambda>fmt.
     and_then (model_field data ''model'') (\<lambda>model.
     if map_of data ''server.image'' \<noteq> None then Inr (Local fmt model)
     else
       and_then (model_field data ''baseUrl'') (\<lambda>base_url.
       and_then (model_field data ''image'') (\<lambda>img.
       Inr (Remote fmt model base_url img
         (Option.bind (map_of data ''secret'') (\<lambda>v. if v = [] then None else Some v)))))))"

type_synonym model_table = "string \<rightharpoonup> model_config"

definition merge_models :: "configmap list \<Rightarrow> model_table \<times> string list" where
  "merge_models cms = merge_labelled model_from_data cms"

section \<open>Correctness of argument validation\<close>

definition input_ok :: "arg_decl list \<Rightarrow> (string \<times> json) list \<Rightarrow> bool" where
  "input_ok args obj \<longleftrightarrow>
     set (map fst obj) \<subseteq> set (map ad_name args) \<and>
     list_all (\<lambda>a. case map_of obj (ad_name a) of
         None \<Rightarrow> \<not> ad_required a
       | Some v \<Rightarrow> arg_string (ad_ty a) v \<noteq> None) args"

definition arg_pair :: "(string \<times> json) list \<Rightarrow> arg_decl \<Rightarrow> (string \<times> string) option" where
  "arg_pair obj a =
     Option.bind (map_of obj (ad_name a)) (\<lambda>v. map_option (Pair (ad_env a)) (arg_string (ad_ty a) v))"

definition env_of :: "arg_decl list \<Rightarrow> (string \<times> json) list \<Rightarrow> string \<rightharpoonup> string" where
  "env_of args obj = map_of (rev (List.map_filter (arg_pair obj) args))"

lemma validate_args_iff:
  "validate_args obj args env0 = Inr env \<longleftrightarrow>
     list_all (\<lambda>a. case map_of obj (ad_name a) of
         None \<Rightarrow> \<not> ad_required a | Some v \<Rightarrow> arg_string (ad_ty a) v \<noteq> None) args
     \<and> env = env0 ++ env_of args obj"
proof (induction obj args env0 rule: validate_args.induct)
  case (2 obj arg args env_map)
  show ?case
  proof (cases "map_of obj (ad_name arg)")
    case None
    with 2 show ?thesis by (simp add: env_of_def arg_pair_def)
  next
    case (Some v)
    show ?thesis
    proof (cases "arg_string (ad_ty arg) v")
      case (Some t)
      note IH = "2.IH"(2) [OF \<open>map_of obj (ad_name arg) = Some v\<close> Some]
      show ?thesis using \<open>map_of obj (ad_name arg) = Some v\<close> Some
        by (simp add: IH env_of_def arg_pair_def del: fun_upd_apply)
    qed (use Some in simp)
  qed
qed (auto simp: env_of_def)


text \<open>
  Only environment variables of declared arguments that the call provides are set,
  and without a clash of names each has the text of its argument.
\<close>

lemma env_of_dom:
  "dom (env_of args obj) \<subseteq> {ad_env a | a. a \<in> set args \<and> ad_name a \<in> fst ` set obj}"
proof
  fix x assume "x \<in> dom (env_of args obj)"
  then obtain v where "(x, v) \<in> set (List.map_filter (arg_pair obj) args)"
    unfolding env_of_def by (auto dest: map_of_SomeD)
  then obtain a where "a \<in> set args" "arg_pair obj a = Some (x, v)"
    by auto
  then show "x \<in> {ad_env a | a. a \<in> set args \<and> ad_name a \<in> fst ` set obj}"
    by (force simp: arg_pair_def result_simps dest: map_of_SomeD)
qed

lemma env_of_value:
  assumes "distinct (map ad_env args)" "a \<in> set args"
    and "map_of obj (ad_name a) = Some v" "arg_string (ad_ty a) v = Some t"
  shows "env_of args obj (ad_env a) = Some t"
proof -
  have keys: "fst ` set (List.map_filter (arg_pair obj) as) \<subseteq> ad_env ` set as" for as
    by (force simp: arg_pair_def result_simps)
  have "distinct (map fst (List.map_filter (arg_pair obj) args))"
    using assms(1)
  proof (induction args)
    case (Cons b bs)
    then have "ad_env b \<notin> fst ` set (List.map_filter (arg_pair obj) bs)"
      using keys [of bs] by auto
    moreover have "fst y = ad_env b" if "arg_pair obj b = Some y" for y
      using that by (auto simp: arg_pair_def result_simps)
    ultimately show ?case using Cons by (auto split: option.splits)
  qed simp
  moreover have "(ad_env a, t) \<in> set (List.map_filter (arg_pair obj) args)"
    using assms by (force simp: arg_pair_def)
  ultimately show ?thesis
    by (simp add: env_of_def rev_map [symmetric])
qed

section \<open>Correctness of the name segment\<close>

definition identifier_char :: "char \<Rightarrow> bool" where
  "identifier_char c \<longleftrightarrow> is_ascii_lowercase c \<or> is_ascii_uppercase c \<or> is_digit c \<or> c = CHR ''_''"

definition segment_char :: "char \<Rightarrow> bool" where
  "segment_char c \<longleftrightarrow> is_ascii_lowercase c \<or> is_digit c \<or> c = CHR ''-''"

definition rfc1123_label :: "string \<Rightarrow> bool" where
  "rfc1123_label s \<longleftrightarrow> list_all segment_char s \<and> s \<noteq> [] \<and> hd s \<noteq> CHR ''-'' \<and> last s \<noteq> CHR ''-''"

lemma to_ascii_lowercase_lower: "is_ascii_uppercase c \<Longrightarrow> is_ascii_lowercase (to_ascii_lowercase c)"
  by (auto simp: is_ascii_uppercase_def is_ascii_lowercase_def to_ascii_lowercase_def)

text \<open>
  One byte of an identifier appends segment characters, and one that is not a hyphen
  unless the byte is an underscore.
\<close>

lemma k8s_segment_step:
  assumes "identifier_char b"
  obtains p where "k8s_segment_loop prev (b # bytes) out = k8s_segment_loop (Some b) bytes (out @ p)"
    and "list_all segment_char p" and "b = CHR ''_'' \<or> (\<exists>c \<in> set p. c \<noteq> CHR ''-'')"
proof (cases "b = CHR ''_''")
  case True
  then show ?thesis
    using that [of "if ends_with out ''-'' then [] else ''-''"] by (simp add: segment_char_def)
next
  case b: False
  show ?thesis
  proof (cases "is_ascii_uppercase b")
    case True
    let ?d = "if \<not> ends_with out ''-'' \<and>
          ((case prev of Some p \<Rightarrow> is_ascii_lowercase p \<or> is_digit p | None \<Rightarrow> False) \<or>
           (case prev of Some p \<Rightarrow> is_ascii_uppercase p | None \<Rightarrow> False) \<and>
           (case bytes of c # _ \<Rightarrow> is_ascii_lowercase c | [] \<Rightarrow> False)) then ''-'' else []"
    have low: "is_ascii_lowercase (to_ascii_lowercase b)" using True by (rule to_ascii_lowercase_lower)
    have "k8s_segment_loop prev (b # bytes) out
        = k8s_segment_loop (Some b) bytes (out @ ?d @ [to_ascii_lowercase b])"
      using b True by (simp add: Let_def)
    moreover have "list_all segment_char (?d @ [to_ascii_lowercase b])"
      using low by (simp add: segment_char_def)
    moreover have "to_ascii_lowercase b \<noteq> CHR ''-''"
      using low by (auto simp: is_ascii_lowercase_def)
    ultimately show ?thesis using that by fastforce
  next
    case False
    with assms b have "byte_as_char b = [b]" "segment_char b" "b \<noteq> CHR ''-''"
      by (auto simp: byte_as_char_def identifier_char_def segment_char_def is_ascii_lowercase_def is_digit_def)
    with that [of "[b]"] b False show ?thesis by simp
  qed
qed

lemma k8s_segment_loop_chars:
  assumes "list_all identifier_char name"
  obtains r where "k8s_segment_loop prev name out = out @ r" and "list_all segment_char r"
    and "list_all (\<lambda>c. c = CHR ''_'') name \<or> (\<exists>c \<in> set r. c \<noteq> CHR ''-'')"
  using assms
proof (induction name arbitrary: prev out thesis)
  case (Cons b bytes)
  then have "identifier_char b" by simp
  then obtain p where p: "k8s_segment_loop prev (b # bytes) out = k8s_segment_loop (Some b) bytes (out @ p)"
    "list_all segment_char p" "b = CHR ''_'' \<or> (\<exists>c \<in> set p. c \<noteq> CHR ''-'')"
    using k8s_segment_step by metis
  obtain r where r: "k8s_segment_loop (Some b) bytes (out @ p) = (out @ p) @ r" "list_all segment_char r"
    "list_all (\<lambda>c. c = CHR ''_'') bytes \<or> (\<exists>c \<in> set r. c \<noteq> CHR ''-'')"
    using Cons.IH Cons.prems(2) by (metis list.pred_inject(2))
  from p r show ?case by (intro Cons.prems(1) [of "p @ r"]) (auto simp del: k8s_segment_loop.simps)
qed simp

text \<open>
  An identifier of ASCII letters, digits and underscores that is not all
  underscores becomes a name segment Kubernetes accepts: lower-case letters, digits
  and hyphens, with no hyphen at either end.
\<close>

theorem tool_name_to_k8s_segment_label:
  assumes "list_all identifier_char name" "\<exists>c \<in> set name. c \<noteq> CHR ''_''"
  shows "rfc1123_label (tool_name_to_k8s_segment name)"
proof -
  obtain r where r: "k8s_segment_loop None name [] = [] @ r" "list_all segment_char r"
    "list_all (\<lambda>c. c = CHR ''_'') name \<or> (\<exists>c \<in> set r. c \<noteq> CHR ''-'')"
    using k8s_segment_loop_chars [OF assms(1)] by metis
  then have seg: "tool_name_to_k8s_segment name = trim_matches (CHR ''-'') r"
    by (simp add: tool_name_to_k8s_segment_def)
  obtain c where "c \<in> set r" "c \<noteq> CHR ''-''"
    using r(3) assms(2) by (auto simp: list_all_iff)
  then have ne: "trim_matches (CHR ''-'') r \<noteq> []" by (rule trim_matches_nonempty)
  have "list_all segment_char (trim_matches (CHR ''-'') r)"
    using r(2) trim_matches_subset unfolding list_all_iff by blast
  with ne trim_matches_ends [OF ne] show ?thesis
    unfolding seg rfc1123_label_def by simp
qed

theorem tool_name_to_k8s_segment_label_witness:
  "list_all identifier_char ''XMLHttp_get2'' \<and>
   tool_name_to_k8s_segment ''XMLHttp_get2'' = ''xml-http-get2'' \<and>
   rfc1123_label (tool_name_to_k8s_segment ''XMLHttp_get2'')"
proof -
  have "list_all identifier_char ''XMLHttp_get2''" by code_simp
  moreover have "tool_name_to_k8s_segment ''XMLHttp_get2'' = ''xml-http-get2''" by code_simp
  ultimately show ?thesis
    using tool_name_to_k8s_segment_label [of "''XMLHttp_get2''"] by simp
qed

text \<open>Other bytes pass through: a tool named \<open>a.b\<close> keeps its dot.\<close>

lemma k8s_segment_passes_other_bytes: "tool_name_to_k8s_segment ''a.b'' = ''a.b''"
  by code_simp

section \<open>Correctness of the parsed entries\<close>

lemma schema_str_roundtrip [simp]: "from_schema_str (as_schema_str ty) = Some ty"
  by (cases ty) (simp_all add: from_schema_str_def)

lemma grant_try_from_ok:
  "grant_try_from raw = Inr g \<longleftrightarrow>
     g = raw \<and> cg_secret raw \<noteq> [] \<and>
     (case cg_path raw of None \<Rightarrow> True | Some p \<Rightarrow> prefix ''/'' p \<and> \<not> reserved_path p)"
  by (auto simp: grant_try_from_def split: option.splits if_splits)

lemma collect_results_Inr: "collect_results rs = Inr vs \<longleftrightarrow> rs = map Inr vs"
  by (induction rs arbitrary: vs) (auto simp: result_simps)

definition tools_wf :: "(string \<times> string \<times> arg_fields) list \<Rightarrow> bool" where
  "tools_wf tools \<longleftrightarrow> bt_wf tools \<and> (\<forall>(t, d, a) \<in> set tools. bt_wf a)"

lemma bt_entry_wf: "bt_wf m \<Longrightarrow> bt_wf (bt_entry k d f m)"
  by (simp add: bt_entry_def bt_wf_insert)

lemma set_bt_insert: "set (bt_insert k v m) \<subseteq> insert (k, v) (set m)"
  by (induction k v m rule: bt_insert.induct) auto

lemma bt_entry_slot:
  assumes "(k', v') \<in> set (bt_entry k d f m)" "\<And>k v. (k, v) \<in> set m \<Longrightarrow> P v" "P d"
    and "\<And>v. P v \<Longrightarrow> P (f v)"
  shows "P v'"
  using assms set_bt_insert [of k _ m]
  by (force simp: bt_entry_def split: option.splits dest: map_of_SomeD)

lemma tool_key_wf:
  assumes "tools_wf tools" "tool_key k value tools = Inr tools'"
  shows "tools_wf tools'"
proof -
  let ?P = "\<lambda>(d :: string, a :: arg_fields). bt_wf a"
  have slots: "\<And>t v. (t, v) \<in> set tools \<Longrightarrow> ?P v"
    using assms(1) by (auto simp: tools_wf_def)
  obtain tool field where branch: "(if field = ''description'' then
        Inr (bt_entry tool ([], []) (\<lambda>(d, a). (value, a)) tools)
      else
        and_then (ok_or (''unknown key '' @ k) (Option.bind (strip_prefix ''arg.'' field) (split_once (CHR ''.''))))
          (\<lambda>(arg, attr).
             Inr (bt_entry tool ([], [])
               (\<lambda>(d, a). (d, bt_entry arg [] (bt_insert attr value) a)) tools))) = Inr tools'"
    using assms(2) unfolding tool_key_def Let_def by (simp only: result_simps split_paired_Ex prod.case) blast
  consider d where "tools' = bt_entry tool ([], []) (\<lambda>(_, a). (d, a)) tools"
    | arg attr where
      "tools' = bt_entry tool ([], []) (\<lambda>(d, a). (d, bt_entry arg [] (bt_insert attr value) a)) tools"
  proof (cases "field = ''description''")
    case True
    with branch that(1) show ?thesis by auto
  next
    case False
    with branch that(2) show ?thesis by (auto simp: result_simps split: prod.splits)
  qed
  then show ?thesis
  proof cases
    case 1
    then have "?P v" if "(t, v) \<in> set tools'" for t v
      using bt_entry_slot [of t v tool "([], [])" "\<lambda>(_, a). (d, a)" tools ?P] that slots
      by (auto simp: bt_wf_def)
    with 1 assms(1) show ?thesis by (auto simp: tools_wf_def bt_entry_wf)
  next
    case 2
    then have "?P v" if "(t, v) \<in> set tools'" for t v
      using bt_entry_slot [of t v tool "([], [])"
          "\<lambda>(d, a). (d, bt_entry arg [] (bt_insert attr value) a)" tools ?P] that slots
      by (auto simp: bt_entry_wf bt_wf_def [of "[]"])
    with 2 assms(1) show ?thesis by (auto simp: tools_wf_def bt_entry_wf)
  qed
qed

lemma from_data_keys_wf:
  "from_data_keys data st = Inr st' \<Longrightarrow> tools_wf (fd_tools st) \<Longrightarrow> bt_wf (te_env (fd_entry st)) \<Longrightarrow>
   tools_wf (fd_tools st') \<and> bt_wf (te_env (fd_entry st'))"
proof (induction data arbitrary: st)
  case (Cons kv data)
  then obtain st1 where step: "from_data_key kv st = Inr st1" and rest: "from_data_keys data st1 = Inr st'"
    by (auto simp: result_simps)
  have "tools_wf (fd_tools st1) \<and> bt_wf (te_env (fd_entry st1))"
    using step Cons.prems
    by (auto simp: from_data_key_def Let_def result_simps bt_wf_insert
        split: prod.splits if_splits option.splits dest: tool_key_wf)
  with Cons.IH [OF rest] show ?case by simp
qed simp

lemma build_tool_name: "build_tool t = Inr d \<Longrightarrow> tl_name d = fst t"
  by (auto simp: build_tool_def result_simps split: prod.splits)

lemma build_tool_args: "build_tool (n, d, a) = Inr t \<Longrightarrow> map ad_name (tl_args t) = map fst a"
proof -
  assume "build_tool (n, d, a) = Inr t"
  then have "map (build_arg n) a = map Inr (tl_args t)"
    by (auto simp: build_tool_def result_simps collect_results_Inr)
  moreover have "ad_name x = fst aa" if "build_arg n aa = Inr x" for aa x
    using that by (auto simp: build_arg_def result_simps split: prod.splits)
  ultimately show ?thesis by (rule map_Inr_project)
qed



text \<open>A model that parses has no empty coordinate.\<close>

lemma model_from_data_ok:
  "model_from_data data = Inr m \<Longrightarrow>
   model_format m \<noteq> [] \<and> model_id m \<noteq> [] \<and>
   (case m of Local _ _ \<Rightarrow> True | Remote _ _ base_url img secret \<Rightarrow> base_url \<noteq> [] \<and> img \<noteq> [] \<and> secret \<noteq> Some [])"
  by (auto simp: model_from_data_def model_field_def result_simps split: if_splits model_config.splits)

end
