(* ===== verification/Line_File.thy ===== *)
theory Line_File
  imports Rust_Str
begin

text \<open>
  Append-only files of one record per line, the storage format the conversation log
  (\<^verbatim>\<open>harness/src/conversation.rs\<close>) and the execution log
  (\<^verbatim>\<open>harness/src/execution_log.rs\<close>) share: an append writes a line and its newline
  in one go, a read splits the text into lines and skips what does not decode. The
  locale states what an appended line promises a reader and is interpreted on the
  byte-level operations.
\<close>

section \<open>Files\<close>

text \<open>
  What the operating system does to a write: all of it, nothing, or a part that is
  not all of it before it fails.
\<close>

datatype io = Io_ok | Io_fail string | Io_torn nat string

fun append_file :: "io \<Rightarrow> string \<Rightarrow> string \<Rightarrow> (string + unit) \<times> string" where
  "append_file Io_ok line old = (Inr (), old @ line)"
| "append_file (Io_fail e) line old = (Inl e, old)"
| "append_file (Io_torn n e) line old = (Inl e, old @ take (min n (length line - 1)) line)"

definition append_line :: "io \<Rightarrow> string \<Rightarrow> string \<Rightarrow> (string + unit) \<times> string" where
  "append_line io line old = append_file io (line @ [newline]) old"

definition file_text :: "string option \<Rightarrow> string" where
  "file_text f = (case f of Some t \<Rightarrow> t | None \<Rightarrow> [])"

text \<open>The tolerant reader: blank lines and lines that do not decode are skipped.\<close>

definition parse_line :: "(string \<Rightarrow> string + 'a) \<Rightarrow> string \<Rightarrow> 'a option" where
  "parse_line de line =
     (if trim line = [] then None else (case de line of Inr v \<Rightarrow> Some v | Inl _ \<Rightarrow> None))"

definition parse_lines :: "(string \<Rightarrow> string + 'a) \<Rightarrow> string \<Rightarrow> 'a list" where
  "parse_lines de contents = List.map_filter (parse_line de) (lines contents)"

section \<open>The contract\<close>

locale line_file =
  fixes app :: "io \<Rightarrow> string \<Rightarrow> 'f \<Rightarrow> (string + unit) \<times> 'f"
    and read_lines :: "'f \<Rightarrow> string list"
    and intact :: "'f \<Rightarrow> bool"
  assumes append_ok: "intact f \<Longrightarrow> newline \<notin> set l \<Longrightarrow> app io l f = (Inr u, f') \<Longrightarrow>
      intact f' \<and> read_lines f' = read_lines f @ [strip_cr l]"
    and append_err: "intact f \<Longrightarrow> newline \<notin> set l \<Longrightarrow> app io l f = (Inl e, f') \<Longrightarrow> intact f' \<Longrightarrow>
      read_lines f' = read_lines f"
begin

text \<open>
  A file at a line boundary stays a faithful record of the appends that reported
  success, whatever happened to the ones that did not.
\<close>

lemma append_effect:
  assumes "intact f" "newline \<notin> set l" "app io l f = (r, f')" "intact f'"
  shows "read_lines f' = read_lines f @ (case r of Inr _ \<Rightarrow> [strip_cr l] | Inl _ \<Rightarrow> [])"
  using assms append_ok [of f l io _ f'] append_err [of f l io _ f'] by (cases r) auto

lemma append_decoded:
  assumes "intact f" "newline \<notin> set l" "strip_cr l = l" "trim l \<noteq> []" "de l = Inr v"
    and "app io l f = (r, f')" "intact f'"
  shows "List.map_filter (parse_line de) (read_lines f')
    = List.map_filter (parse_line de) (read_lines f) @ (case r of Inr _ \<Rightarrow> [v] | Inl _ \<Rightarrow> [])"
  using append_effect [OF assms(1,2,6,7)] assms(3-5)
  by (auto simp: parse_line_def split: sum.splits)

end

lemma torn_not_whole:
  "newline \<notin> set line \<Longrightarrow> whole_lines (old @ take n line) \<Longrightarrow> take n line = []"
proof (rule ccontr)
  assume "newline \<notin> set line" "whole_lines (old @ take n line)" and ne: "take n line \<noteq> []"
  then have "last (take n line) = newline" by (auto simp: whole_lines_def)
  with ne have "newline \<in> set (take n line)" using last_in_set by metis
  with \<open>newline \<notin> set line\<close> show False using in_set_takeD by metis
qed

interpretation lf: line_file append_line lines whole_lines
proof
  fix f l :: string and io u f'
  assume "whole_lines f" "newline \<notin> set l" "append_line io l f = (Inr u, f')"
  then show "whole_lines f' \<and> lines f' = lines f @ [strip_cr l]"
    by (cases io) (auto simp: append_line_def lines_append_line)
next
  fix f l :: string and io e f'
  assume f: "whole_lines f" "newline \<notin> set l" and ap: "append_line io l f = (Inl e, f')"
    and w: "whole_lines f'"
  show "lines f' = lines f"
  proof (cases io)
    case (Io_torn n e')
    then have f': "f' = f @ take (min n (length l)) l" using ap by (auto simp: append_line_def)
    then have "take (min n (length l)) l = []" using torn_not_whole [OF f(2)] w by simp
    then show ?thesis by (metis append_Nil2 f')
  qed (use ap in \<open>simp_all add: append_line_def\<close>)
qed

section \<open>Codecs\<close>

text \<open>
  Documented behaviour of the JSON encoder and decoder of a record type, on the
  records that are written: a record is encoded on one line that is not blank and does
  not end in a carriage return, and is decoded to itself.
\<close>

definition line_codec :: "'a set \<Rightarrow> ('a \<Rightarrow> string + string) \<Rightarrow> (string \<Rightarrow> string + 'a) \<Rightarrow> bool" where
  "line_codec V ser de \<longleftrightarrow>
     (\<forall>v \<in> V. \<exists>line. ser v = Inr line \<and> newline \<notin> set line \<and> strip_cr line = line
        \<and> trim line \<noteq> [] \<and> de line = Inr v)"

lemma line_codecE:
  assumes "line_codec V ser de" "v \<in> V"
  obtains line where "ser v = Inr line" "newline \<notin> set line" "strip_cr line = line"
    "trim line \<noteq> []" "de line = Inr v"
  using assms unfolding line_codec_def by blast

lemma parse_lines_append_line:
  assumes "line_codec V ser de" "v \<in> V" "ser v = Inr line" "whole_lines t"
    and "append_line io line t = (r, t')" "whole_lines t'"
  shows "parse_lines de t' = parse_lines de t @ (case r of Inr _ \<Rightarrow> [v] | Inl _ \<Rightarrow> [])"
proof -
  from assms(1,2) obtain l where "ser v = Inr l" "newline \<notin> set l" "strip_cr l = l"
    "trim l \<noteq> []" "de l = Inr v" by (rule line_codecE)
  with assms show ?thesis
    unfolding parse_lines_def by (intro lf.append_decoded) auto
qed

lemma append_line_whole:
  assumes "whole_lines t" "append_line io line t = (r, t')" "\<And>n e. io \<noteq> Io_torn n e"
  shows "whole_lines t'"
  using assms by (cases io) (auto simp: append_line_def)

lemma parse_lines_Nil [simp]: "parse_lines de [] = []"
  by (simp add: parse_lines_def lines_def)

lemma whole_lines_Nil [simp]: "whole_lines []"
  by (simp add: whole_lines_def)

text \<open>
  A torn line takes the next record with it: the append after it lands on the same
  line, and unless the concatenation happens to decode, neither is read back, although
  the second append reported success.
\<close>

lemma torn_line_swallows_next:
  assumes "whole_lines t" "newline \<notin> set torn" "torn \<noteq> []" "newline \<notin> set line"
    and "parse_line de (strip_cr (torn @ line)) = None"
    and "append_line Io_ok line (t @ torn) = (r, t')"
  shows "r = Inr () \<and> parse_lines de t' = parse_lines de t"
  using assms lines_append_line [of t "torn @ line"]
  by (auto simp: append_line_def parse_lines_def)

end
