(* ===== verification/Conversation.thy ===== *)
theory Conversation
  imports Proto Line_File
begin

text \<open>
  The conversation log of a workspace, \<^verbatim>\<open>harness/src/conversation.rs\<close>: the on-disk
  store of one conversation directory, the frontmatter splitter, and the in-memory
  log over a store. The JSON encoder and decoder of a log line, the YAML parser and
  the clock are arguments. A file operation takes the outcome the operating system
  gives it, so that every error path and a write cut off half-way are values.
\<close>

section \<open>Log entries\<close>

record assistant_attribution =
  at_model :: "string option"
  at_system_prompt_sha256 :: "string option"
  at_warnings :: "string list"

definition default_attribution :: assistant_attribution where
  "default_attribution = \<lparr> at_model = None, at_system_prompt_sha256 = None, at_warnings = [] \<rparr>"

record log_entry =
  le_ts :: string
  le_role :: string
  le_content :: "content_block list"
  le_tool_calls :: "tool_call list"
  le_tool_call_id :: "string option"
  le_is_error :: "bool option"
  le_tag :: "string option"
  le_model :: "string option"
  le_system_prompt_sha256 :: "string option"
  le_warnings :: "string list"

record entry =
  e_ts :: string
  e_message :: message
  e_tag :: "string option"
  e_attribution :: assistant_attribution

definition redact_block :: "content_block \<Rightarrow> content_block" where
  "redact_block b =
     (case b of
        Some (Block_Image media_type data) \<Rightarrow> image_block media_type []
      | _ \<Rightarrow> b)"

definition entry_to_log_entry :: "entry \<Rightarrow> log_entry" where
  "entry_to_log_entry e =
     (let m = e_message e in
      \<lparr> le_ts = e_ts e, le_role = role m,
        le_content = (if role m = ''tool'' then map redact_block (content m) else content m),
        le_tool_calls = tool_calls m, le_tool_call_id = tool_call_id m, le_is_error = msg_is_error m,
        le_tag = e_tag e, le_model = at_model (e_attribution e),
        le_system_prompt_sha256 = at_system_prompt_sha256 (e_attribution e),
        le_warnings = at_warnings (e_attribution e) \<rparr>)"

text \<open>The conversion inside \<^verbatim>\<open>rebuild\<close>.\<close>

definition log_entry_to_entry :: "log_entry \<Rightarrow> entry" where
  "log_entry_to_entry l =
     \<lparr> e_ts = le_ts l,
       e_message = \<lparr> role = le_role l, content = le_content l, tool_calls = le_tool_calls l,
         tool_call_id = le_tool_call_id l, msg_is_error = le_is_error l \<rparr>,
       e_tag = le_tag l,
       e_attribution = \<lparr> at_model = le_model l,
         at_system_prompt_sha256 = le_system_prompt_sha256 l, at_warnings = le_warnings l \<rparr> \<rparr>"

section \<open>The on-disk store\<close>

text \<open>
  A conversation directory: the log, the metadata sidecar and the execution log,
  each absent or a byte string.
\<close>

record conv_dir =
  cd_log :: "string option"
  cd_meta :: "string option"
  cd_exec :: "string option"

definition empty_dir :: conv_dir where
  "empty_dir = \<lparr> cd_log = None, cd_meta = None, cd_exec = None \<rparr>"

text \<open>\<^verbatim>\<open>LocalFsStore::append_event\<close>; \<open>ser\<close> is \<^verbatim>\<open>serde_json::to_string\<close>.\<close>

definition append_event ::
  "(log_entry \<Rightarrow> string + string) \<Rightarrow> io \<Rightarrow> log_entry \<Rightarrow> conv_dir option
   \<Rightarrow> (string + unit) \<times> conv_dir option" where
  "append_event ser io l d =
     (case ser l of
        Inl e \<Rightarrow> (Inl (''failed to serialize log entry: '' @ e), d)
      | Inr line \<Rightarrow>
          (case io of
             Io_fail e \<Rightarrow> (Inl e, d)
           | _ \<Rightarrow>
               let dir = (case d of Some dir \<Rightarrow> dir | None \<Rightarrow> empty_dir);
                   (r, txt) = append_line io line (file_text (cd_log dir))
               in (r, Some (dir\<lparr> cd_log := Some txt \<rparr>))))"

text \<open>
  \<^verbatim>\<open>read_all\<close>; \<open>read_error\<close> is an error of the read other than a missing file.
\<close>

definition read_all ::
  "(string \<Rightarrow> string + log_entry) \<Rightarrow> string option \<Rightarrow> conv_dir option \<Rightarrow> string + log_entry list" where
  "read_all de read_error d =
     (case Option.bind d cd_log of
        None \<Rightarrow> Inr []
      | Some contents \<Rightarrow>
          (case read_error of
             Some e \<Rightarrow> Inl e
           | None \<Rightarrow> Inr (parse_lines de contents)))"

text \<open>
  \<^verbatim>\<open>delete_all\<close>. A removal that fails half-way leaves the files it had not reached; the
  bits of the number say which are gone.
\<close>

definition partly_removed :: "nat \<Rightarrow> conv_dir \<Rightarrow> conv_dir" where
  "partly_removed n dir =
     \<lparr> cd_log = (if odd n then None else cd_log dir),
       cd_meta = (if odd (n div 2) then None else cd_meta dir),
       cd_exec = (if odd (n div 4) then None else cd_exec dir) \<rparr>"

definition delete_all :: "io \<Rightarrow> conv_dir option \<Rightarrow> (string + unit) \<times> conv_dir option" where
  "delete_all io d =
     (case d of
        None \<Rightarrow> (Inr (), None)
      | Some dir \<Rightarrow> (case io of Io_ok \<Rightarrow> (Inr (), None)
                     | Io_fail e \<Rightarrow> (Inl e, Some dir)
                     | Io_torn n e \<Rightarrow> (Inl e, Some (partly_removed n dir))))"

record meta_file =
  mf_name :: string
  mf_owner :: string

text \<open>
  \<^verbatim>\<open>write_meta\<close> writes a temporary file and renames it, so the sidecar changes only
  when every step succeeds; the directory is made first.
\<close>

definition write_meta ::
  "(meta_file \<Rightarrow> string + string) \<Rightarrow> io \<Rightarrow> string \<Rightarrow> string \<Rightarrow> conv_dir option
   \<Rightarrow> (string + unit) \<times> conv_dir option" where
  "write_meta ser_meta io name owner d =
     (case ser_meta \<lparr> mf_name = name, mf_owner = owner \<rparr> of
        Inl e \<Rightarrow> (Inl (''failed to serialize meta.json: '' @ e), d)
      | Inr payload \<Rightarrow>
          let dir = (case d of Some dir \<Rightarrow> dir | None \<Rightarrow> empty_dir) in
          (case io of
             Io_ok \<Rightarrow> (Inr (), Some (dir\<lparr> cd_meta := Some payload \<rparr>))
           | Io_fail e \<Rightarrow> (Inl e, d)
           | Io_torn n e \<Rightarrow> (Inl e, Some dir)))"

definition read_meta ::
  "(string \<Rightarrow> string + meta_file) \<Rightarrow> string option \<Rightarrow> conv_dir option
   \<Rightarrow> string + (string \<times> string) option" where
  "read_meta de_meta read_error d =
     (case Option.bind d cd_meta of
        None \<Rightarrow> Inr None
      | Some bytes \<Rightarrow>
          (case read_error of
             Some e \<Rightarrow> Inl e
           | None \<Rightarrow>
               and_then (map_err (\<lambda>e. ''malformed meta.json: '' @ e) (de_meta bytes)) (\<lambda>meta.
               Inr (Some (mf_name meta, mf_owner meta)))))"

section \<open>The log\<close>

record conversation_log =
  entries :: "entry list"

definition log_new :: conversation_log where
  "log_new = \<lparr> entries = [] \<rparr>"

text \<open>\<^verbatim>\<open>ConversationLog::rebuild\<close>, given what the store reads.\<close>

definition rebuild :: "string + log_entry list \<Rightarrow> string + conversation_log" where
  "rebuild persisted = and_then persisted (\<lambda>ls. Inr \<lparr> entries = map log_entry_to_entry ls \<rparr>)"

text \<open>Persist, then push: the tail both append operations share.\<close>

definition push_entry ::
  "(log_entry \<Rightarrow> 'd \<Rightarrow> (string + unit) \<times> 'd) \<Rightarrow> entry \<Rightarrow> conversation_log \<times> 'd
   \<Rightarrow> (string + unit) \<times> conversation_log \<times> 'd" where
  "push_entry store_append e ld =
     (case ld of (log, d) \<Rightarrow>
        (case store_append (entry_to_log_entry e) d of
           (Inl err, d') \<Rightarrow> (Inl err, log, d')
         | (Inr _, d') \<Rightarrow> (Inr (), log\<lparr> entries := entries log @ [e] \<rparr>, d')))"

definition append_tagged ::
  "(log_entry \<Rightarrow> 'd \<Rightarrow> (string + unit) \<times> 'd) \<Rightarrow> string \<Rightarrow> message \<Rightarrow> string option
   \<Rightarrow> conversation_log \<times> 'd \<Rightarrow> (string + unit) \<times> conversation_log \<times> 'd" where
  "append_tagged store_append now m tag ld =
     (if role m = ''assistant'' then
        (Inl ''append_tagged rejects role=\"assistant\"; use append_assistant_tagged'', ld)
      else
        push_entry store_append
          \<lparr> e_ts = now, e_message = m, e_tag = tag, e_attribution = default_attribution \<rparr> ld)"

definition append_assistant_tagged ::
  "(log_entry \<Rightarrow> 'd \<Rightarrow> (string + unit) \<times> 'd) \<Rightarrow> string \<Rightarrow> message \<Rightarrow> string option
   \<Rightarrow> assistant_attribution \<Rightarrow> conversation_log \<times> 'd \<Rightarrow> (string + unit) \<times> conversation_log \<times> 'd" where
  "append_assistant_tagged store_append now m tag attribution ld =
     (if role m \<noteq> ''assistant'' then
        (Inl (''append_assistant_tagged requires role=\"assistant\", got \"'' @ role m @ ''\"''), ld)
      else if content m = [] \<and> tool_calls m = [] then
        (Inl ''refusing to persist assistant message with no content and no tool_calls'', ld)
      else
        push_entry store_append
          \<lparr> e_ts = now, e_message = m, e_tag = tag, e_attribution = attribution \<rparr> ld)"

fun append_many_tagged ::
  "(log_entry \<Rightarrow> 'd \<Rightarrow> (string + unit) \<times> 'd) \<Rightarrow> string \<Rightarrow> message list \<Rightarrow> string option
   \<Rightarrow> conversation_log \<times> 'd \<Rightarrow> (string + unit) \<times> conversation_log \<times> 'd" where
  "append_many_tagged store_append now [] tag ld = (Inr (), ld)"
| "append_many_tagged store_append now (m # ms) tag ld =
     (case append_tagged store_append now m tag ld of
        (Inl e, ld') \<Rightarrow> (Inl e, ld')
      | (Inr _, ld') \<Rightarrow> append_many_tagged store_append now ms tag ld')"

definition history :: "conversation_log \<Rightarrow> message list" where
  "history log = map e_message (entries log)"

definition attributions :: "conversation_log \<Rightarrow> assistant_attribution list" where
  "attributions log = map e_attribution (entries log)"

section \<open>Scopes\<close>

definition DELEGATE_TAG_PREFIX :: string where
  "DELEGATE_TAG_PREFIX = ''delegate:''"

text \<open>\<open>Delegate call_id parent_conversation_id agent_name\<close>.\<close>

datatype history_scope = Orchestrator | Delegate string string string

fun entry_in_scope :: "entry \<Rightarrow> history_scope \<Rightarrow> bool" where
  "entry_in_scope e Orchestrator =
     (\<not> (case e_tag e of Some t \<Rightarrow> starts_with t DELEGATE_TAG_PREFIX | None \<Rightarrow> False))"
| "entry_in_scope e (Delegate call_id parent agent) =
     (e_tag e = Some (DELEGATE_TAG_PREFIX @ call_id))"

text \<open>The \<^verbatim>\<open>TurnRole\<close> of a turn is the number of the proto enum, \<open>3\<close> for \<^verbatim>\<open>DELEGATE\<close>.\<close>

definition derive_tag :: "int option \<Rightarrow> string option \<Rightarrow> string option" where
  "derive_tag turn_role conversation_id =
     (if turn_role = Some 3 then map_option (\<lambda>i. DELEGATE_TAG_PREFIX @ i) conversation_id else None)"

definition last_assistant_model :: "conversation_log \<Rightarrow> history_scope \<Rightarrow> string option" where
  "last_assistant_model log scope =
     Option.bind
       (find (\<lambda>e. role (e_message e) = ''assistant'' \<and> at_model (e_attribution e) \<noteq> None)
          (filter (\<lambda>e. entry_in_scope e scope) (rev (entries log))))
       (\<lambda>e. at_model (e_attribution e))"

definition history_for_provider :: "conversation_log \<Rightarrow> history_scope \<Rightarrow> message list" where
  "history_for_provider log scope =
     map e_message (filter (\<lambda>e. entry_in_scope e scope) (entries log))"

section \<open>Snapshots\<close>

record entry_snapshot =
  es_seq :: nat
  es_ts :: string
  es_message :: message
  es_tag :: "string option"

record conversation_snapshot =
  cs_entries :: "entry_snapshot list"
  cs_total_seq :: nat

definition snapshot :: "conversation_log \<Rightarrow> nat option \<Rightarrow> conversation_snapshot" where
  "snapshot log limit =
     (let total = length (entries log);
          effective_limit = (case limit of None \<Rightarrow> total | Some n \<Rightarrow> if n = 0 then total else min n total);
          skip = total - effective_limit
      in \<lparr> cs_entries = map (\<lambda>(idx, e). \<lparr> es_seq = idx + 1, es_ts = e_ts e,
             es_message = e_message e, es_tag = e_tag e \<rparr>) (drop skip (enumerate 0 (entries log))),
           cs_total_seq = total \<rparr>)"

section \<open>Frontmatter\<close>

text \<open>
  \<^verbatim>\<open>serde_yaml::Value\<close> as far as the splitter looks at it.
\<close>

datatype yaml = Yaml_Mapping "(yaml \<times> yaml) list" | Yaml_Str string | Yaml_Sequence "yaml list"
  | Yaml_Scalar

record frontmatter =
  fm_model :: "string option"
  fm_tools :: "string list option"

definition default_frontmatter :: frontmatter where
  "default_frontmatter = \<lparr> fm_model = None, fm_tools = None \<rparr>"

definition FRONTMATTER_SCAN_LIMIT :: nat where
  "FRONTMATTER_SCAN_LIMIT = 4 * 1024"

definition yaml_as_str :: "yaml \<Rightarrow> string option" where
  "yaml_as_str v = (case v of Yaml_Str s \<Rightarrow> Some s | _ \<Rightarrow> None)"

definition yaml_frontmatter :: "yaml \<Rightarrow> frontmatter" where
  "yaml_frontmatter v =
     (case v of
        Yaml_Mapping m \<Rightarrow>
          \<lparr> fm_model = Option.bind (map_of m (Yaml_Str ''model'')) yaml_as_str,
            fm_tools = Option.bind (map_of m (Yaml_Str ''tools''))
              (\<lambda>v. case v of Yaml_Sequence xs \<Rightarrow> Some (List.map_filter yaml_as_str xs) | _ \<Rightarrow> None) \<rparr>
      | _ \<Rightarrow> default_frontmatter)"

text \<open>
  The scan for a line that is exactly \<^verbatim>\<open>---\<close>: the offsets of the closing line, and
  the start of the last unfinished line.
\<close>

fun closer_scan :: "string \<Rightarrow> nat \<Rightarrow> nat \<Rightarrow> string \<Rightarrow> (nat \<times> nat) option \<times> nat" where
  "closer_scan region line_start idx [] = (None, line_start)"
| "closer_scan region line_start idx (b # bs) =
     (if b = newline then
        if strip_cr (drop line_start (take idx region)) = ''---'' then
          (Some (line_start, idx + 1), line_start)
        else closer_scan region (idx + 1) (idx + 1) bs
      else closer_scan region line_start (idx + 1) bs)"

definition find_closer :: "string \<Rightarrow> nat \<Rightarrow> (nat \<times> nat) option" where
  "find_closer region opener_len =
     (case closer_scan region 0 0 region of
        (Some o', _) \<Rightarrow> Some o'
      | (None, line_start) \<Rightarrow>
          if length region < FRONTMATTER_SCAN_LIMIT - opener_len
             \<and> strip_cr (drop line_start region) = ''---''
          then Some (line_start, length region) else None)"

definition byte_order_mark :: string where
  "byte_order_mark = [CHR 0xEF, CHR 0xBB, CHR 0xBF]"

text \<open>
  \<^verbatim>\<open>strip_frontmatter\<close>; \<^const>\<open>None\<close> is the panic of a slice that is not at a
  character boundary.
\<close>

definition strip_frontmatter :: "(string \<Rightarrow> string + yaml) \<Rightarrow> string \<Rightarrow> (string \<times> frontmatter) option" where
  "strip_frontmatter yaml_parse input =
     (let start = (if starts_with input byte_order_mark then 3 else 0);
          after_bom = drop start input;
          opener = (if starts_with after_bom (''---'' @ [newline]) then Some 4
                    else if starts_with after_bom (''---'' @ [carriage_return, newline]) then Some (5 :: nat)
                    else None)
      in case opener of
           None \<Rightarrow> Some (input, default_frontmatter)
         | Some opener_len \<Rightarrow>
             let scan_end = min (length after_bom) FRONTMATTER_SCAN_LIMIT in
             if \<not> is_char_boundary after_bom scan_end then None
             else
               let scan_region = drop opener_len (take scan_end after_bom) in
               (case find_closer scan_region opener_len of
                  None \<Rightarrow> Some (input, default_frontmatter)
                | Some (yaml_end, body_start) \<Rightarrow>
                    (case yaml_parse (take yaml_end scan_region) of
                       Inl _ \<Rightarrow> Some (input, default_frontmatter)
                     | Inr v \<Rightarrow> Some (drop (opener_len + body_start) after_bom, yaml_frontmatter v))))"

section \<open>Durability\<close>

text \<open>
  The directory holds exactly the entries of the log when its file ends at a line
  boundary and reads back as the entries' persisted form.
\<close>

definition dir_text :: "conv_dir option \<Rightarrow> string" where
  "dir_text d = file_text (Option.bind d cd_log)"

definition consistent :: "(string \<Rightarrow> string + log_entry) \<Rightarrow> conversation_log \<times> conv_dir option \<Rightarrow> bool" where
  "consistent de ld \<longleftrightarrow>
     whole_lines (dir_text (snd ld)) \<and>
     read_all de None (snd ld) = Inr (map entry_to_log_entry (entries (fst ld)))"

lemma read_all_text: "read_all de None d = Inr (parse_lines de (dir_text d))"
  by (simp add: read_all_def dir_text_def file_text_def split: option.splits)

lemma append_event_text:
  assumes "ser l = Inr line" "append_event ser io l d = (r, d')"
  shows "append_line io line (dir_text d) = (r, dir_text d')"
proof (cases io)
  case (Io_fail e)
  with assms show ?thesis by (simp add: append_event_def append_line_def)
qed (use assms in \<open>auto simp: append_event_def append_line_def dir_text_def file_text_def
      empty_dir_def Let_def split: option.splits\<close>)

lemma push_entry_consistent:
  assumes codec: "line_codec V ser de" "entry_to_log_entry e \<in> V" and ok: "consistent de ld"
    and push: "push_entry (append_event ser io) e ld = (r, ld')" and io: "\<And>n err. io \<noteq> Io_torn n err"
  shows "consistent de ld' \<and>
    entries (fst ld') = entries (fst ld) @ (case r of Inr _ \<Rightarrow> [e] | Inl _ \<Rightarrow> [])"
proof -
  obtain log d where ld: "ld = (log, d)" by (cases ld)
  obtain r0 d' where ap: "append_event ser io (entry_to_log_entry e) d = (r0, d')"
    by (cases "append_event ser io (entry_to_log_entry e) d")
  from codec obtain line where line: "ser (entry_to_log_entry e) = Inr line" by (rule line_codecE)
  have ft: "append_line io line (dir_text d) = (r0, dir_text d')"
    using append_event_text [OF line ap] .
  have whole: "whole_lines (dir_text d)" using ok ld by (simp add: consistent_def)
  then have whole': "whole_lines (dir_text d')" using append_line_whole ft io by blast
  have "parse_lines de (dir_text d')
      = parse_lines de (dir_text d) @ (case r0 of Inr _ \<Rightarrow> [entry_to_log_entry e] | Inl _ \<Rightarrow> [])"
    using parse_lines_append_line [OF codec line whole ft whole'] .
  then show ?thesis
    using push ap ok whole' by (cases r0) (auto simp: push_entry_def ld consistent_def read_all_text)
qed

text \<open>
  The operations on a log, as a sequence of calls: each with the time, the outcome of
  its write and its arguments.
\<close>

datatype log_op = Append_Tagged string io message "string option"
  | Append_Assistant string io message "string option" assistant_attribution

fun log_step ::
  "(log_entry \<Rightarrow> string + string) \<Rightarrow> log_op \<Rightarrow> conversation_log \<times> conv_dir option
   \<Rightarrow> conversation_log \<times> conv_dir option" where
  "log_step ser (Append_Tagged now io m tag) ld = snd (append_tagged (append_event ser io) now m tag ld)"
| "log_step ser (Append_Assistant now io m tag attribution) ld =
     snd (append_assistant_tagged (append_event ser io) now m tag attribution ld)"

fun op_entry :: "log_op \<Rightarrow> log_entry" where
  "op_entry (Append_Tagged now io m tag) = entry_to_log_entry
     \<lparr> e_ts = now, e_message = m, e_tag = tag, e_attribution = default_attribution \<rparr>"
| "op_entry (Append_Assistant now io m tag a) = entry_to_log_entry
     \<lparr> e_ts = now, e_message = m, e_tag = tag, e_attribution = a \<rparr>"

fun op_torn :: "log_op \<Rightarrow> bool" where
  "op_torn (Append_Tagged now io m tag) = (case io of Io_torn _ _ \<Rightarrow> True | _ \<Rightarrow> False)"
| "op_torn (Append_Assistant now io m tag a) = (case io of Io_torn _ _ \<Rightarrow> True | _ \<Rightarrow> False)"

lemma log_step_consistent:
  assumes "line_codec V ser de" "op_entry op \<in> V" "consistent de ld" "\<not> op_torn op"
  shows "consistent de (log_step ser op ld)"
proof (cases op)
  case (Append_Tagged now io m tag)
  show ?thesis
  proof (cases "role m = ''assistant''")
    case True
    then show ?thesis using assms(3) Append_Tagged by (simp add: append_tagged_def)
  next
    case False
    let ?e = "\<lparr> e_ts = now, e_message = m, e_tag = tag, e_attribution = default_attribution \<rparr>"
    obtain r ld' where "push_entry (append_event ser io) ?e ld = (r, ld')"
      by (cases "push_entry (append_event ser io) ?e ld")
    with False show ?thesis
      using push_entry_consistent [OF assms(1) _ assms(3)] assms(2,4) Append_Tagged
      by (auto simp: append_tagged_def split: io.splits)
  qed
next
  case (Append_Assistant now io m tag a)
  show ?thesis
  proof (cases "role m \<noteq> ''assistant'' \<or> content m = [] \<and> tool_calls m = []")
    case True
    then show ?thesis using assms(3) Append_Assistant by (auto simp: append_assistant_tagged_def)
  next
    case False
    let ?e = "\<lparr> e_ts = now, e_message = m, e_tag = tag, e_attribution = a \<rparr>"
    obtain r ld' where "push_entry (append_event ser io) ?e ld = (r, ld')"
      by (cases "push_entry (append_event ser io) ?e ld")
    with False show ?thesis
      using push_entry_consistent [OF assms(1) _ assms(3)] assms(2,4) Append_Assistant
      by (auto simp: append_assistant_tagged_def split: io.splits)
  qed
qed

lemma foldl_log_step_consistent:
  "line_codec V ser de \<Longrightarrow> op_entry ` set ops \<subseteq> V \<Longrightarrow> consistent de ld \<Longrightarrow> \<not> list_ex op_torn ops \<Longrightarrow>
   consistent de (foldl (\<lambda>ld op. log_step ser op ld) ld ops)"
proof (induction ops arbitrary: ld)
  case (Cons op ops)
  then show ?case using log_step_consistent [of V ser de op ld] by simp
qed simp

text \<open>What a restart keeps of an entry: everything but the bytes of a tool result's images.\<close>

definition persisted_form :: "entry \<Rightarrow> entry" where
  "persisted_form e =
     (let m = e_message e in
      e\<lparr> e_message := m\<lparr> content := if role m = ''tool'' then map redact_block (content m) else content m \<rparr> \<rparr>)"

lemma log_entry_roundtrip: "log_entry_to_entry (entry_to_log_entry e) = persisted_form e"
  by (simp add: log_entry_to_entry_def entry_to_log_entry_def persisted_form_def Let_def)

text \<open>
  C16. A log is durable: after any sequence of appends to a new conversation, each of
  which the operating system carried out fully or not at all, rebuilding from disk
  succeeds and gives the same entries in the same order, up to the image bytes of
  tool results, which are never persisted.
\<close>

theorem conversation_durable:
  assumes "line_codec (op_entry ` set ops) ser de" "\<not> list_ex op_torn ops"
    and "(log, d) = foldl (\<lambda>ld op. log_step ser op ld) (log_new, None) ops"
  shows "rebuild (read_all de None d) = Inr \<lparr> entries = map persisted_form (entries log) \<rparr>"
proof -
  have "consistent de (log_new, None)"
    by (simp add: consistent_def log_new_def dir_text_def file_text_def read_all_def)
  then have "consistent de (log, d)"
    using foldl_log_step_consistent [OF assms(1) order_refl _ assms(2)] assms(3) by simp
  then show ?thesis
    by (simp add: consistent_def rebuild_def log_entry_roundtrip comp_def)
qed

theorem conversation_durable_witness:
  "let m = \<lparr> role = ''tool'', content = [image_block ''image/png'' ''bytes''], tool_calls = [],
             tool_call_id = Some ''c1'', msg_is_error = None \<rparr>;
       ops = [Append_Tagged ''t0'' Io_ok m None];
       ser = (\<lambda>l. if l = op_entry (hd ops) then Inr ''line'' else Inl ''unused'');
       de = (\<lambda>t. if t = ''line'' then Inr (op_entry (hd ops)) else Inl ''unused'');
       (log, d) = foldl (\<lambda>ld op. log_step ser op ld) (log_new, None) ops
   in line_codec (op_entry ` set ops) ser de \<and>
      rebuild (read_all de None d) = Inr \<lparr> entries = map persisted_form (entries log) \<rparr> \<and>
      map (content \<circ> e_message \<circ> persisted_form) (entries log) = [[image_block ''image/png'' []]]"
proof -
  let ?m = "\<lparr> role = ''tool'', content = [image_block ''image/png'' ''bytes''], tool_calls = [],
             tool_call_id = Some ''c1'', msg_is_error = None \<rparr>"
  let ?ops = "[Append_Tagged ''t0'' Io_ok ?m None]"
  let ?ser = "\<lambda>l. if l = op_entry (hd ?ops) then Inr ''line'' else Inl ''unused''"
  let ?de = "\<lambda>t. if t = ''line'' then Inr (op_entry (hd ?ops)) else Inl ''unused''"
  let ?ld = "foldl (\<lambda>ld op. log_step ?ser op ld) (log_new, None) ?ops"
  have codec: "line_codec (op_entry ` set ?ops) ?ser ?de"
  proof -
    have "trim ''line'' \<noteq> []" "strip_cr ''line'' = ''line''" by code_simp+
    then show ?thesis by (simp add: line_codec_def)
  qed
  moreover have "rebuild (read_all ?de None (snd ?ld)) = Inr \<lparr> entries = map persisted_form (entries (fst ?ld)) \<rparr>"
    by (rule conversation_durable [OF codec]) simp_all
  moreover have "map (content \<circ> e_message \<circ> persisted_form) (entries (fst ?ld)) = [[image_block ''image/png'' []]]"
    by (simp add: append_tagged_def push_entry_def append_event_def append_line_def log_new_def
        persisted_form_def redact_block_def image_block_def Let_def)
  ultimately show ?thesis by (simp add: Let_def case_prod_beta)
qed

text \<open>
  A write cut off half-way loses the entry after it too: the torn line is not closed,
  so the next append, which reports success and is kept in memory, continues it.
\<close>

lemma torn_append_loses_next:
  assumes "consistent de (log, d)" "ser (entry_to_log_entry e1) = Inr l1" "ser (entry_to_log_entry e2) = Inr l2"
    and "newline \<notin> set l1" "newline \<notin> set l2" "0 < n" "l1 \<noteq> []"
    and "parse_line de (strip_cr (take n l1 @ l2)) = None"
    and "push_entry (append_event ser (Io_torn n err)) e1 (log, d) = (r1, log1, d1)"
    and "push_entry (append_event ser Io_ok) e2 (log1, d1) = (r2, log2, d2)"
  shows "r2 = Inr () \<and> entries log2 = entries log @ [e2] \<and> read_all de None d2 = read_all de None d"
proof -
  have w: "whole_lines (dir_text d)" using assms(1) by (simp add: consistent_def)
  obtain q1 where ap1: "append_event ser (Io_torn n err) (entry_to_log_entry e1) d = (q1, d1)"
    using assms(9) by (auto simp: push_entry_def split: prod.splits sum.splits)
  then have t1: "q1 = Inl err" "dir_text d1 = dir_text d @ take n l1"
    using append_event_text [OF assms(2) ap1] by (auto simp: append_line_def min_def split: if_splits)
  then have log1: "log1 = log" using assms(9) ap1 by (simp add: push_entry_def)
  obtain q2 where ap2: "append_event ser Io_ok (entry_to_log_entry e2) d1 = (q2, d2)"
    using assms(10) by (auto simp: push_entry_def split: prod.splits sum.splits)
  then have "append_line Io_ok l2 (dir_text d @ take n l1) = (q2, dir_text d2)"
    using append_event_text [OF assms(3) ap2] t1 by simp
  moreover have "take n l1 \<noteq> []" "newline \<notin> set (take n l1)"
    using assms(4,6,7) by (auto dest: in_set_takeD)
  ultimately have "q2 = Inr () \<and> parse_lines de (dir_text d2) = parse_lines de (dir_text d)"
    using torn_line_swallows_next [OF w _ _ assms(5,8)] by blast
  with assms(10) ap2 log1 show ?thesis
    by (auto simp: push_entry_def read_all_text)
qed

section \<open>Scope isolation\<close>

lemma derive_tag_scope:
  assumes "e_tag e = derive_tag turn_role conversation_id"
  shows "entry_in_scope e Orchestrator \<longleftrightarrow> \<not> (turn_role = Some 3 \<and> conversation_id \<noteq> None)"
    and "entry_in_scope e (Delegate i parent agent) \<longleftrightarrow> turn_role = Some 3 \<and> conversation_id = Some i"
  using assms by (auto simp: derive_tag_def split: option.splits)

lemma push_entry_history:
  assumes "push_entry store_append e (log, d) = (Inr u, log', d')"
  shows "history_for_provider log' scope
    = history_for_provider log scope @ (if entry_in_scope e scope then [e_message e] else [])"
  using assms by (auto simp: push_entry_def history_for_provider_def split: prod.splits sum.splits)

text \<open>
  C38. The turns of a dispatched sub-agent are private: an entry tagged for the
  delegate \<open>i\<close> extends the prompt of exactly that delegate; the orchestrator's prompt
  and every other delegate's are what they were.
\<close>

theorem delegate_entry_isolated:
  assumes "push_entry store_append e (log, d) = (Inr u, log', d')"
    and "e_tag e = derive_tag (Some 3) (Some i)"
  shows "history_for_provider log' Orchestrator = history_for_provider log Orchestrator \<and>
    (\<forall>j p a. history_for_provider log' (Delegate j p a) =
       history_for_provider log (Delegate j p a) @ (if j = i then [e_message e] else []))"
  using push_entry_history [OF assms(1)] derive_tag_scope [OF assms(2)] by simp_all

theorem delegate_entry_isolated_witness:
  "let m = \<lparr> role = ''user'', content = text_content ''hi'', tool_calls = [], tool_call_id = None, msg_is_error = None \<rparr>;
       e = \<lparr> e_ts = ''t'', e_message = m, e_tag = derive_tag (Some 3) (Some ''child''), e_attribution = default_attribution \<rparr>;
       (r, log', d') = push_entry (\<lambda>l d. (Inr (), d)) e (log_new, ())
   in history_for_provider log' Orchestrator = [] \<and>
      history_for_provider log' (Delegate ''child'' [] []) = [m] \<and>
      history_for_provider log' (Delegate ''other'' [] []) = []"
proof -
  let ?m = "\<lparr> role = ''user'', content = text_content ''hi'', tool_calls = [], tool_call_id = None, msg_is_error = None \<rparr>"
  let ?e = "\<lparr> e_ts = ''t'', e_message = ?m, e_tag = derive_tag (Some 3) (Some ''child''), e_attribution = default_attribution \<rparr>"
  have push: "push_entry (\<lambda>l d. (Inr (), d)) ?e (log_new, ()) = (Inr (), \<lparr> entries = [?e] \<rparr>, ())"
    by (simp add: push_entry_def log_new_def)
  have empty: "history_for_provider log_new scope = []" for scope
    by (simp add: history_for_provider_def log_new_def)
  show ?thesis
    using delegate_entry_isolated [OF push, of "''child''"]
    by (simp add: push Let_def empty)
qed

section \<open>Snapshots of the tail\<close>

definition snapshot_size :: "nat \<Rightarrow> nat option \<Rightarrow> nat" where
  "snapshot_size len limit =
     (case limit of None \<Rightarrow> len | Some n \<Rightarrow> if n = 0 then len else min n len)"

text \<open>
  A snapshot is the tail of the log: the last entries, as many as the limit
  allows, oldest first, numbered by their position from 1 in the whole log, whose
  length it reports.
\<close>

theorem snapshot_is_tail:
  "let total = length (entries log); k = snapshot_size total limit; snap = snapshot log limit
   in cs_total_seq snap = total \<and>
      map es_seq (cs_entries snap) = [total - k + 1..<total + 1] \<and>
      map es_message (cs_entries snap) = drop (total - k) (history log)"
proof -
  have enum: "map fst (enumerate n xs) = [n..<n + length xs]" "map snd (enumerate n xs) = xs"
    for n and xs :: "entry list"
    by (simp_all add: enumerate_eq_zip)
  let ?d = "drop (length (entries log) - snapshot_size (length (entries log)) limit) (enumerate 0 (entries log))"
  have cs: "cs_entries (snapshot log limit) = map (\<lambda>(idx, e). \<lparr> es_seq = idx + 1, es_ts = e_ts e,
             es_message = e_message e, es_tag = e_tag e \<rparr>) ?d"
    by (simp add: snapshot_def snapshot_size_def Let_def)
  have "map es_seq (cs_entries (snapshot log limit)) = map Suc (map fst ?d)"
    by (simp add: cs case_prod_beta comp_def)
  also have "\<dots> = map Suc (drop (length (entries log) - snapshot_size (length (entries log)) limit)
      [0..<length (entries log)])"
    by (metis add_0 drop_map enum(1))
  also have "\<dots> = [length (entries log) - snapshot_size (length (entries log)) limit + 1..<length (entries log) + 1]"
    by (simp add: drop_upt map_Suc_upt del: upt_Suc)
  finally have seqs: "map es_seq (cs_entries (snapshot log limit)) = \<dots>" .
  have "map es_message (cs_entries (snapshot log limit)) = map e_message (map snd ?d)"
    by (simp add: cs case_prod_beta comp_def)
  also have "\<dots> = drop (length (entries log) - snapshot_size (length (entries log)) limit) (history log)"
    by (metis drop_map enum(2) history_def)
  finally show ?thesis
    using seqs by (simp add: Let_def snapshot_def)
qed

section \<open>Frontmatter\<close>

lemma closer_scan_line:
  "newline \<notin> set l \<Longrightarrow>
   closer_scan region ls idx (l @ rest) = closer_scan region ls (idx + length l) rest"
  by (induction l arbitrary: idx) auto

lemma closer_scan_lines:
  assumes "list_all (\<lambda>l. newline \<notin> set l \<and> strip_cr l \<noteq> ''---'') ls"
    and "region = pre @ concat (map (\<lambda>l. l @ [newline]) ls) @ ''---'' @ newline # body"
  shows "fst (closer_scan region (length pre) (length pre)
      (concat (map (\<lambda>l. l @ [newline]) ls) @ ''---'' @ newline # body))
    = Some (length (pre @ concat (map (\<lambda>l. l @ [newline]) ls)),
            length (pre @ concat (map (\<lambda>l. l @ [newline]) ls)) + 4)"
  using assms
proof (induction ls arbitrary: pre)
  case Nil
  have "strip_cr ''---'' = ''---''" by code_simp
  then show ?case
    using Nil closer_scan_line [of "''---''" region "length pre" "length pre" "newline # body"] by simp
next
  case (Cons l ls)
  let ?rest = "concat (map (\<lambda>l. l @ [newline]) ls) @ ''---'' @ newline # body"
  have l: "newline \<notin> set l" "strip_cr l \<noteq> ''---''" using Cons.prems(1) by simp_all
  have region: "region = (pre @ l @ [newline]) @ ?rest" using Cons.prems(2) by simp
  have "closer_scan region (length pre) (length pre) ((l @ [newline]) @ ?rest)
      = closer_scan region (length pre) (length pre + length l) (newline # ?rest)"
    using closer_scan_line [OF l(1), of region "length pre" "length pre" "newline # ?rest"] by simp
  also have "\<dots> = closer_scan region (length (pre @ l @ [newline])) (length (pre @ l @ [newline])) ?rest"
    using l(2) by (simp add: region)
  finally show ?case
    using Cons.IH [of "pre @ l @ [newline]"] Cons.prems region by simp
qed

lemma find_closer_SomeI:
  "fst (closer_scan region 0 0 region) = Some off \<Longrightarrow> find_closer region n = Some off"
  by (cases "closer_scan region 0 0 region") (simp add: find_closer_def)

text \<open>
  Frontmatter is split off exactly: for a YAML block whose lines are not the
  closing marker, that ends within the first 4096 bytes, of a file that has no
  multi-byte character across that limit, the body is what follows the marker and the
  fields are those of the parsed block.
\<close>

theorem strip_frontmatter_splits:
  assumes "list_all (\<lambda>l. newline \<notin> set l \<and> strip_cr l \<noteq> ''---'') ls"
    and y: "y = concat (map (\<lambda>l. l @ [newline]) ls)" and "4 + length y + 4 \<le> 4096"
    and input: "input = ''---'' @ [newline] @ y @ ''---'' @ [newline] @ body"
    and "is_char_boundary input (min (length input) 4096)" "yaml_parse y = Inr v"
  shows "strip_frontmatter yaml_parse input = Some (body, yaml_frontmatter v)"
proof -
  let ?n = "min (length input) FRONTMATTER_SCAN_LIMIT"
  let ?head = "''---'' @ [newline] @ y @ ''---'' @ [newline]"
  let ?body' = "take (?n - length ?head) body"
  have n: "length ?head \<le> ?n" using assms(3) by (simp add: input FRONTMATTER_SCAN_LIMIT_def)
  have split: "input = ?head @ body" by (simp add: input)
  then have "take ?n input = ?head @ ?body'" using n by (metis take_append take_all)
  then have region: "drop 4 (take ?n input) = y @ ''---'' @ newline # ?body'" by simp
  have start: "\<not> starts_with input byte_order_mark" "starts_with input (''---'' @ [newline])"
    by (simp_all add: input byte_order_mark_def)
  have "fst (closer_scan (drop 4 (take ?n input)) 0 0 (drop 4 (take ?n input))) = Some (length y, length y + 4)"
    using closer_scan_lines [OF assms(1), of "drop 4 (take ?n input)" "[]" ?body'] region y by simp
  then have "find_closer (drop 4 (take ?n input)) 4 = Some (length y, length y + 4)"
    by (rule find_closer_SomeI)
  moreover have "is_char_boundary input ?n" using assms(5) by (simp add: FRONTMATTER_SCAN_LIMIT_def)
  moreover have "take (length y) (drop 4 (take ?n input)) = y" using region by simp
  moreover have "drop (4 + (length y + 4)) input = body"
  proof -
    have "length ?head = 4 + (length y + 4)" by simp
    then show ?thesis by (metis append_eq_conv_conj split)
  qed
  ultimately show ?thesis
    using start assms(6) by (simp add: strip_frontmatter_def Let_def del: starts_with_iff_prefix)
qed

theorem strip_frontmatter_splits_witness:
  "strip_frontmatter (\<lambda>t. Inr (Yaml_Mapping [(Yaml_Str ''model'', Yaml_Str ''opus'')]))
     (''---'' @ [newline] @ ''model: opus'' @ [newline] @ ''---'' @ [newline] @ ''body'')
   = Some (''body'', \<lparr> fm_model = Some ''opus'', fm_tools = None \<rparr>)"
proof -
  let ?input = "''---'' @ [newline] @ (''model: opus'' @ [newline]) @ ''---'' @ [newline] @ ''body''"
  have "list_all (\<lambda>l. newline \<notin> set l \<and> strip_cr l \<noteq> ''---'') [''model: opus'']" by code_simp
  moreover have "is_char_boundary ?input (min (length ?input) 4096)" by code_simp
  moreover have "yaml_frontmatter (Yaml_Mapping [(Yaml_Str ''model'', Yaml_Str ''opus'')])
      = \<lparr> fm_model = Some ''opus'', fm_tools = None \<rparr>"
    by (simp add: yaml_frontmatter_def yaml_as_str_def)
  ultimately show ?thesis
    using strip_frontmatter_splits [of "[''model: opus'']" "''model: opus'' @ [newline]" ?input "''body''"
        "\<lambda>t. Inr (Yaml_Mapping [(Yaml_Str ''model'', Yaml_Str ''opus'')])"]
    by simp
qed

text \<open>
  A file that opens with frontmatter, is longer than the scan limit and has a
  multi-byte character across byte 4096 makes the splitter panic.
\<close>

lemma strip_frontmatter_panics:
  assumes "starts_with input (''---'' @ [newline])" "length input > 4096" "is_cont_byte (input ! 4096)"
  shows "strip_frontmatter yaml_parse input = None"
proof -
  have "\<not> starts_with input byte_order_mark"
    using assms(1) by (auto simp: byte_order_mark_def prefix_def)
  moreover have "\<not> is_char_boundary input (min (length input) FRONTMATTER_SCAN_LIMIT)"
    using assms by (simp add: is_char_boundary_def FRONTMATTER_SCAN_LIMIT_def)
  ultimately show ?thesis
    using assms(1) by (simp add: strip_frontmatter_def Let_def del: starts_with_iff_prefix)
qed

end
