(* ===== verification/Execution_Log.thy ===== *)
theory Execution_Log
  imports Conversation
begin

text \<open>
  Tool-result frames and their log, \<^verbatim>\<open>harness/src/execution_log.rs\<close>: folding a frame
  stream into the result the model sees, splitting an in-process result into frames,
  and the per-conversation record a re-subscriber is served from.
\<close>

section \<open>Assembling a result\<close>

definition push_line :: "string \<Rightarrow> string \<Rightarrow> string" where
  "push_line buf line = (if buf = [] then line else buf @ [newline] @ line)"

record assembly =
  as_stdout :: string
  as_stderr :: string
  as_images :: "content_block list"
  as_exit_code :: int
  as_is_error :: bool

definition assemble_step :: "assembly \<Rightarrow> tool_result_frame \<Rightarrow> assembly" where
  "assemble_step a f =
     (case f of
        Some (Frame_Stdout s) \<Rightarrow> a\<lparr> as_stdout := push_line (as_stdout a) s \<rparr>
      | Some (Frame_Stderr s) \<Rightarrow> a\<lparr> as_stderr := push_line (as_stderr a) s \<rparr>
      | Some (Frame_Image media_type data) \<Rightarrow>
          a\<lparr> as_images := as_images a @ [image_block media_type data] \<rparr>
      | Some (Frame_Complete outcome exit_code) \<Rightarrow>
          a\<lparr> as_exit_code := exit_code, as_is_error := (outcome \<noteq> outcome_done) \<rparr>
      | None \<Rightarrow> a)"

definition assemble_finish :: "assembly \<Rightarrow> call_tool_response" where
  "assemble_finish a =
     (let text0 = as_stdout a;
          text1 = (if as_exit_code a \<noteq> 0 \<and> as_stderr a \<noteq> [] then
                     (if text0 \<noteq> [] then text0 @ [newline] else text0) @ as_stderr a
                   else text0)
      in \<lparr> resp_content =
             (if as_images a = [] \<or> text1 \<noteq> [] then as_images a @ [text_block text1] else as_images a),
           resp_is_error = as_is_error a \<rparr>)"

definition assembly_init :: assembly where
  "assembly_init = \<lparr> as_stdout = [], as_stderr = [], as_images = [], as_exit_code = 0, as_is_error = False \<rparr>"

definition assemble_from_frames :: "tool_result_frame list \<Rightarrow> call_tool_response" where
  "assemble_from_frames frames = assemble_finish (foldl assemble_step assembly_init frames)"

section \<open>Splitting an in-process result\<close>

definition block_frame :: "content_block \<Rightarrow> tool_result_frame option" where
  "block_frame b =
     (case b of
        Some (Block_Text t) \<Rightarrow> Some (Some (Frame_Stdout t))
      | Some (Block_Image media_type data) \<Rightarrow> Some (Some (Frame_Image media_type data))
      | _ \<Rightarrow> None)"

definition frames_from_response :: "call_tool_response \<Rightarrow> tool_result_frame list" where
  "frames_from_response response =
     List.map_filter block_frame (resp_content response)
     @ [Some (if resp_is_error response then Frame_Complete outcome_failed 1
              else Frame_Complete outcome_done 0)]"

section \<open>The record on disk\<close>

datatype record_body = Record_Stdout string | Record_Stderr string | Record_Complete int int

record execution_record =
  er_call_id :: string
  er_conversation_id :: string
  er_body :: record_body

definition frame_to_record :: "string \<Rightarrow> string \<Rightarrow> tool_result_frame \<Rightarrow> execution_record option" where
  "frame_to_record call_id conversation_id f =
     Option.bind f (\<lambda>fr.
       map_option (\<lambda>body. \<lparr> er_call_id = call_id, er_conversation_id = conversation_id, er_body = body \<rparr>)
         (case fr of
            Frame_Stdout s \<Rightarrow> Some (Record_Stdout s)
          | Frame_Stderr s \<Rightarrow> Some (Record_Stderr s)
          | Frame_Image media_type data \<Rightarrow> None
          | Frame_Complete outcome exit_code \<Rightarrow> Some (Record_Complete outcome exit_code)))"

fun record_to_frame :: "record_body \<Rightarrow> tool_result_frame" where
  "record_to_frame (Record_Stdout t) = Some (Frame_Stdout t)"
| "record_to_frame (Record_Stderr t) = Some (Frame_Stderr t)"
| "record_to_frame (Record_Complete outcome exit_code) = Some (Frame_Complete outcome exit_code)"

text \<open>
  \<^verbatim>\<open>append_frame\<close> of the writer of one conversation; \<open>ser\<close> encodes a record.
\<close>

definition append_frame ::
  "(execution_record \<Rightarrow> string + string) \<Rightarrow> string \<Rightarrow> io \<Rightarrow> string \<Rightarrow> tool_result_frame
   \<Rightarrow> conv_dir option \<Rightarrow> (string + unit) \<times> conv_dir option" where
  "append_frame ser conversation_id io call_id f d =
     (case frame_to_record call_id conversation_id f of
        None \<Rightarrow> (Inr (), d)
      | Some record \<Rightarrow>
          (case ser record of
             Inl e \<Rightarrow> (Inl (''serialize execution record: '' @ e), d)
           | Inr line \<Rightarrow>
               (case io of
                  Io_fail e \<Rightarrow> (Inl e, d)
                | _ \<Rightarrow>
                    let dir = (case d of Some dir \<Rightarrow> dir | None \<Rightarrow> empty_dir);
                        (r, txt) = append_line io line (file_text (cd_exec dir))
                    in (r, Some (dir\<lparr> cd_exec := Some txt \<rparr>)))))"

text \<open>\<^verbatim>\<open>read\<close>; \<open>readable\<close> is whether the file can be read at all.\<close>

definition read_frames ::
  "(string \<Rightarrow> string + execution_record) \<Rightarrow> bool \<Rightarrow> string \<Rightarrow> conv_dir option
   \<Rightarrow> tool_result_frame list option" where
  "read_frames de readable call_id d =
     (case Option.bind d cd_exec of
        None \<Rightarrow> None
      | Some contents \<Rightarrow>
          if \<not> readable then None
          else
            let frames = map (\<lambda>r. record_to_frame (er_body r))
                  (filter (\<lambda>r. er_call_id r = call_id) (parse_lines de contents))
            in if frames = [] then None else Some frames)"

definition has_terminal :: "tool_result_frame list \<Rightarrow> bool" where
  "has_terminal frames =
     (frames \<noteq> [] \<and> (case last frames of Some (Frame_Complete _ _) \<Rightarrow> True | _ \<Rightarrow> False))"

section \<open>Error and outcome agree\<close>

lemma assemble_is_error:
  "as_is_error (foldl assemble_step a (frames @ [Some (Frame_Complete outcome exit_code)]))
     \<longleftrightarrow> outcome \<noteq> outcome_done"
  by (simp add: assemble_step_def)

lemma assemble_foldl_text:
  assumes "List.map_filter block_frame bs = fs"
  shows "as_images (foldl assemble_step a fs) =
      as_images a @ filter (\<lambda>b. case b of Some (Block_Image _ _) \<Rightarrow> True | _ \<Rightarrow> False) bs"
    and "as_stdout (foldl assemble_step a fs) = foldl push_line (as_stdout a) (List.map_filter block_text bs)"
    and "as_stderr (foldl assemble_step a fs) = as_stderr a"
  using assms
  by (induction bs arbitrary: a fs)
    (auto simp: block_frame_def block_text_def assemble_step_def image_block_def split: option.splits block.splits)

text \<open>
  What a client folds out of the frames of an in-process result is that result:
  its error flag, its images in order, and its text parts joined line by line; an
  error is reported exactly when the terminal frame's outcome is not DONE.
\<close>

theorem assemble_frames_from_response:
  "assemble_from_frames (frames_from_response r) =
     (let images = filter (\<lambda>b. case b of Some (Block_Image _ _) \<Rightarrow> True | _ \<Rightarrow> False) (resp_content r);
          txt = foldl push_line [] (List.map_filter block_text (resp_content r))
      in \<lparr> resp_content = (if images \<noteq> [] \<and> txt = [] then images else images @ [text_block txt]),
           resp_is_error = resp_is_error r \<rparr>)"
proof -
  let ?a = "foldl assemble_step assembly_init (List.map_filter block_frame (resp_content r))"
  have "as_images ?a = filter (\<lambda>b. case b of Some (Block_Image _ _) \<Rightarrow> True | _ \<Rightarrow> False) (resp_content r)"
    "as_stdout ?a = foldl push_line [] (List.map_filter block_text (resp_content r))"
    "as_stderr ?a = []"
    using assemble_foldl_text [OF refl, of assembly_init "resp_content r"]
    by (simp_all add: assembly_init_def)
  then show ?thesis
    by (simp add: assemble_from_frames_def frames_from_response_def assemble_finish_def
        assemble_step_def Let_def)
qed

lemmas assemble_unfold = assemble_from_frames_def assembly_init_def assemble_step_def
  assemble_finish_def Let_def

text \<open>A one-text answer, the shape the runtime tools produce, survives unchanged.\<close>

lemma assemble_text_roundtrip:
  "assemble_from_frames (frames_from_response \<lparr> resp_content = text_content t, resp_is_error = b \<rparr>)
     = \<lparr> resp_content = text_content t, resp_is_error = b \<rparr>"
  by (simp add: frames_from_response_def block_frame_def text_content_def text_block_def
      assemble_unfold push_line_def List.map_filter_def)

text \<open>
  In general it does not: leading empty lines vanish, and several text parts become
  one. And a stream that ends without a terminal folds to a success.
\<close>

lemma assemble_drops_leading_blank_lines:
  "assemble_from_frames [Some (Frame_Stdout []), Some (Frame_Stdout ''a''), Some (Frame_Complete outcome_done 0)]
     = \<lparr> resp_content = text_content ''a'', resp_is_error = False \<rparr>"
  by (simp add: assemble_from_frames_def assembly_init_def assemble_step_def assemble_finish_def
      push_line_def text_content_def Let_def)

lemma assemble_not_inverse:
  "resp_content (assemble_from_frames (frames_from_response
     \<lparr> resp_content = [text_block ''a'', text_block ''b''], resp_is_error = False \<rparr>))
   = [text_block (''a'' @ [newline] @ ''b'')]"
  by (simp add: frames_from_response_def block_frame_def text_content_def text_block_def
      assemble_unfold push_line_def List.map_filter_def)

lemma assemble_no_terminal_is_success:
  assumes "\<forall>f \<in> set frames. case f of Some (Frame_Complete _ _) \<Rightarrow> False | _ \<Rightarrow> True"
  shows "\<not> resp_is_error (assemble_from_frames frames)"
proof -
  have "as_is_error (foldl assemble_step a frames) = as_is_error a" for a
    using assms
    by (induction frames arbitrary: a) (auto simp: assemble_step_def split: option.splits frame.splits)
  then show ?thesis
    by (simp add: assemble_from_frames_def assemble_finish_def assembly_init_def Let_def)
qed

section \<open>Replay\<close>

definition exec_text :: "conv_dir option \<Rightarrow> string" where
  "exec_text d = file_text (Option.bind d cd_exec)"

text \<open>What is persisted of a frame: everything but empty frames and images.\<close>

definition replayable :: "tool_result_frame \<Rightarrow> bool" where
  "replayable f \<longleftrightarrow> (case f of None \<Rightarrow> False | Some (Frame_Image _ _) \<Rightarrow> False | _ \<Rightarrow> True)"

lemma frame_to_record_None: "frame_to_record call_id conv f = None \<longleftrightarrow> \<not> replayable f"
  by (auto simp: frame_to_record_def replayable_def split: option.splits frame.splits)

lemma frame_to_record_Some:
  "frame_to_record call_id conv f = Some rec \<Longrightarrow> er_call_id rec = call_id \<and> record_to_frame (er_body rec) = f"
  by (cases f) (auto simp: frame_to_record_def split: frame.splits)

lemma append_frame_text:
  assumes "frame_to_record call_id conv f = Some rec" "ser rec = Inr line"
    and "append_frame ser conv io call_id f d = (r, d')"
  shows "append_line io line (exec_text d) = (r, exec_text d')"
proof (cases io)
  case (Io_fail e)
  with assms show ?thesis by (simp add: append_frame_def append_line_def)
qed (use assms in \<open>auto simp: append_frame_def append_line_def exec_text_def file_text_def
      empty_dir_def Let_def split: option.splits\<close>)

fun append_frames ::
  "(execution_record \<Rightarrow> string + string) \<Rightarrow> string \<Rightarrow> (string \<times> tool_result_frame) list
   \<Rightarrow> conv_dir option \<Rightarrow> conv_dir option" where
  "append_frames ser conv [] d = d"
| "append_frames ser conv ((call_id, f) # cfs) d =
     append_frames ser conv cfs (snd (append_frame ser conv Io_ok call_id f d))"

definition records_of :: "string \<Rightarrow> (string \<times> tool_result_frame) list \<Rightarrow> execution_record list" where
  "records_of conv cfs = List.map_filter (\<lambda>(c, f). frame_to_record c conv f) cfs"

lemma append_frames_parse:
  assumes "line_codec V ser de" "set (records_of conv cfs) \<subseteq> V" "whole_lines (exec_text d)"
  shows "parse_lines de (exec_text (append_frames ser conv cfs d))
    = parse_lines de (exec_text d) @ records_of conv cfs"
  using assms(2,3)
proof (induction cfs arbitrary: d)
  case (Cons cf cfs)
  obtain c f where cf: "cf = (c, f)" by (cases cf)
  show ?case
  proof (cases "frame_to_record c conv f")
    case None
    then show ?thesis using Cons by (simp add: cf append_frame_def records_of_def)
  next
    case (Some rec)
    then have V: "rec \<in> V" using Cons.prems(1) by (simp add: cf records_of_def)
    with assms(1) obtain line where line: "ser rec = Inr line" by (rule line_codecE)
    obtain r d' where ap: "append_frame ser conv Io_ok c f d = (r, d')"
      by (cases "append_frame ser conv Io_ok c f d")
    have ft: "append_line Io_ok line (exec_text d) = (r, exec_text d')"
      using append_frame_text [OF Some line ap] .
    then have whole: "whole_lines (exec_text d')" and r: "r = Inr ()"
      using append_line_whole [OF Cons.prems(2) ft] by (auto simp: append_line_def)
    then have "parse_lines de (exec_text d') = parse_lines de (exec_text d) @ [rec]"
      using parse_lines_append_line [OF assms(1) V line Cons.prems(2) ft] by simp
    then show ?thesis
      using Cons.IH [of d'] Cons.prems(1) whole ap Some by (simp add: cf records_of_def)
  qed
qed (simp add: records_of_def)

lemma records_of_call:
  "map (\<lambda>r. record_to_frame (er_body r)) (filter (\<lambda>r. er_call_id r = call_id) (records_of conv cfs))
     = map snd (filter (\<lambda>(c, f). c = call_id \<and> replayable f) cfs)"
proof (induction cfs)
  case (Cons cf cfs)
  obtain c f where cf: "cf = (c, f)" by (cases cf)
  show ?case
  proof (cases "frame_to_record c conv f")
    case None
    then show ?thesis using Cons frame_to_record_None [of c conv f] by (simp add: cf records_of_def)
  next
    case (Some rec)
    then show ?thesis
      using Cons frame_to_record_None [of c conv f] frame_to_record_Some [OF Some]
      by (auto simp: cf records_of_def)
  qed
qed (simp add: records_of_def)

text \<open>
  A re-subscriber is served exactly what the call produced: after any
  interleaving of the frames of several calls is appended to a conversation's record,
  reading one call's id gives that call's frames in order, images left out, and
  nothing when the call left none.
\<close>

theorem execution_log_replays:
  assumes "line_codec (set (records_of conv cfs)) ser de"
    and "d = append_frames ser conv cfs None"
  shows "read_frames de True call_id d =
     (let frames = map snd (filter (\<lambda>(c, f). c = call_id \<and> replayable f) cfs)
      in if frames = [] then None else Some frames)"
proof -
  have "parse_lines de (exec_text d) = records_of conv cfs"
    using append_frames_parse [OF assms(1) order_refl, of None] assms(2)
    by (simp add: exec_text_def file_text_def)
  then show ?thesis
    using records_of_call [of call_id conv cfs]
    by (auto simp: read_frames_def exec_text_def file_text_def Let_def split: option.splits)
qed

theorem execution_log_replays_witness:
  "let cfs = [(''c1'', Some (Frame_Stdout ''out'')), (''c2'', Some (Frame_Stdout ''other'')),
              (''c1'', Some (Frame_Image ''image/png'' ''bytes'')), (''c1'', Some (Frame_Complete outcome_done 0))];
       recs = records_of ''conv'' cfs;
       ser = (\<lambda>r. if r = recs ! 0 then Inr ''a'' else if r = recs ! 1 then Inr ''b'' else Inr ''c'');
       de = (\<lambda>t. if t = ''a'' then Inr (recs ! 0) else if t = ''b'' then Inr (recs ! 1) else Inr (recs ! 2));
       d = append_frames ser ''conv'' cfs None
   in line_codec (set recs) ser (de :: string \<Rightarrow> string + execution_record) \<and>
      read_frames de True ''c1'' d = Some [Some (Frame_Stdout ''out''), Some (Frame_Complete outcome_done 0)]"
proof -
  let ?cfs = "[(''c1'', Some (Frame_Stdout ''out'')), (''c2'', Some (Frame_Stdout ''other'')),
              (''c1'', Some (Frame_Image ''image/png'' ''bytes'')), (''c1'', Some (Frame_Complete outcome_done 0))]"
  let ?recs = "records_of ''conv'' ?cfs"
  let ?ser = "(\<lambda>r. if r = ?recs ! 0 then Inr ''a'' else if r = ?recs ! 1 then Inr ''b'' else Inr ''c'')
    :: execution_record \<Rightarrow> string + string"
  let ?de = "(\<lambda>t. if t = ''a'' then Inr (?recs ! 0) else if t = ''b'' then Inr (?recs ! 1) else Inr (?recs ! 2))
    :: string \<Rightarrow> string + execution_record"
  have "trim ''a'' \<noteq> []" "strip_cr ''a'' = ''a''" "trim ''b'' \<noteq> []" "strip_cr ''b'' = ''b''"
    "trim ''c'' \<noteq> []" "strip_cr ''c'' = ''c''" by code_simp+
  then have codec: "line_codec (set ?recs) ?ser ?de"
    by (simp add: line_codec_def records_of_def frame_to_record_def)
  with execution_log_replays [OF codec refl, of "''c1''"] show ?thesis
    by (simp add: Let_def replayable_def)
qed

end
