(* ===== verification/Registry.thy ===== *)
theory Registry
  imports Execution_Log "HOL-Library.AList"
begin

text \<open>
  The conversation registry of a workspace, \<^verbatim>\<open>harness/src/registry.rs\<close>, over the
  conversation directories on disk (\<^verbatim>\<open>LocalFsFactory\<close> of
  \<^verbatim>\<open>harness/src/conversation.rs\<close>). The registry's tables and the disk are one state;
  the UUID parser and the JSON codecs are an argument, and an operation takes the
  clock, the new id and the outcome of its file operation.
\<close>

section \<open>State\<close>

record conversation_meta =
  mt_last_touched_ms :: int
  mt_name :: string
  mt_owner :: string

text \<open>
  An execution-log writer is the id of its conversation; a cancellation token is a
  number, and the tokens that have fired are kept. The disk maps the names of the
  directories under the store's workspace to their contents.
\<close>

record registry =
  rg_logs :: "string \<rightharpoonup> conversation_log"
  rg_exec_logs :: "string \<rightharpoonup> string"
  rg_meta :: "(string \<times> conversation_meta) list"
  rg_turns :: "string \<rightharpoonup> nat"
  rg_fired :: "nat list"
  rg_next_token :: nat
  rg_disk :: "(string \<times> conv_dir) list"

text \<open>What the registry uses of other packages.\<close>

record libs =
  lib_is_uuid :: "string \<Rightarrow> bool"
  lib_ser_meta :: "meta_file \<Rightarrow> string + string"
  lib_de_meta :: "string \<Rightarrow> string + meta_file"
  lib_ser_log :: "log_entry \<Rightarrow> string + string"
  lib_de_log :: "string \<Rightarrow> string + log_entry"
  lib_ser_exec :: "execution_record \<Rightarrow> string + string"
  lib_de_exec :: "string \<Rightarrow> string + execution_record"

definition registry_new :: "(string \<times> conv_dir) list \<Rightarrow> registry" where
  "registry_new disk =
     \<lparr> rg_logs = Map.empty, rg_exec_logs = Map.empty, rg_meta = [], rg_turns = Map.empty,
       rg_fired = [], rg_next_token = 0, rg_disk = disk \<rparr>"

definition default_name_for_conversation :: "string \<Rightarrow> string" where
  "default_name_for_conversation conv_id = take_chars 8 conv_id"

definition validate_conversation_id :: "libs \<Rightarrow> string \<Rightarrow> string + unit" where
  "validate_conversation_id lib conv_id =
     ensure (lib_is_uuid lib conv_id) (''conversation id is not a well-formed UUID: '' @ conv_id)"

text \<open>An operation of the store of one conversation.\<close>

definition put_dir :: "string \<Rightarrow> conv_dir option \<Rightarrow> (string \<times> conv_dir) list \<Rightarrow> (string \<times> conv_dir) list" where
  "put_dir conv_id d disk =
     (case d of Some dir \<Rightarrow> AList.update conv_id dir disk | None \<Rightarrow> AList.delete conv_id disk)"

definition on_store ::
  "string \<Rightarrow> (conv_dir option \<Rightarrow> (string + 'a) \<times> conv_dir option) \<Rightarrow> (registry, string, 'a) stm" where
  "on_store conv_id op reg =
     (case op (map_of (rg_disk reg) conv_id) of
        (r, d') \<Rightarrow> (r, reg\<lparr> rg_disk := put_dir conv_id d' (rg_disk reg) \<rparr>))"

section \<open>Operations\<close>

definition execution_log_for :: "libs \<Rightarrow> string \<Rightarrow> registry \<Rightarrow> string option \<times> registry" where
  "execution_log_for lib conv_id reg =
     (case validate_conversation_id lib conv_id of
        Inl _ \<Rightarrow> (None, reg)
      | Inr _ \<Rightarrow>
          (case rg_exec_logs reg conv_id of
             Some l \<Rightarrow> (Some l, reg)
           | None \<Rightarrow> (Some conv_id, reg\<lparr> rg_exec_logs := (rg_exec_logs reg)(conv_id \<mapsto> conv_id) \<rparr>)))"

definition register_turn :: "string \<Rightarrow> registry \<Rightarrow> nat \<times> registry" where
  "register_turn conv_id reg =
     (rg_next_token reg,
      reg\<lparr> rg_turns := (rg_turns reg)(conv_id \<mapsto> rg_next_token reg),
           rg_next_token := rg_next_token reg + 1 \<rparr>)"

definition end_turn :: "string \<Rightarrow> registry \<Rightarrow> registry" where
  "end_turn conv_id reg = reg\<lparr> rg_turns := (rg_turns reg)(conv_id := None) \<rparr>"

definition cancel :: "string \<Rightarrow> registry \<Rightarrow> bool \<times> registry" where
  "cancel conv_id reg =
     (case rg_turns reg conv_id of
        Some token \<Rightarrow>
          (True, reg\<lparr> rg_turns := (rg_turns reg)(conv_id := None), rg_fired := token # rg_fired reg \<rparr>)
      | None \<Rightarrow> (False, reg))"

definition get_or_create :: "libs \<Rightarrow> string option \<Rightarrow> string \<Rightarrow> (registry, string, conversation_log) stm" where
  "get_or_create lib read_error conv_id =
     bindS (liftS (validate_conversation_id lib conv_id)) (\<lambda>_.
     bindS (getS (\<lambda>reg. rg_logs reg conv_id)) (\<lambda>cached.
     case cached of
       Some c \<Rightarrow> retS c
     | None \<Rightarrow>
         bindS (getS (\<lambda>reg. map_of (rg_disk reg) conv_id)) (\<lambda>d.
         bindS (liftS (rebuild (read_all (lib_de_log lib) read_error d))) (\<lambda>log.
         bindS (modifyS (\<lambda>reg. reg\<lparr> rg_logs := (rg_logs reg)(conv_id \<mapsto> log) \<rparr>)) (\<lambda>_.
         retS log)))))"

definition mint :: "libs \<Rightarrow> io \<Rightarrow> string \<Rightarrow> int \<Rightarrow> string \<Rightarrow> (registry, string, string) stm" where
  "mint lib io uuid now_ms owner =
     (let name = default_name_for_conversation uuid in
      bindS (on_store uuid (write_meta (lib_ser_meta lib) io name owner)) (\<lambda>_.
      bindS (modifyS (\<lambda>reg. reg\<lparr> rg_meta := AList.update uuid
        \<lparr> mt_last_touched_ms = now_ms, mt_name = name, mt_owner = owner \<rparr> (rg_meta reg) \<rparr>)) (\<lambda>_.
      retS uuid)))"

text \<open>\<^verbatim>\<open>get_mut\<close> on the metadata of a known conversation.\<close>

definition with_meta :: "string \<Rightarrow> (conversation_meta \<Rightarrow> conversation_meta) \<Rightarrow> registry \<Rightarrow> registry" where
  "with_meta conv_id f reg =
     (case map_of (rg_meta reg) conv_id of
        Some m \<Rightarrow> reg\<lparr> rg_meta := AList.update conv_id (f m) (rg_meta reg) \<rparr>
      | None \<Rightarrow> reg)"

definition owner_of :: "string \<Rightarrow> registry \<Rightarrow> string option" where
  "owner_of conv_id reg = map_option mt_owner (map_of (rg_meta reg) conv_id)"

definition set_name :: "libs \<Rightarrow> io \<Rightarrow> string \<Rightarrow> string \<Rightarrow> (registry, string, unit) stm" where
  "set_name lib io conv_id new_name =
     bindS (liftS (validate_conversation_id lib conv_id)) (\<lambda>_.
     bindS (getS (\<lambda>reg. case owner_of conv_id reg of Some owner \<Rightarrow> owner | None \<Rightarrow> [])) (\<lambda>owner.
     bindS (on_store conv_id (write_meta (lib_ser_meta lib) io new_name owner)) (\<lambda>_.
     modifyS (with_meta conv_id (\<lambda>m. m\<lparr> mt_name := new_name \<rparr>)))))"

definition delete :: "io \<Rightarrow> string \<Rightarrow> (registry, string, unit) stm" where
  "delete io conv_id =
     bindS (on_store conv_id (delete_all io)) (\<lambda>_.
     modifyS (\<lambda>reg. reg\<lparr> rg_meta := AList.delete conv_id (rg_meta reg),
                         rg_logs := (rg_logs reg)(conv_id := None) \<rparr>))"

definition owns :: "string \<Rightarrow> registry \<Rightarrow> bool" where
  "owns conv_id reg = (map_of (rg_meta reg) conv_id \<noteq> None)"

definition owned_by :: "string \<Rightarrow> string \<Rightarrow> registry \<Rightarrow> bool" where
  "owned_by conv_id owner reg =
     (case map_of (rg_meta reg) conv_id of Some m \<Rightarrow> mt_owner m = owner | None \<Rightarrow> False)"

definition touch :: "int \<Rightarrow> string \<Rightarrow> registry \<Rightarrow> registry" where
  "touch now_ms conv_id = with_meta conv_id (\<lambda>m. m\<lparr> mt_last_touched_ms := now_ms \<rparr>)"

definition list_summaries :: "string \<Rightarrow> registry \<Rightarrow> (string \<times> int \<times> string) list" where
  "list_summaries owner reg =
     map (\<lambda>(i, m). (i, mt_last_touched_ms m, mt_name m))
       (filter (\<lambda>(i, m). mt_owner m = owner) (rg_meta reg))"

text \<open>
  \<^verbatim>\<open>LocalFsFactory::walk_conversations\<close>: whether the directory is there, the error of
  listing it, and the error of reading each sidecar are arguments.
\<close>

definition walk_conversations ::
  "libs \<Rightarrow> bool \<Rightarrow> string option \<Rightarrow> (string \<Rightarrow> string option) \<Rightarrow> (string \<times> conv_dir) list
   \<Rightarrow> string + (string \<times> string \<times> string) list" where
  "walk_conversations lib dir_exists list_error meta_error disk =
     (if \<not> dir_exists then Inr []
      else case list_error of
        Some e \<Rightarrow> Inl e
      | None \<Rightarrow>
          Inr (List.map_filter
            (\<lambda>(conv_id, d). case read_meta (lib_de_meta lib) (meta_error conv_id) (Some d) of
               Inr (Some (name, owner)) \<Rightarrow> Some (conv_id, name, owner)
             | Inr None \<Rightarrow> None
             | Inl _ \<Rightarrow> None) disk))"

definition seed_meta ::
  "(string \<times> conversation_meta) list \<Rightarrow> string \<times> string \<times> string \<Rightarrow> (string \<times> conversation_meta) list" where
  "seed_meta meta p =
     (case p of (conv_id, name, owner) \<Rightarrow>
        (case map_of meta conv_id of
           Some _ \<Rightarrow> meta
         | None \<Rightarrow> AList.update conv_id
             \<lparr> mt_last_touched_ms = 0, mt_name = name, mt_owner = owner \<rparr> meta))"

definition rebuild_from_disk ::
  "libs \<Rightarrow> bool \<Rightarrow> string option \<Rightarrow> (string \<Rightarrow> string option) \<Rightarrow> (registry, string, unit) stm" where
  "rebuild_from_disk lib dir_exists list_error meta_error =
     bindS (getS rg_disk) (\<lambda>disk.
     bindS (liftS (walk_conversations lib dir_exists list_error meta_error disk)) (\<lambda>pairs.
     modifyS (\<lambda>reg. reg\<lparr> rg_meta := foldl seed_meta (rg_meta reg) pairs \<rparr>)))"

section \<open>What a registry records\<close>

text \<open>The abstract directory: each known conversation's name and owner.\<close>

definition directory :: "registry \<Rightarrow> string \<rightharpoonup> string \<times> string" where
  "directory reg conv_id = map_option (\<lambda>m. (mt_name m, mt_owner m)) (map_of (rg_meta reg) conv_id)"

text \<open>The directory the sidecars on disk spell out.\<close>

definition sidecar :: "libs \<Rightarrow> conv_dir option \<Rightarrow> (string \<times> string) option" where
  "sidecar lib d = (case read_meta (lib_de_meta lib) None d of Inr m \<Rightarrow> m | Inl _ \<Rightarrow> None)"

definition disk_directory :: "libs \<Rightarrow> registry \<Rightarrow> string \<rightharpoonup> string \<times> string" where
  "disk_directory lib reg conv_id = sidecar lib (map_of (rg_disk reg) conv_id)"

definition registry_wf :: "libs \<Rightarrow> registry \<Rightarrow> bool" where
  "registry_wf lib reg \<longleftrightarrow>
     distinct (map fst (rg_meta reg)) \<and> distinct (map fst (rg_disk reg)) \<and>
     directory reg = disk_directory lib reg"

text \<open>Documented behaviour of the codec of the sidecar.\<close>

definition meta_codec :: "libs \<Rightarrow> bool" where
  "meta_codec lib \<longleftrightarrow>
     (\<forall>name owner. \<exists>p. lib_ser_meta lib \<lparr> mf_name = name, mf_owner = owner \<rparr> = Inr p \<and>
        lib_de_meta lib p = Inr \<lparr> mf_name = name, mf_owner = owner \<rparr>)"

lemma map_of_put_dir: "distinct (map fst disk) \<Longrightarrow> map_of (put_dir i d disk) = (map_of disk)(i := d)"
  by (cases d) (auto simp: put_dir_def update_conv' delete_conv')

lemma distinct_put_dir: "distinct (map fst disk) \<Longrightarrow> distinct (map fst (put_dir i d disk))"
  by (cases d) (simp_all add: put_dir_def distinct_update distinct_delete)

lemma distinct_with_meta:
  "distinct (map fst (rg_meta reg)) \<Longrightarrow> distinct (map fst (rg_meta (with_meta i f reg)))"
  by (auto simp: with_meta_def distinct_update split: option.splits)

lemma with_meta_other [simp]:
  "rg_disk (with_meta i f reg) = rg_disk reg" "rg_logs (with_meta i f reg) = rg_logs reg"
  "rg_turns (with_meta i f reg) = rg_turns reg" "rg_fired (with_meta i f reg) = rg_fired reg"
  by (auto simp: with_meta_def split: option.splits)

lemma directory_with_meta:
  "directory (with_meta i f reg) = (directory reg)(i := map_option (\<lambda>m. (mt_name (f m), mt_owner (f m)))
     (map_of (rg_meta reg) i))"
  by (auto simp: with_meta_def directory_def update_conv' fun_eq_iff split: option.splits)

lemma owner_of_directory: "owner_of i reg = map_option snd (directory reg i)"
  by (simp add: owner_of_def directory_def option.map_comp comp_def)

lemma owns_directory: "owns i reg \<longleftrightarrow> directory reg i \<noteq> None"
  by (simp add: owns_def directory_def)

lemma owned_by_directory: "owned_by i owner reg \<longleftrightarrow> owner_of i reg = Some owner"
  by (auto simp: owned_by_def owner_of_def split: option.splits)

lemma list_summaries_ids:
  assumes "distinct (map fst (rg_meta reg))"
  shows "i \<in> fst ` set (list_summaries owner reg) \<longleftrightarrow> owner_of i reg = Some owner"
proof -
  have "i \<in> fst ` set (list_summaries owner reg) \<longleftrightarrow> (\<exists>m. (i, m) \<in> set (rg_meta reg) \<and> mt_owner m = owner)"
    by (force simp: list_summaries_def image_iff)
  also have "\<dots> \<longleftrightarrow> owner_of i reg = Some owner"
    using map_of_eq_Some_iff [OF assms] by (auto simp: owner_of_def)
  finally show ?thesis .
qed

section \<open>The sidecar of a store operation\<close>

lemma write_meta_sidecar:
  assumes "meta_codec lib" "write_meta (lib_ser_meta lib) io name owner d = (r, d')"
  shows "sidecar lib d' = (case r of Inr _ \<Rightarrow> Some (name, owner) | Inl _ \<Rightarrow> sidecar lib d)"
proof -
  from assms(1) obtain p where "lib_ser_meta lib \<lparr> mf_name = name, mf_owner = owner \<rparr> = Inr p"
    "lib_de_meta lib p = Inr \<lparr> mf_name = name, mf_owner = owner \<rparr>"
    unfolding meta_codec_def by blast
  with assms(2) show ?thesis
    by (cases io; cases d) (auto simp: write_meta_def sidecar_def read_meta_def empty_dir_def Let_def)
qed

lemma delete_all_sidecar:
  assumes "delete_all io d = (r, d')" "\<And>n e. io \<noteq> Io_torn n e"
  shows "sidecar lib d' = (case r of Inr _ \<Rightarrow> None | Inl _ \<Rightarrow> sidecar lib d)"
  using assms by (cases io; cases d) (auto simp: delete_all_def sidecar_def read_meta_def)

lemma append_event_sidecar: "sidecar lib (snd (append_event ser io l d)) = sidecar lib d"
  by (cases io; cases d)
    (auto simp: append_event_def append_line_def sidecar_def read_meta_def empty_dir_def Let_def
      split: sum.splits)

lemma append_frame_sidecar: "sidecar lib (snd (append_frame ser conv io c f d)) = sidecar lib d"
  by (cases io; cases d)
    (auto simp: append_frame_def append_line_def sidecar_def read_meta_def empty_dir_def Let_def
      split: sum.splits option.splits)

lemma on_store_disk:
  assumes "on_store i op reg = (r, reg')" "distinct (map fst (rg_disk reg))"
    and "\<And>d r d'. op d = (r, d') \<Longrightarrow> sidecar lib d' = upd r (sidecar lib d)"
  shows "disk_directory lib reg' = (disk_directory lib reg)(i := upd r (disk_directory lib reg i))"
    and "rg_meta reg' = rg_meta reg" and "distinct (map fst (rg_disk reg'))"
    and "rg_logs reg' = rg_logs reg"
  using assms
  by (auto simp: on_store_def disk_directory_def map_of_put_dir distinct_put_dir fun_eq_iff
      split: prod.splits)

lemma store_write_meta:
  assumes "meta_codec lib" "on_store i (write_meta (lib_ser_meta lib) io name owner) reg = (r, reg')"
    and "distinct (map fst (rg_disk reg))"
  shows "disk_directory lib reg' = (case r of Inr _ \<Rightarrow> (disk_directory lib reg)(i \<mapsto> (name, owner))
      | Inl _ \<Rightarrow> disk_directory lib reg)"
    and "rg_meta reg' = rg_meta reg" and "distinct (map fst (rg_disk reg'))"
  using on_store_disk [where lib = lib and op = "write_meta (lib_ser_meta lib) io name owner" and
      upd = "\<lambda>r old. case r of Inr _ \<Rightarrow> Some (name, owner) | Inl _ \<Rightarrow> old", OF assms(2,3)]
    write_meta_sidecar [OF assms(1), of io name owner]
  by (auto split: sum.splits)

lemma store_delete_all:
  assumes "on_store i (delete_all io) reg = (r, reg')" "distinct (map fst (rg_disk reg))"
    and "\<And>n e. io \<noteq> Io_torn n e"
  shows "disk_directory lib reg' = (case r of Inr _ \<Rightarrow> (disk_directory lib reg)(i := None)
      | Inl _ \<Rightarrow> disk_directory lib reg)"
    and "rg_meta reg' = rg_meta reg" and "distinct (map fst (rg_disk reg'))"
  using on_store_disk [where lib = lib and op = "delete_all io" and
      upd = "\<lambda>r old. case r of Inr _ \<Rightarrow> None | Inl _ \<Rightarrow> old", OF assms(1,2)]
    delete_all_sidecar [OF _ assms(3), where lib = lib]
  by (auto split: sum.splits)

end
