(* ===== verification/Turn.thy ===== *)
theory Turn
  imports Scrub
begin

text \<open>
  One model turn, \<^verbatim>\<open>harness/src/turn.rs\<close>: the activity frames a stream of turn events
  produces for the client, and the loop that consumes the stream to its terminal.
  The UUID generator is an argument; a stream is the list of what each wait of the
  loop yields, closed where the list ends.
\<close>

section \<open>Activity frames\<close>

text \<open>The last field counts the event ids drawn from the generator.\<close>

record emit_state =
  em_conversation_id :: string
  em_parent_conversation_id :: string
  em_agent_name :: string
  em_text_item :: "string option"
  em_tool_item :: "string option"
  em_text_runs :: nat
  em_event_ids :: nat

definition emit_new :: "string \<Rightarrow> emit_state" where
  "emit_new conversation_id =
     \<lparr> em_conversation_id = conversation_id, em_parent_conversation_id = [], em_agent_name = [],
       em_text_item = None, em_tool_item = None, em_text_runs = 0, em_event_ids = 0 \<rparr>"

definition emit_new_subagent :: "string \<Rightarrow> string \<Rightarrow> string \<Rightarrow> emit_state" where
  "emit_new_subagent conversation_id parent agent =
     (emit_new conversation_id)\<lparr> em_parent_conversation_id := parent, em_agent_name := agent \<rparr>"

definition next_frame :: "(nat \<Rightarrow> string) \<Rightarrow> string \<Rightarrow> phase \<Rightarrow> emit_state \<Rightarrow> stream_item \<times> emit_state" where
  "next_frame uuid item ph st =
     (\<lparr> event_id = uuid (em_event_ids st), item_id = item,
        si_conversation_id = em_conversation_id st, si_phase = Some ph,
        parent_conversation_id = em_parent_conversation_id st, si_agent_name = em_agent_name st \<rparr>,
      st\<lparr> em_event_ids := em_event_ids st + 1 \<rparr>)"

definition stream_items_for ::
  "(nat \<Rightarrow> string) \<Rightarrow> turn_event \<Rightarrow> emit_state \<Rightarrow> stream_item list \<times> emit_state" where
  "stream_items_for uuid event st =
     (case event of
        Some (Event_ContentDelta t) \<Rightarrow>
          if t = [] then ([], st)
          else
            let (frames, item, st) =
              (case em_text_item st of
                 Some i \<Rightarrow> ([], i, st)
               | None \<Rightarrow>
                   let runs = em_text_runs st + 1;
                       i = ''text-'' @ nat_string runs;
                       (f, st) = next_frame uuid i (Phase_Start (Some Kind_Text))
                         (st\<lparr> em_text_runs := runs, em_text_item := Some i \<rparr>)
                   in ([f], i, st));
              (f, st) = next_frame uuid item (Phase_Delta (Some (Kind_TextDelta t))) st
            in (frames @ [f], st)
      | Some (Event_ToolUseStart i name) \<Rightarrow>
          let (frames, st) =
            (case em_text_item st of
               Some t \<Rightarrow>
                 (case next_frame uuid t Phase_Stop (st\<lparr> em_text_item := None \<rparr>) of (f, st) \<Rightarrow> ([f], st))
             | None \<Rightarrow> ([], st));
            (f, st) = next_frame uuid i (Phase_Start (Some (Kind_ToolUse name)))
              (st\<lparr> em_tool_item := Some i \<rparr>)
          in (frames @ [f], st)
      | Some (Event_ToolUseInput partial_json) \<Rightarrow>
          (case em_tool_item st of
             Some i \<Rightarrow>
               (case next_frame uuid i (Phase_Delta (Some (Kind_ToolInputJson partial_json))) st of
                  (f, st) \<Rightarrow> ([f], st))
           | None \<Rightarrow> ([], st))
      | _ \<Rightarrow> ([], st))"

definition scrub_frame :: "scrub_set \<Rightarrow> stream_item \<Rightarrow> stream_item" where
  "scrub_frame scrub f =
     (if is_empty_scrub scrub then f
      else
        (case si_phase f of
           Some (Phase_Start (Some (Kind_ToolUse name))) \<Rightarrow>
             f\<lparr> si_phase := Some (Phase_Start (Some (Kind_ToolUse (apply_scrub scrub name)))) \<rparr>
         | Some (Phase_Delta (Some (Kind_ToolInputJson j))) \<Rightarrow>
             f\<lparr> si_phase := Some (Phase_Delta (Some (Kind_ToolInputJson (apply_scrub scrub j)))) \<rparr>
         | _ \<Rightarrow> f))"

section \<open>Consuming a turn\<close>

text \<open>
  A stop reason outside the enum reads as unspecified.
\<close>

definition stop_reason_try_from :: "int \<Rightarrow> int" where
  "stop_reason_try_from n = (if n \<in> {0, 1, 2, 3} then n else stop_unspecified)"

record turn_result =
  tr_stop_reason :: int
  tr_content :: "content_block list"
  tr_tool_calls :: "tool_call list"

datatype turn_abort = Abort_Ended string | Abort_Cancelled

definition process_turn_event :: "turn_event \<Rightarrow> string + turn_result option" where
  "process_turn_event event =
     (case event of
        Some (Event_Complete stop_reason cont calls) \<Rightarrow>
          Inr (Some \<lparr> tr_stop_reason = stop_reason_try_from stop_reason, tr_content = cont,
                      tr_tool_calls = calls \<rparr>)
      | Some (Event_Error cd msg) \<Rightarrow> Inl (''turn error '' @ int_string cd @ '': '' @ msg)
      | _ \<Rightarrow> Inr None)"

text \<open>What one wait of the loop yields: the token fired, nothing came in time, an error or an event.\<close>

datatype wait = Wait_Cancelled | Wait_Timeout | Wait_Error string | Wait_Event turn_event

fun consume_turn_stream_cancellable ::
  "(nat \<Rightarrow> string) \<Rightarrow> nat \<Rightarrow> scrub_set \<Rightarrow> wait list \<Rightarrow> emit_state
   \<Rightarrow> (turn_abort + turn_result) \<times> stream_item list \<times> emit_state" where
  "consume_turn_stream_cancellable uuid idle_gap scrub [] st =
     (Inl (Abort_Ended ''stream ended without TurnComplete''), [], st)"
| "consume_turn_stream_cancellable uuid idle_gap scrub (Wait_Cancelled # ws) st =
     (Inl Abort_Cancelled, [], st)"
| "consume_turn_stream_cancellable uuid idle_gap scrub (Wait_Timeout # ws) st =
     (Inl (Abort_Ended (''idle timeout: no inference-job progress in '' @ nat_string idle_gap @ ''s'')), [], st)"
| "consume_turn_stream_cancellable uuid idle_gap scrub (Wait_Error e # ws) st =
     (Inl (Abort_Ended e), [], st)"
| "consume_turn_stream_cancellable uuid idle_gap scrub (Wait_Event event # ws) st =
     (case stream_items_for uuid event st of (frames, st1) \<Rightarrow>
        let sent = map (scrub_frame scrub) frames in
        (case process_turn_event event of
           Inl e \<Rightarrow> (Inl (Abort_Ended e), sent, st1)
         | Inr (Some result) \<Rightarrow> (Inr result, sent, st1)
         | Inr None \<Rightarrow>
             (case consume_turn_stream_cancellable uuid idle_gap scrub ws st1 of
                (r, later, st2) \<Rightarrow> (r, sent @ later, st2))))"

section \<open>Framing\<close>

text \<open>
  A client's view of the frames: the items that are open. A delta or a stop must name
  an open item.
\<close>

fun framed :: "string set \<Rightarrow> stream_item list \<Rightarrow> string set option" where
  "framed opened [] = Some opened"
| "framed opened (f # fs) =
     (case si_phase f of
        Some (Phase_Start _) \<Rightarrow> framed (insert (item_id f) opened) fs
      | Some (Phase_Delta _) \<Rightarrow> if item_id f \<in> opened then framed opened fs else None
      | Some Phase_Stop \<Rightarrow> if item_id f \<in> opened then framed (opened - {item_id f}) fs else None
      | None \<Rightarrow> None)"

definition emit_open :: "emit_state \<Rightarrow> string set" where
  "emit_open st = set_option (em_text_item st) \<union> set_option (em_tool_item st)"

definition stamped :: "emit_state \<Rightarrow> stream_item \<Rightarrow> bool" where
  "stamped st f \<longleftrightarrow> si_conversation_id f = em_conversation_id st
     \<and> parent_conversation_id f = em_parent_conversation_id st \<and> si_agent_name f = em_agent_name st"

definition frame_text :: "stream_item \<Rightarrow> string" where
  "frame_text f = (case si_phase f of Some (Phase_Delta (Some (Kind_TextDelta t))) \<Rightarrow> t | _ \<Rightarrow> [])"

definition wait_text :: "wait \<Rightarrow> string" where
  "wait_text w = (case w of Wait_Event (Some (Event_ContentDelta t)) \<Rightarrow> t | _ \<Rightarrow> [])"

lemma framed_append:
  "framed opened (fs @ gs) = Option.bind (framed opened fs) (\<lambda>o'. framed o' gs)"
  by (induction fs arbitrary: opened) (auto split: option.splits phase.splits)

lemma framed_scrub [simp]: "framed opened (map (scrub_frame scrub) fs) = framed opened fs"
proof (induction fs arbitrary: opened)
  case (Cons f fs)
  then show ?case
    by (cases "si_phase f")
      (auto simp: scrub_frame_def split: option.splits phase.splits start_kind.splits delta_kind.splits)
qed simp

lemma scrub_frame_kept [simp]:
  "stamped st (scrub_frame scrub f) = stamped st f" "frame_text (scrub_frame scrub f) = frame_text f"
  "item_id (scrub_frame scrub f) = item_id f"
  by (auto simp: scrub_frame_def stamped_def frame_text_def
      split: option.splits phase.splits start_kind.splits delta_kind.splits)

lemmas emit_simps = stream_items_for_def next_frame_def emit_open_def stamped_def frame_text_def Let_def

lemma stream_items_for_framed:
  assumes "stream_items_for uuid event st = (fs, st')" "emit_open st \<subseteq> opened"
  shows "\<exists>o'. framed opened fs = Some o' \<and> emit_open st' \<subseteq> o'"
  using assms
  by (auto simp: emit_simps split: option.splits turn_event_body.splits if_splits)

lemma stream_items_for_stamped:
  assumes "stream_items_for uuid event st = (fs, st')"
  shows "list_all (stamped st) fs \<and> em_conversation_id st' = em_conversation_id st
    \<and> em_parent_conversation_id st' = em_parent_conversation_id st \<and> em_agent_name st' = em_agent_name st"
  using assms by (auto simp: emit_simps split: option.splits turn_event_body.splits if_splits)

lemma stream_items_for_text:
  assumes "stream_items_for uuid event st = (fs, st')"
  shows "concat (map frame_text fs) = wait_text (Wait_Event event)"
  using assms by (auto simp: emit_simps wait_text_def split: option.splits turn_event_body.splits if_splits)

text \<open>The waits a turn gets to see: up to the first that ends it.\<close>

fun consumed :: "wait list \<Rightarrow> wait list" where
  "consumed [] = []"
| "consumed (w # ws) =
     (case w of
        Wait_Event event \<Rightarrow>
          (case process_turn_event event of Inr None \<Rightarrow> w # consumed ws | _ \<Rightarrow> [w])
      | _ \<Rightarrow> [w])"

lemma consume_frames:
  assumes "consume_turn_stream_cancellable uuid gap scrub ws st = (r, fs, st')"
    and "emit_open st \<subseteq> opened"
  shows "(\<exists>o'. framed opened fs = Some o' \<and> emit_open st' \<subseteq> o') \<and> list_all (stamped st) fs
    \<and> concat (map frame_text fs) = concat (map wait_text (consumed ws))"
  using assms
proof (induction uuid gap scrub ws st arbitrary: r fs st' opened rule: consume_turn_stream_cancellable.induct)
  case (5 uuid gap scrub event ws st)
  obtain fs1 st1 where s: "stream_items_for uuid event st = (fs1, st1)"
    by (cases "stream_items_for uuid event st")
  note first = stream_items_for_framed [OF s 5(3)] stream_items_for_stamped [OF s] stream_items_for_text [OF s]
  have scr: "concat (map frame_text (map (scrub_frame scrub) fs1)) = concat (map frame_text fs1)"
    "list_all (stamped st) (map (scrub_frame scrub) fs1) = list_all (stamped st) fs1"
    by (simp_all add: comp_def list.pred_map)
  show ?case
  proof (cases "process_turn_event event")
    case (Inl e)
    then show ?thesis using 5(2) s first scr by auto
  next
    case (Inr res)
    show ?thesis
    proof (cases res)
      case (Some result)
      then show ?thesis using Inr 5(2) s first scr by auto
    next
      case None
      obtain later st2 where rest: "consume_turn_stream_cancellable uuid gap scrub ws st1 = (r, later, st2)"
        and fs: "fs = map (scrub_frame scrub) fs1 @ later" "st' = st2"
        using 5(2) s Inr None by (auto split: prod.splits)
      from first(1) obtain o1 where o1: "framed opened fs1 = Some o1" "emit_open st1 \<subseteq> o1" by auto
      have "stamped st1 = stamped st" using first(2) by (auto simp: stamped_def fun_eq_iff)
      then show ?thesis
        using 5(1) [OF s [symmetric] refl Inr None rest o1(2)] first scr o1 fs Inr None
        by (auto simp: framed_append)
    qed
  qed
qed (auto simp: wait_text_def)

text \<open>
  C35. What a client is streamed during a turn is well framed: every delta and every
  stop names an item that was started before and is open, every frame carries the
  turn's conversation, parent and agent, and the text deltas spell exactly the text
  the model streamed, whatever the turn ended with and whatever was scrubbed from the
  tool frames.
\<close>

theorem turn_frames_well_framed:
  assumes "consume_turn_stream_cancellable uuid gap scrub ws (emit_new_subagent conv parent agent) = (r, fs, st')"
  shows "framed {} fs \<noteq> None \<and>
    list_all (\<lambda>f. si_conversation_id f = conv \<and> parent_conversation_id f = parent \<and> si_agent_name f = agent) fs \<and>
    concat (map frame_text fs) = concat (map wait_text (consumed ws))"
  using consume_frames [OF assms, of "{}"]
  by (auto simp: emit_open_def emit_new_subagent_def emit_new_def stamped_def list_all_iff)

theorem turn_frames_well_framed_witness:
  "let ws = [Wait_Event (Some (Event_ContentDelta ''hi'')), Wait_Event (Some (Event_ToolUseStart ''t1'' ''Read'')),
             Wait_Event (Some (Event_ToolUseInput ''x'')), Wait_Event (Some (Event_Complete stop_tool_use [] []))];
       (r, fs, st) = consume_turn_stream_cancellable (\<lambda>n. nat_string n) 600 \<lparr> replacements = [] \<rparr> ws (emit_new_subagent ''c'' ''p'' ''a'')
   in length fs = 5 \<and> framed {} fs \<noteq> None \<and> concat (map frame_text fs) = ''hi''"
proof -
  let ?ws = "[Wait_Event (Some (Event_ContentDelta ''hi'')), Wait_Event (Some (Event_ToolUseStart ''t1'' ''Read'')),
             Wait_Event (Some (Event_ToolUseInput ''x'')), Wait_Event (Some (Event_Complete stop_tool_use [] []))]"
  let ?c = "consume_turn_stream_cancellable (\<lambda>n. nat_string n) 600 \<lparr> replacements = [] \<rparr> ?ws (emit_new_subagent ''c'' ''p'' ''a'')"
  obtain r fs st where c: "?c = (r, fs, st)" by (cases ?c)
  have len: "length (fst (snd ?c)) = 5"
    by (simp add: stream_items_for_def next_frame_def emit_new_subagent_def emit_new_def
        process_turn_event_def Let_def)
  have "consumed ?ws = ?ws" by (simp add: process_turn_event_def)
  then show ?thesis
    using turn_frames_well_framed [OF c] c len by (simp add: wait_text_def Let_def)
qed

text \<open>
  A tool item is never stopped, and neither is the text item that is open when the
  turn ends, although the wire contract describes an item as start, deltas, stop.
\<close>

lemma turn_leaves_items_open:
  "let (r, fs, st) = consume_turn_stream_cancellable (\<lambda>n. nat_string n) 600 \<lparr> replacements = [] \<rparr>
         [Wait_Event (Some (Event_ToolUseStart ''t1'' ''Read'')), Wait_Event (Some (Event_ContentDelta ''hi'')),
          Wait_Event (Some (Event_Complete stop_end_turn [] []))] (emit_new ''c'')
   in framed {} fs = Some {''t1'', ''text-'' @ nat_string 1}"
  by (simp add: stream_items_for_def next_frame_def emit_new_def process_turn_event_def
      scrub_frame_def is_empty_scrub_def Let_def insert_commute)

end
