(* ===== verification/Agent.thy ===== *)
theory Agent
  imports Turn Conversation
begin

text \<open>
  The agent loop, \<^verbatim>\<open>harness/src/agent.rs\<close>: one model turn after another, running the
  tools the model calls in between, until the model ends the turn, a limit is reached
  or something fails. What the loop calls (the model client, the tool dispatcher, the
  store behind the log, the clock and the UUID generator) is an environment over an
  arbitrary world; the requests and the frames the loop sends are kept in its state.
\<close>

section \<open>Requests and outcomes\<close>

record turn_request =
  rq_system :: "string option"
  rq_tools :: "tool_definition list"
  rq_messages :: "message list"
  rq_model :: "string option"
  rq_reply_channel_stream :: "string option"
  rq_role :: "int option"
  rq_correlation_id :: "string option"
  rq_conversation_id :: string

record loop_mode =
  lm_reply_channel_stream :: "string option"
  lm_idle_gap :: nat
  lm_grants :: "string \<rightharpoonup> string"

datatype loop_halt = IterationLimit nat | MaxTokens string | UnknownStop int

datatype loop_error = Halt loop_halt | ToolsetRpc string | ToolDispatch string | StreamEnded string
  | Loop_Cancelled

datatype dispatch_abort = Dispatch_Error string | Dispatch_Cancelled

record continuation_ctx =
  cx_system :: "string option"
  cx_tools :: "tool_definition list"
  cx_model :: "string option"
  cx_reply_channel_stream :: "string option"
  cx_conversation_id :: string

definition build_continuation :: "continuation_ctx \<Rightarrow> message list \<Rightarrow> turn_request" where
  "build_continuation ctx messages =
     \<lparr> rq_system = cx_system ctx, rq_tools = cx_tools ctx, rq_messages = messages,
       rq_model = cx_model ctx, rq_reply_channel_stream = cx_reply_channel_stream ctx,
       rq_role = None, rq_correlation_id = None, rq_conversation_id = cx_conversation_id ctx \<rparr>"

fun scope_tag :: "history_scope \<Rightarrow> string option" where
  "scope_tag Orchestrator = None"
| "scope_tag (Delegate call_id parent agent) = Some (''delegate:'' @ call_id)"

definition assistant_message :: "turn_result \<Rightarrow> message" where
  "assistant_message result =
     \<lparr> role = ''assistant'', content = tr_content result, tool_calls = tr_tool_calls result,
       tool_call_id = None, msg_is_error = None \<rparr>"

section \<open>The loop's surroundings\<close>

record 'w agent_env =
  ae_turn :: "turn_request \<Rightarrow> 'w \<Rightarrow> (string + wait list) \<times> 'w"
  ae_cancel_turn :: "string \<Rightarrow> 'w \<Rightarrow> 'w"
  ae_call_tool :: "string \<Rightarrow> string \<Rightarrow> (string \<rightharpoonup> string) \<Rightarrow> string \<Rightarrow> string option \<Rightarrow> string
    \<Rightarrow> 'w \<Rightarrow> (dispatch_abort + call_tool_response) \<times> 'w"
  ae_append :: "log_entry \<Rightarrow> 'w \<Rightarrow> (string + unit) \<times> 'w"
  ae_now :: "'w \<Rightarrow> string"
  ae_uuid :: "nat \<Rightarrow> string"

record 'w loop_state =
  ls_log :: conversation_log
  ls_world :: 'w
  ls_emit :: emit_state
  ls_messages :: "message list"
  ls_requests :: "turn_request list"
  ls_frames :: "stream_item list"

text \<open>What stays fixed over one invocation.\<close>

record loop_params =
  lp_max_iterations :: nat
  lp_ctx :: continuation_ctx
  lp_tag :: "string option"
  lp_attribution :: assistant_attribution
  lp_grants :: "string \<rightharpoonup> string"
  lp_idle_gap :: nat
  lp_scrub :: scrub_set

text \<open>A failed append is logged and otherwise ignored.\<close>

definition persist_assistant :: "'w agent_env \<Rightarrow> loop_params \<Rightarrow> message \<Rightarrow> 'w loop_state \<Rightarrow> 'w loop_state" where
  "persist_assistant env p m st =
     (case append_assistant_tagged (ae_append env) (ae_now env (ls_world st)) m (lp_tag p) (lp_attribution p)
             (ls_log st, ls_world st) of
        (_, log, w) \<Rightarrow> st\<lparr> ls_log := log, ls_world := w \<rparr>)"

definition persist_tool :: "'w agent_env \<Rightarrow> loop_params \<Rightarrow> message \<Rightarrow> 'w loop_state \<Rightarrow> 'w loop_state" where
  "persist_tool env p m st =
     (case append_tagged (ae_append env) (ae_now env (ls_world st)) m (lp_tag p) (ls_log st, ls_world st) of
        (_, log, w) \<Rightarrow> st\<lparr> ls_log := log, ls_world := w \<rparr>)"

definition tool_message :: "tool_call \<Rightarrow> content_block list \<Rightarrow> bool \<Rightarrow> message" where
  "tool_message tc cont is_error =
     \<lparr> role = ''tool'', content = cont, tool_calls = [], tool_call_id = Some (tc_id tc),
       msg_is_error = (if is_error then Some True else None) \<rparr>"

text \<open>The \<^verbatim>\<open>toolset.turn\<close> call.\<close>

definition start_turn :: "'w agent_env \<Rightarrow> turn_request \<Rightarrow> 'w loop_state \<Rightarrow> (string + wait list) \<times> 'w loop_state" where
  "start_turn env req st =
     (case ae_turn env req (ls_world st) of
        (r, w) \<Rightarrow> (r, st\<lparr> ls_world := w, ls_requests := ls_requests st @ [req] \<rparr>))"

text \<open>The inner loop over the tool calls of one turn; \<^const>\<open>False\<close> when the turn was cancelled.\<close>

fun run_tool_calls ::
  "'w agent_env \<Rightarrow> loop_params \<Rightarrow> tool_call list \<Rightarrow> 'w loop_state \<Rightarrow> bool \<times> 'w loop_state" where
  "run_tool_calls env p [] st = (True, st)"
| "run_tool_calls env p (tc # tcs) st =
     (case ae_call_tool env (tc_name tc) (tc_input_json tc) (lp_grants p) (cx_conversation_id (lp_ctx p))
             (cx_reply_channel_stream (lp_ctx p)) (tc_id tc) (ls_world st) of
        (Inl Dispatch_Cancelled, w) \<Rightarrow>
          (False, persist_tool env p (tool_message tc [text_block ''tool call cancelled''] True)
                    (st\<lparr> ls_world := w \<rparr>))
      | (Inl (Dispatch_Error e), w) \<Rightarrow>
          let m = tool_message tc [text_block (''tool call error: '' @ e)] True;
              st1 = persist_tool env p m (st\<lparr> ls_world := w \<rparr>)
          in run_tool_calls env p tcs (st1\<lparr> ls_messages := ls_messages st1 @ [m] \<rparr>)
      | (Inr resp, w) \<Rightarrow>
          let m = tool_message tc (resp_content resp) (resp_is_error resp);
              st1 = persist_tool env p m (st\<lparr> ls_world := w \<rparr>)
          in run_tool_calls env p tcs (st1\<lparr> ls_messages := ls_messages st1 @ [m] \<rparr>))"

definition consume :: "'w agent_env \<Rightarrow> loop_params \<Rightarrow> wait list \<Rightarrow> 'w loop_state
    \<Rightarrow> (turn_abort + turn_result) \<times> 'w loop_state" where
  "consume env p stream st =
     (case consume_turn_stream_cancellable (ae_uuid env) (lp_idle_gap p) (lp_scrub p) stream (ls_emit st) of
        (r, frames, emit) \<Rightarrow> (r, st\<lparr> ls_emit := emit, ls_frames := ls_frames st @ frames \<rparr>))"

text \<open>
  The outer loop. \<open>left\<close> is \<^verbatim>\<open>max_iterations - iterations\<close>, so the counter reaches its
  maximum when one is left.
\<close>

fun llm_rounds ::
  "nat \<Rightarrow> 'w agent_env \<Rightarrow> loop_params \<Rightarrow> wait list \<Rightarrow> 'w loop_state
   \<Rightarrow> (loop_error + string) \<times> 'w loop_state" where
  "llm_rounds left env p stream st =
     (case consume env p stream st of
        (Inl (Abort_Ended e), st1) \<Rightarrow> (Inl (StreamEnded e), st1)
      | (Inl Abort_Cancelled, st1) \<Rightarrow>
          (Inl Loop_Cancelled,
           st1\<lparr> ls_world := ae_cancel_turn env (cx_conversation_id (lp_ctx p)) (ls_world st1) \<rparr>)
      | (Inr result, st1) \<Rightarrow>
          let assistant = assistant_message result in
          if tr_stop_reason result = stop_end_turn then
            (Inr (content_text (tr_content result)), persist_assistant env p assistant st1)
          else if tr_stop_reason result = stop_max_tokens then
            (Inl (Halt (MaxTokens (content_text (tr_content result)))), persist_assistant env p assistant st1)
          else if tr_stop_reason result = stop_tool_use then
            if tr_tool_calls result = [] then
              (Inr (content_text (tr_content result)), persist_assistant env p assistant st1)
            else
              (case left of
                 Suc (Suc n) \<Rightarrow>
                   let st2 = persist_assistant env p assistant st1;
                       st3 = st2\<lparr> ls_messages := ls_messages st2 @ [assistant] \<rparr>
                   in (case run_tool_calls env p (tr_tool_calls result) st3 of
                         (False, st4) \<Rightarrow> (Inl Loop_Cancelled, st4)
                       | (True, st4) \<Rightarrow>
                           (case start_turn env (build_continuation (lp_ctx p) (ls_messages st4)) st4 of
                              (Inl e, st5) \<Rightarrow> (Inl (ToolsetRpc e), st5)
                            | (Inr stream', st5) \<Rightarrow> llm_rounds (Suc n) env p stream' st5))
               | _ \<Rightarrow> (Inl (Halt (IterationLimit (lp_max_iterations p))), st1))
          else (Inl (Halt (UnknownStop (tr_stop_reason result))), st1))"

declare llm_rounds.simps [simp del]

definition initial_emit :: "history_scope \<Rightarrow> string \<Rightarrow> emit_state" where
  "initial_emit scope conversation_id =
     (case scope of
        Delegate call_id parent agent \<Rightarrow> emit_new_subagent conversation_id parent agent
      | Orchestrator \<Rightarrow> emit_new conversation_id)"

definition llm_loop ::
  "nat \<Rightarrow> 'w agent_env \<Rightarrow> conversation_log \<Rightarrow> history_scope \<Rightarrow> assistant_attribution \<Rightarrow> turn_request
   \<Rightarrow> loop_mode \<Rightarrow> scrub_set \<Rightarrow> 'w \<Rightarrow> (loop_error + string) \<times> 'w loop_state" where
  "llm_loop max_iterations env log scope attribution initial_request mode scrub w =
     (let ctx = \<lparr> cx_system = rq_system initial_request, cx_tools = rq_tools initial_request,
            cx_model = rq_model initial_request, cx_reply_channel_stream = lm_reply_channel_stream mode,
            cx_conversation_id = rq_conversation_id initial_request \<rparr>;
          p = \<lparr> lp_max_iterations = max_iterations, lp_ctx = ctx, lp_tag = scope_tag scope,
            lp_attribution = attribution, lp_grants = lm_grants mode, lp_idle_gap = lm_idle_gap mode,
            lp_scrub = scrub \<rparr>;
          st = \<lparr> ls_log = log, ls_world = w, ls_emit = initial_emit scope (rq_conversation_id initial_request),
            ls_messages = rq_messages initial_request, ls_requests = [], ls_frames = [] \<rparr>
      in case start_turn env initial_request st of
           (Inl e, st1) \<Rightarrow> (Inl (ToolsetRpc e), st1)
         | (Inr stream, st1) \<Rightarrow> llm_rounds max_iterations env p stream st1)"

section \<open>What every round keeps\<close>

lemma persist_assistant_kept [simp]:
  "ls_messages (persist_assistant env p m st) = ls_messages st"
  "ls_requests (persist_assistant env p m st) = ls_requests st"
  "ls_frames (persist_assistant env p m st) = ls_frames st"
  "ls_emit (persist_assistant env p m st) = ls_emit st"
  by (simp_all add: persist_assistant_def split: prod.splits)

lemma persist_tool_kept [simp]:
  "ls_messages (persist_tool env p m st) = ls_messages st"
  "ls_requests (persist_tool env p m st) = ls_requests st"
  "ls_frames (persist_tool env p m st) = ls_frames st"
  "ls_emit (persist_tool env p m st) = ls_emit st"
  by (simp_all add: persist_tool_def split: prod.splits)

lemma consume_kept:
  assumes "consume env p stream st = (r, st')"
  shows "ls_messages st' = ls_messages st" "ls_requests st' = ls_requests st" "ls_log st' = ls_log st"
    "ls_world st' = ls_world st"
  using assms by (auto simp: consume_def split: prod.splits)

text \<open>The results of a completed inner loop: one tool message per call, in order.\<close>

definition answers :: "tool_call list \<Rightarrow> message list \<Rightarrow> bool" where
  "answers tcs ms \<longleftrightarrow> list_all2 (\<lambda>tc m. role m = ''tool'' \<and> tool_call_id m = Some (tc_id tc)) tcs ms"

lemma run_tool_calls_messages:
  assumes "run_tool_calls env p tcs st = (ok, st')"
  shows "ls_requests st' = ls_requests st \<and>
    (ok \<longrightarrow> (\<exists>ms. ls_messages st' = ls_messages st @ ms \<and> answers tcs ms))"
  using assms
proof (induction env p tcs st arbitrary: rule: run_tool_calls.induct)
  case (2 env p tc tcs st)
  obtain r w where call: "ae_call_tool env (tc_name tc) (tc_input_json tc) (lp_grants p)
      (cx_conversation_id (lp_ctx p)) (cx_reply_channel_stream (lp_ctx p)) (tc_id tc) (ls_world st) = (r, w)"
    by fastforce
  have step: "ls_requests st' = ls_requests st \<and>
      (ok \<longrightarrow> (\<exists>ms. ls_messages st' = ls_messages st @ ms \<and> answers (tc # tcs) ms))"
    if "ls_requests st' = ls_requests st" "ok \<longrightarrow> (\<exists>ms. ls_messages st' = (ls_messages st @ [m]) @ ms \<and> answers tcs ms)"
      "role m = ''tool''" "tool_call_id m = Some (tc_id tc)" for m
    using that by (auto simp: answers_def)
  show ?case
  proof (cases r)
    case (Inl abort)
    show ?thesis
    proof (cases abort)
      case (Dispatch_Error e)
      with Inl call 2(3) 2(1) [OF call [symmetric] Inl Dispatch_Error refl refl]
      show ?thesis
        by (intro step [where m = "tool_message tc [text_block (''tool call error: '' @ e)] True"])
          (auto simp: Let_def tool_message_def)
    qed (use Inl call 2(3) in auto)
  next
    case (Inr resp)
    with call 2(3) 2(2) [OF call [symmetric] Inr refl refl]
    show ?thesis
      by (intro step [where m = "tool_message tc (resp_content resp) (resp_is_error resp)"])
        (auto simp: Let_def tool_message_def)
  qed
qed (simp add: answers_def)

text \<open>The log only grows, by entries with the tag of the loop's scope.\<close>

definition extends :: "loop_params \<Rightarrow> 'w loop_state \<Rightarrow> 'w loop_state \<Rightarrow> entry list \<Rightarrow> bool" where
  "extends p st st' es \<longleftrightarrow>
     entries (ls_log st') = entries (ls_log st) @ es \<and> list_all (\<lambda>e. e_tag e = lp_tag p) es"

lemma extends_trans: "extends p st st1 es \<Longrightarrow> extends p st1 st2 fs \<Longrightarrow> extends p st st2 (es @ fs)"
  by (simp add: extends_def)

lemma extends_cong:
  "ls_log st1' = ls_log st1 \<Longrightarrow> ls_log st2' = ls_log st2 \<Longrightarrow> extends p st1' st2' es = extends p st1 st2 es"
  by (simp add: extends_def)

definition append_ok :: "'w agent_env \<Rightarrow> bool" where
  "append_ok env \<longleftrightarrow> (\<forall>l w. fst (ae_append env l w) = Inr ())"

lemma push_entry_extends:
  assumes "push_entry app e ld = (r, log', w')"
  shows "entries log' = entries (fst ld) @ (case r of Inr _ \<Rightarrow> [e] | Inl _ \<Rightarrow> [])
    \<and> ((\<forall>l w. fst (app l w) = Inr ()) \<longrightarrow> r = Inr ())"
proof -
  obtain log w where ld: "ld = (log, w)" by (cases ld)
  obtain r0 w0 where ap: "app (entry_to_log_entry e) w = (r0, w0)" by fastforce
  then have "(\<forall>l w. fst (app l w) = Inr ()) \<longrightarrow> r0 = Inr ()" by (metis fst_conv)
  then show ?thesis using assms ld ap by (cases r0) (auto simp: push_entry_def)
qed

lemma persist_assistant_extends:
  assumes "role m = ''assistant''" "tool_calls m \<noteq> [] \<or> content m \<noteq> []"
  shows "\<exists>es. extends p st (persist_assistant env p m st) es \<and> (append_ok env \<longrightarrow> map e_message es = [m])"
proof -
  let ?e = "\<lparr> e_ts = ae_now env (ls_world st), e_message = m, e_tag = lp_tag p, e_attribution = lp_attribution p \<rparr>"
  obtain r log w where push: "push_entry (ae_append env) ?e (ls_log st, ls_world st) = (r, log, w)"
    by (cases "push_entry (ae_append env) ?e (ls_log st, ls_world st)")
  have "persist_assistant env p m st = st\<lparr> ls_log := log, ls_world := w \<rparr>"
    using assms push by (auto simp: persist_assistant_def append_assistant_tagged_def)
  then show ?thesis
    using push_entry_extends [OF push] by (cases r) (auto simp: extends_def append_ok_def)
qed

lemma persist_assistant_extends_any: "\<exists>es. extends p st (persist_assistant env p (assistant_message result) st) es"
proof (cases "tr_tool_calls result \<noteq> [] \<or> tr_content result \<noteq> []")
  case True
  then show ?thesis
    using persist_assistant_extends [of "assistant_message result" p st env] by (auto simp: assistant_message_def)
next
  case False
  then have "persist_assistant env p (assistant_message result) st = st"
    by (simp add: persist_assistant_def append_assistant_tagged_def assistant_message_def)
  then show ?thesis by (intro exI [of _ "[]"]) (simp add: extends_def)
qed

lemma persist_tool_extends:
  "\<exists>es. extends p st (persist_tool env p (tool_message tc c b) st) es
     \<and> (append_ok env \<longrightarrow> map e_message es = [tool_message tc c b])"
proof -
  let ?m = "tool_message tc c b"
  let ?e = "\<lparr> e_ts = ae_now env (ls_world st), e_message = ?m, e_tag = lp_tag p, e_attribution = default_attribution \<rparr>"
  obtain r log w where push: "push_entry (ae_append env) ?e (ls_log st, ls_world st) = (r, log, w)"
    by (cases "push_entry (ae_append env) ?e (ls_log st, ls_world st)")
  have "persist_tool env p ?m st = st\<lparr> ls_log := log, ls_world := w \<rparr>"
    using push by (auto simp: persist_tool_def append_tagged_def tool_message_def)
  then show ?thesis
    using push_entry_extends [OF push] by (cases r) (auto simp: extends_def append_ok_def)
qed

lemma run_tool_calls_extends:
  assumes "run_tool_calls env p tcs st = (ok, st')"
  shows "\<exists>es. extends p st st' es \<and> (append_ok env \<and> ok \<longrightarrow> ls_messages st' = ls_messages st @ map e_message es)"
  using assms
proof (induction env p tcs st rule: run_tool_calls.induct)
  case (1 env p st)
  then show ?case by (intro exI [of _ "[]"]) (simp add: extends_def)
next
  case (2 env p tc tcs st)
  obtain r w where call: "ae_call_tool env (tc_name tc) (tc_input_json tc) (lp_grants p)
      (cx_conversation_id (lp_ctx p)) (cx_reply_channel_stream (lp_ctx p)) (tc_id tc) (ls_world st) = (r, w)"
    by fastforce
  have step: ?case if m: "m = tool_message tc c b"
    and rest: "\<exists>es. extends p (st1\<lparr> ls_messages := ls_messages st1 @ [m] \<rparr>) st' es \<and>
      (append_ok env \<and> ok \<longrightarrow> ls_messages st' = ls_messages (st1\<lparr> ls_messages := ls_messages st1 @ [m] \<rparr>)
        @ map e_message es)"
    and st1: "st1 = persist_tool env p m (st\<lparr> ls_world := w \<rparr>)" for m c b st1
  proof -
    obtain es where es: "extends p (st\<lparr> ls_world := w \<rparr>) st1 es" "append_ok env \<longrightarrow> map e_message es = [m]"
      using persist_tool_extends [of p "st\<lparr> ls_world := w \<rparr>" env tc c b] m st1 by auto
    obtain fs where fs: "extends p (st1\<lparr> ls_messages := ls_messages st1 @ [m] \<rparr>) st' fs"
      "append_ok env \<and> ok \<longrightarrow> ls_messages st' = (ls_messages st @ [m]) @ map e_message fs"
      using rest st1 by auto
    have "extends p st st' (es @ fs)"
      using extends_trans [of p "st\<lparr> ls_world := w \<rparr>" st1 es st' fs] es fs by (simp add: extends_def)
    then show ?thesis using es fs by auto
  qed
  show ?case
  proof (cases r)
    case (Inl abort)
    show ?thesis
    proof (cases abort)
      case (Dispatch_Error e)
      with Inl call 2(3) 2(1) [OF call [symmetric] Inl Dispatch_Error refl refl]
      show ?thesis
        by (intro step [OF refl _ refl, where c = "[text_block (''tool call error: '' @ e)]" and b = True])
          (auto simp: Let_def)
    next
      case Dispatch_Cancelled
      then show ?thesis
        using Inl call 2(3) persist_tool_extends [of p "st\<lparr> ls_world := w \<rparr>" env tc] by (auto simp: extends_def)
    qed
  next
    case (Inr resp)
    with call 2(3) 2(2) [OF call [symmetric] Inr refl refl]
    show ?thesis
      by (intro step [OF refl _ refl, where c = "resp_content resp" and b = "resp_is_error resp"])
        (auto simp: Let_def)
  qed
qed

text \<open>How a round goes on, if it does.\<close>

lemma llm_rounds_cases:
  assumes "llm_rounds n env p stream st = (r, st')"
  obtains (stop) es where "ls_requests st' = ls_requests st" "extends p st st' es"
  | (continue) k result st1 st3 st4 r5 st5 where "n = Suc (Suc k)"
      "consume env p stream st = (Inr result, st1)" "tr_tool_calls result \<noteq> []"
      "st3 = (persist_assistant env p (assistant_message result) st1)
         \<lparr> ls_messages := ls_messages st1 @ [assistant_message result] \<rparr>"
      "run_tool_calls env p (tr_tool_calls result) st3 = (True, st4)"
      "start_turn env (build_continuation (lp_ctx p) (ls_messages st4)) st4 = (r5, st5)"
      "case r5 of Inl e \<Rightarrow> st' = st5 | Inr stream' \<Rightarrow> llm_rounds (Suc k) env p stream' st5 = (r, st')"
proof -
  obtain c st1 where c: "consume env p stream st = (c, st1)" by fastforce
  note kept = consume_kept [OF c]
  show thesis
  proof (cases c)
    case (Inl abort)
    then show thesis using assms c kept
      by (intro stop [of "[]"]) (cases abort; auto simp: llm_rounds.simps extends_def)+
  next
    case (Inr result)
    let ?a = "assistant_message result"
    let ?st3 = "(persist_assistant env p ?a st1)\<lparr> ls_messages := ls_messages st1 @ [?a] \<rparr>"
    obtain ok st4 where run: "run_tool_calls env p (tr_tool_calls result) ?st3 = (ok, st4)" by fastforce
    obtain r5 st5 where turn: "start_turn env (build_continuation (lp_ctx p) (ls_messages st4)) st4 = (r5, st5)"
      by fastforce
    show thesis
    proof (cases "tr_stop_reason result = stop_tool_use \<and> tr_tool_calls result \<noteq> [] \<and> ok \<and> 2 \<le> n")
      case True
      then obtain k where n: "n = Suc (Suc k)" by (metis Suc_le_D numeral_2_eq_2 Suc_le_mono)
      have "case r5 of Inl e \<Rightarrow> st' = st5 | Inr stream' \<Rightarrow> llm_rounds (Suc k) env p stream' st5 = (r, st')"
        using assms c Inr n True run turn
        by (subst (asm) llm_rounds.simps) (auto simp: Let_def split: sum.splits)
      with n c Inr True run turn show thesis by (intro continue [of k result st1 ?st3 st4 r5 st5]) auto
    next
      case False
      have "ls_requests st4 = ls_requests st" using run_tool_calls_messages [OF run] kept by simp
      moreover obtain es where es: "extends p st1 (persist_assistant env p ?a st1) es"
        using persist_assistant_extends_any by blast
      moreover obtain fs where "extends p ?st3 st4 fs" using run_tool_calls_extends [OF run] by blast
      then have "extends p st1 st4 (es @ fs)"
        using extends_trans [of p st1 "persist_assistant env p ?a st1" es st4 fs] es by (simp add: extends_def)
      moreover have "extends p st1 st1 []" by (simp add: extends_def)
      ultimately have "ls_requests st' = ls_requests st \<and> (\<exists>es. extends p st1 st' es)"
        using False assms c Inr run kept
        by (subst (asm) llm_rounds.simps) (auto simp: Let_def split: if_splits nat.splits bool.splits)
      then show thesis using kept by (auto intro: stop simp: extends_def)
    qed
  qed
qed

section \<open>The provider sees a valid history\<close>

text \<open>
  What a provider requires of the messages it is sent: the results of an assistant
  message's tool calls follow it at once, one per call in the same order, there is no
  tool result elsewhere, and nobody else calls tools.
\<close>

fun paired :: "message list \<Rightarrow> bool" where
  "paired [] = True"
| "paired (m # ms) =
     (if tool_calls m \<noteq> [] then
        role m = ''assistant'' \<and> length (tool_calls m) \<le> length ms \<and> answers (tool_calls m) (take (length (tool_calls m)) ms)
        \<and> paired (drop (length (tool_calls m)) ms)
      else role m \<noteq> ''tool'' \<and> paired ms)"

lemma paired_append: "paired xs \<Longrightarrow> paired (xs @ ys) \<longleftrightarrow> paired ys"
  by (induction xs rule: paired.induct) (auto split: if_splits)

lemma paired_round:
  assumes "paired ms" "answers (tr_tool_calls result) rs"
  shows "paired (ms @ assistant_message result # rs)"
proof -
  have "length rs = length (tr_tool_calls result)" using assms(2) by (auto simp: answers_def list_all2_lengthD)
  with assms show ?thesis
    by (auto simp: paired_append assistant_message_def answers_def)
qed

lemma build_continuation_fields [simp]:
  "rq_messages (build_continuation ctx ms) = ms" "rq_model (build_continuation ctx ms) = cx_model ctx"
  "rq_system (build_continuation ctx ms) = cx_system ctx" "rq_tools (build_continuation ctx ms) = cx_tools ctx"
  "rq_conversation_id (build_continuation ctx ms) = cx_conversation_id ctx"
  by (simp_all add: build_continuation_def)

lemma start_turn_simps:
  assumes "start_turn env req st = (r, st')"
  shows "ls_requests st' = ls_requests st @ [req]" "ls_messages st' = ls_messages st" "ls_log st' = ls_log st"
  using assms by (auto simp: start_turn_def split: prod.splits)

text \<open>The requests of a run after the first; \<open>P\<close> says whether the messages so far are valid.\<close>

lemma llm_rounds_requests:
  assumes "llm_rounds n env p stream st = (r, st')" "P \<longrightarrow> paired (ls_messages st)"
  shows "\<exists>qs. ls_requests st' = ls_requests st @ qs \<and> length qs \<le> n - 1 \<and>
    list_all (\<lambda>q. (\<exists>ms. q = build_continuation (lp_ctx p) ms) \<and> (P \<longrightarrow> paired (rq_messages q))) qs"
  using assms
proof (induction n arbitrary: stream st)
  case (Suc n)
  from Suc.prems(1) show ?case
  proof (cases rule: llm_rounds_cases)
    case (continue k result st1 st3 st4 r5 st5)
    let ?q = "build_continuation (lp_ctx p) (ls_messages st4)"
    obtain rs where "ls_messages st4 = ls_messages st3 @ rs" "answers (tr_tool_calls result) rs"
      and req4: "ls_requests st4 = ls_requests st"
      using run_tool_calls_messages [OF continue(5)] consume_kept [OF continue(2)] continue(4) by auto
    then have pm: "P \<longrightarrow> paired (ls_messages st4)"
      using paired_round [of "ls_messages st" result rs] Suc.prems(2) consume_kept [OF continue(2)] continue(4)
      by simp
    have q: "(\<exists>ms. ?q = build_continuation (lp_ctx p) ms) \<and> (P \<longrightarrow> paired (rq_messages ?q))"
      using pm by auto
    note t = start_turn_simps [OF continue(6)]
    show ?thesis
    proof (cases r5)
      case (Inl e)
      then show ?thesis using continue(1,7) t req4 q by (intro exI [of _ "[?q]"]) auto
    next
      case (Inr stream')
      then have "llm_rounds n env p stream' st5 = (r, st')" using continue(1,7) by simp
      from Suc.IH [OF this] obtain qs where "ls_requests st' = ls_requests st5 @ qs" "length qs \<le> n - 1"
        "list_all (\<lambda>q. (\<exists>ms. q = build_continuation (lp_ctx p) ms) \<and> (P \<longrightarrow> paired (rq_messages q))) qs"
        using t pm by auto
      then show ?thesis using continue(1) t req4 q by (intro exI [of _ "?q # qs"]) auto
    qed
  qed auto
next
  case 0
  from 0(1) show ?case by (cases rule: llm_rounds_cases) auto
qed

lemma llm_loop_requests:
  assumes "llm_loop max_iterations env log scope attribution initial mode scrub w = (r, st)"
  shows "\<exists>qs. ls_requests st = initial # qs \<and> length qs \<le> max_iterations - 1 \<and>
    list_all (\<lambda>q. rq_model q = rq_model initial \<and> rq_system q = rq_system initial \<and> rq_tools q = rq_tools initial
      \<and> rq_conversation_id q = rq_conversation_id initial
      \<and> (paired (rq_messages initial) \<longrightarrow> paired (rq_messages q))) qs"
proof -
  let ?ctx = "\<lparr> cx_system = rq_system initial, cx_tools = rq_tools initial, cx_model = rq_model initial,
     cx_reply_channel_stream = lm_reply_channel_stream mode, cx_conversation_id = rq_conversation_id initial \<rparr>"
  let ?st = "\<lparr> ls_log = log, ls_world = w, ls_emit = initial_emit scope (rq_conversation_id initial),
     ls_messages = rq_messages initial, ls_requests = [], ls_frames = [] \<rparr>"
  obtain r0 st0 where t: "start_turn env initial ?st = (r0, st0)" by fastforce
  note kept = start_turn_simps [OF t]
  show ?thesis
  proof (cases r0)
    case (Inl e)
    then show ?thesis using assms t kept by (auto simp: llm_loop_def Let_def)
  next
    case (Inr stream)
    then obtain p where "llm_rounds max_iterations env p stream st0 = (r, st)" and ctx: "lp_ctx p = ?ctx"
      using assms t by (auto simp: llm_loop_def Let_def)
    from llm_rounds_requests [OF this(1), of "paired (rq_messages initial)"] obtain qs
      where qs: "ls_requests st = initial # qs" "length qs \<le> max_iterations - 1"
      "list_all (\<lambda>q. (\<exists>ms. q = build_continuation ?ctx ms) \<and>
          (paired (rq_messages initial) \<longrightarrow> paired (rq_messages q))) qs"
      using kept ctx by auto
    then show ?thesis by (intro exI [of _ qs]) (auto simp: list_all_iff)
  qed
qed

text \<open>
  C5. Every request the loop sends is one the provider accepts, if the first is:
  each tool result stands right behind the assistant message that asked for it.
\<close>

theorem llm_loop_requests_paired:
  assumes "paired (rq_messages initial)"
    and "llm_loop max_iterations env log scope attribution initial mode scrub w = (r, st)"
  shows "list_all (\<lambda>q. paired (rq_messages q)) (ls_requests st)"
  using llm_loop_requests [OF assms(2)] assms(1) by (auto simp: list_all_iff)

text \<open>
  A scripted environment: the model plays the given streams, every tool answers but
  one that is cancelled, and every append succeeds.
\<close>

definition scripted_env :: "wait list list agent_env" where
  "scripted_env =
     \<lparr> ae_turn = (\<lambda>_ w. case w of [] \<Rightarrow> (Inl ''no more turns'', []) | s # ss \<Rightarrow> (Inr s, ss)),
       ae_cancel_turn = (\<lambda>_ w. w),
       ae_call_tool = (\<lambda>name _ _ _ _ _ w.
         (if name = ''Slow'' then Inl Dispatch_Cancelled
          else Inr \<lparr> resp_content = text_content ''ok'', resp_is_error = False \<rparr>, w)),
       ae_append = (\<lambda>_ w. (Inr (), w)), ae_now = (\<lambda>_. ''now''), ae_uuid = (\<lambda>_. ''event'') \<rparr>"

definition sample_request :: turn_request where
  "sample_request =
     \<lparr> rq_system = None, rq_tools = [], rq_messages = [\<lparr> role = ''user'', content = text_content ''hi'',
         tool_calls = [], tool_call_id = None, msg_is_error = None \<rparr>],
       rq_model = Some ''m'', rq_reply_channel_stream = None, rq_role = None, rq_correlation_id = None,
       rq_conversation_id = ''c'' \<rparr>"

definition sample_mode :: loop_mode where
  "sample_mode = \<lparr> lm_reply_channel_stream = None, lm_idle_gap = 600, lm_grants = Map.empty \<rparr>"

abbreviation sample_run :: "wait list list \<Rightarrow> (loop_error + string) \<times> wait list list loop_state" where
  "sample_run streams \<equiv> llm_loop 16 scripted_env log_new Orchestrator default_attribution sample_request
     sample_mode \<lparr> replacements = [] \<rparr> streams"

lemmas run_simps = llm_loop_def llm_rounds.simps start_turn_def scripted_env_def sample_request_def
  sample_mode_def consume_def stream_items_for_def process_turn_event_def stop_reason_try_from_def
  initial_emit_def assistant_message_def tool_message_def persist_assistant_def persist_tool_def
  append_assistant_tagged_def append_tagged_def push_entry_def build_continuation_def log_new_def

theorem llm_loop_requests_paired_witness:
  "let streams = [[Wait_Event (Some (Event_Complete stop_tool_use [] [\<lparr> tc_id = ''t1'', tc_name = ''Read'', tc_input_json = ''x'' \<rparr>]))],
                  [Wait_Event (Some (Event_Complete stop_end_turn (text_content ''done'') []))]]
   in length (ls_requests (snd (sample_run streams))) = 2 \<and>
      list_all (\<lambda>q. paired (rq_messages q)) (ls_requests (snd (sample_run streams)))"
proof -
  let ?streams = "[[Wait_Event (Some (Event_Complete stop_tool_use [] [\<lparr> tc_id = ''t1'', tc_name = ''Read'', tc_input_json = ''x'' \<rparr>]))],
                  [Wait_Event (Some (Event_Complete stop_end_turn (text_content ''done'') []))]]"
  obtain r st where run: "sample_run ?streams = (r, st)" by fastforce
  have "paired (rq_messages sample_request)" by (simp add: sample_request_def)
  from llm_loop_requests_paired [OF this run] have "list_all (\<lambda>q. paired (rq_messages q)) (ls_requests st)" .
  moreover have "length (ls_requests (snd (sample_run ?streams))) = 2"
    by (simp add: run_simps Let_def)
  ultimately show ?thesis by (simp add: run)
qed

text \<open>
  C30. The loop is bounded and keeps to one configuration: it asks the model at most
  as often as the given limit (and at least once), and every request names the model,
  system prompt, tools and conversation of the first.
\<close>

theorem llm_loop_bounded:
  "case llm_loop max_iterations env log scope attribution initial mode scrub w of (r, st) \<Rightarrow>
     1 \<le> length (ls_requests st) \<and> length (ls_requests st) \<le> max 1 max_iterations \<and>
     list_all (\<lambda>q. rq_model q = rq_model initial \<and> rq_system q = rq_system initial
       \<and> rq_tools q = rq_tools initial \<and> rq_conversation_id q = rq_conversation_id initial) (ls_requests st)"
proof -
  obtain r st where run: "llm_loop max_iterations env log scope attribution initial mode scrub w = (r, st)"
    by fastforce
  from llm_loop_requests [OF this] show ?thesis by (auto simp: run list_all_iff)
qed

section \<open>The log holds what the provider was sent\<close>

lemma llm_rounds_logged:
  assumes "llm_rounds n env p stream st = (r, st')" "append_ok env"
  shows "\<exists>es. extends p st st' es \<and> (ls_requests st' = ls_requests st \<or>
    (\<exists>k. rq_messages (last (ls_requests st')) = ls_messages st @ map e_message (take k es)))"
  using assms(1)
proof (induction n arbitrary: stream st)
  case (Suc n)
  from Suc.prems show ?case
  proof (cases rule: llm_rounds_cases)
    case (continue k result st1 st3 st4 r5 st5)
    let ?q = "build_continuation (lp_ctx p) (ls_messages st4)"
    note kept = consume_kept [OF continue(2)]
    obtain es where es: "extends p st1 (persist_assistant env p (assistant_message result) st1) es"
      "map e_message es = [assistant_message result]"
      using persist_assistant_extends [of "assistant_message result" p st1 env] assms(2) continue(3)
      by (auto simp: assistant_message_def)
    obtain fs where fs: "extends p st3 st4 fs" "ls_messages st4 = ls_messages st3 @ map e_message fs"
      using run_tool_calls_extends [OF continue(5)] assms(2) by auto
    have ext: "extends p st st4 (es @ fs)"
      using es(1) fs(1) kept(3) continue(4) by (simp add: extends_def)
    have msgs: "ls_messages st4 = ls_messages st @ map e_message (es @ fs)"
      using es(2) fs(2) kept(1) continue(4) by simp
    note t = start_turn_simps [OF continue(6)]
    show ?thesis
    proof (cases r5)
      case (Inl e)
      then show ?thesis using continue(7) t ext msgs
        by (intro exI [of _ "es @ fs"] conjI disjI2 exI [of _ "length (es @ fs)"]) (auto simp: extends_def)
    next
      case (Inr stream')
      then have "llm_rounds n env p stream' st5 = (r, st')" using continue(1,7) by simp
      from Suc.IH [OF this] obtain gs where gs: "extends p st5 st' gs" "ls_requests st' = ls_requests st5 \<or>
        (\<exists>k. rq_messages (last (ls_requests st')) = ls_messages st5 @ map e_message (take k gs))" by blast
      have "extends p st st' ((es @ fs) @ gs)" using ext gs(1) t by (simp add: extends_def)
      moreover have "\<exists>k. rq_messages (last (ls_requests st')) = ls_messages st @ map e_message (take k ((es @ fs) @ gs))"
        using gs(2)
      proof
        assume "ls_requests st' = ls_requests st5"
        then show ?thesis using t msgs by (intro exI [of _ "length (es @ fs)"]) simp
      next
        assume "\<exists>k. rq_messages (last (ls_requests st')) = ls_messages st5 @ map e_message (take k gs)"
        then obtain k where "rq_messages (last (ls_requests st')) = ls_messages st5 @ map e_message (take k gs)" ..
        then show ?thesis using t msgs by (intro exI [of _ "length (es @ fs) + k"]) simp
      qed
      ultimately show ?thesis by blast
    qed
  qed auto
next
  case 0
  from 0(1) show ?case by (cases rule: llm_rounds_cases) auto
qed

text \<open>
  C29. A turn can be resumed from its log: when appends succeed, the log only grows, by
  entries tagged with the turn's scope, and everything the last request added to the
  first request's messages is in the log, in order, before anything else the turn
  added.
\<close>

theorem llm_loop_log_holds_history:
  assumes "\<forall>l w. fst (ae_append env l w) = Inr ()"
    and "llm_loop max_iterations env log scope attribution initial mode scrub w = (r, st)"
  shows "\<exists>added k. entries (ls_log st) = entries log @ added \<and>
    list_all (\<lambda>e. e_tag e = scope_tag scope) added \<and>
    rq_messages (last (ls_requests st)) = rq_messages initial @ map e_message (take k added)"
proof -
  let ?st = "\<lparr> ls_log = log, ls_world = w, ls_emit = initial_emit scope (rq_conversation_id initial),
     ls_messages = rq_messages initial, ls_requests = [], ls_frames = [] \<rparr>"
  obtain r0 st0 where t: "start_turn env initial ?st = (r0, st0)" by fastforce
  note kept = start_turn_simps [OF t]
  show ?thesis
  proof (cases r0)
    case (Inl e)
    then show ?thesis using assms(2) t kept
      by (intro exI [of _ "[]"] exI [of _ 0]) (auto simp: llm_loop_def Let_def)
  next
    case (Inr stream)
    then obtain p where run: "llm_rounds max_iterations env p stream st0 = (r, st)" "lp_tag p = scope_tag scope"
      using assms(2) t by (auto simp: llm_loop_def Let_def)
    from llm_rounds_logged [OF run(1)] assms(1) obtain es where es: "extends p st0 st es"
      "ls_requests st = ls_requests st0 \<or>
       (\<exists>k. rq_messages (last (ls_requests st)) = ls_messages st0 @ map e_message (take k es))"
      by (auto simp: append_ok_def)
    then obtain k where "rq_messages (last (ls_requests st)) = rq_messages initial @ map e_message (take k es)"
      using kept by (metis (no_types) append_Nil append_Nil2 last.simps list.simps(8) loop_state.select_convs(4,5) take0)
    then show ?thesis using es(1) run(2) kept by (auto simp: extends_def)
  qed
qed

theorem llm_loop_log_holds_history_witness:
  "let streams = [[Wait_Event (Some (Event_Complete stop_tool_use [] [\<lparr> tc_id = ''t1'', tc_name = ''Read'', tc_input_json = ''x'' \<rparr>]))],
                  [Wait_Event (Some (Event_Complete stop_end_turn (text_content ''done'') []))]];
       st = snd (sample_run streams)
   in length (entries (ls_log st)) = 3 \<and>
      (\<exists>k. rq_messages (last (ls_requests st)) = rq_messages sample_request @ map e_message (take k (entries (ls_log st))))"
proof -
  let ?streams = "[[Wait_Event (Some (Event_Complete stop_tool_use [] [\<lparr> tc_id = ''t1'', tc_name = ''Read'', tc_input_json = ''x'' \<rparr>]))],
                  [Wait_Event (Some (Event_Complete stop_end_turn (text_content ''done'') []))]]"
  obtain r st where run: "sample_run ?streams = (r, st)" by fastforce
  have "\<forall>l w. fst (ae_append scripted_env l w) = Inr ()" by (simp add: scripted_env_def)
  from llm_loop_log_holds_history [OF this run]
  have "\<exists>k. rq_messages (last (ls_requests st)) = rq_messages sample_request @ map e_message (take k (entries (ls_log st)))"
    by (auto simp: log_new_def)
  moreover have "length (entries (ls_log (snd (sample_run ?streams)))) = 3"
    by (simp add: run_simps text_content_def Let_def)
  ultimately show ?thesis by (simp add: run)
qed

text \<open>
  The log itself is not always left valid. A turn that stops at its token limit after
  opening a tool call is persisted with the call and without a result, and a turn
  cancelled in the first of two calls is persisted with a result for the first only.
\<close>

lemma max_tokens_leaves_unpaired_call:
  "let st = snd (sample_run [[Wait_Event (Some (Event_Complete stop_max_tokens []
       [\<lparr> tc_id = ''t1'', tc_name = ''Read'', tc_input_json = ''x'' \<rparr>]))]])
   in \<not> paired (history (ls_log st))"
  by (simp add: run_simps history_def Let_def)

lemma cancel_leaves_unpaired_call:
  "let st = snd (sample_run [[Wait_Event (Some (Event_Complete stop_tool_use []
       [\<lparr> tc_id = ''t1'', tc_name = ''Slow'', tc_input_json = ''x'' \<rparr>,
        \<lparr> tc_id = ''t2'', tc_name = ''Read'', tc_input_json = ''x'' \<rparr>]))]])
   in length (history (ls_log st)) = 2 \<and> \<not> paired (history (ls_log st))"
  by (simp add: run_simps history_def Let_def)

end
