(* ===== verification/Framework_Tools.thy ===== *)
theory Framework_Tools
  imports Proto Agent
begin

text \<open>
  The tools the harness defines itself: the catalog entries of the runtime tools,
  \<^verbatim>\<open>harness/src/runtime_tools.rs\<close>, the tools that run on the user's device,
  \<^verbatim>\<open>harness/src/channel_stream_tools.rs\<close>, and the approval a model's tool call is put to,
  \<^verbatim>\<open>harness/src/tool_approval.rs\<close>. The JSON printer and parser are arguments, as is the
  relay: what it answers a request with.
\<close>

section \<open>Runtime tools\<close>

definition READ_INSTRUCTIONS_TOOL_NAME :: string where
  "READ_INSTRUCTIONS_TOOL_NAME = ''ReadInstructions''"

definition DISPATCH_AGENT_TOOL_NAME :: string where
  "DISPATCH_AGENT_TOOL_NAME = ''DispatchAgent''"

definition LIST_INSTRUCTIONS_TOOL_NAME :: string where
  "LIST_INSTRUCTIONS_TOOL_NAME = ''ListInstructions''"

definition THINK_TOOL_NAME :: string where
  "THINK_TOOL_NAME = ''Think''"

definition RECENT_TURNS_TOOL_NAME :: string where
  "RECENT_TURNS_TOOL_NAME = ''RecentTurns''"

definition REVEAL_PATH :: string where
  "REVEAL_PATH = ''RevealPath''"

definition REQUEST_USER_INPUT :: string where
  "REQUEST_USER_INPUT = ''RequestUserInput''"

definition REQUEST_USER_AUTH :: string where
  "REQUEST_USER_AUTH = ''RequestUserAuth''"

definition em_dash :: string where
  "em_dash = [CHR 0xE2, CHR 0x80, CHR 0x94]"

text \<open>The schemas are JSON objects, whose keys are kept in order.\<close>

definition schema_property :: "string \<Rightarrow> string \<Rightarrow> json" where
  "schema_property ty description =
     JObject [(''description'', JString description), (''type'', JString ty)]"

definition object_schema :: "(string \<times> json) list \<Rightarrow> string list \<Rightarrow> json" where
  "object_schema properties required =
     JObject [(''properties'', JObject properties), (''required'', JArray (map JString required)),
       (''type'', JString ''object'')]"

definition runtime_tool_definitions :: "(json \<Rightarrow> string) \<Rightarrow> tool_info list" where
  "runtime_tool_definitions print =
     [\<lparr> ti_toolset = [], ti_name = READ_INSTRUCTIONS_TOOL_NAME,
         ti_description = ''Read a file from the workspace instruction tree by relative path and ''
           @ ''return its contents. Optional 1-based `offset`/`limit` line numbers ''
           @ ''return only that window of lines.'',
         ti_parameters_json = print (object_schema
           [(''limit'', schema_property ''integer'' (''Max number of lines to return from `offset`; omit for the rest of the ''
              @ ''file.'')),
            (''offset'', schema_property ''integer'' (''1-based first line to return; omit to start at the top.'')),
            (''path'', schema_property ''string'' (''Relative path of the file within the workspace instruction tree ''
              @ ''(nested paths allowed).''))] [''path'']) \<rparr>,
      \<lparr> ti_toolset = [], ti_name = DISPATCH_AGENT_TOOL_NAME,
         ti_description = ''Dispatch a sub-turn defined by an instruction file: load the file at ''
           @ ''the given path, use its body as the system prompt, and run the query ''
           @ ''against the model and tools its frontmatter names. Returns the ''
           @ ''sub-turn's final response text.'',
         ti_parameters_json = print (object_schema
           [(''path'', schema_property ''string'' (''Relative path of the instruction file to dispatch (nested paths ''
              @ ''allowed).'')),
            (''query'', schema_property ''string'' (''The question or instruction to send to the dispatched sub-turn.''))] [''path'', ''query'']) \<rparr>,
      \<lparr> ti_toolset = [], ti_name = LIST_INSTRUCTIONS_TOOL_NAME,
         ti_description = ''List the file paths available in this workspace's instruction tree, ''
           @ ''as a flat sorted array of relative paths.'',
         ti_parameters_json = print (object_schema
           [] []) \<rparr>,
      \<lparr> ti_toolset = [], ti_name = THINK_TOOL_NAME,
         ti_description = ''Record a brief observation or piece of reasoning mid-run without ''
           @ ''taking any external action. Use this in place of any narrative remark ''
           @ ''you would otherwise emit as plain text ''
           @ em_dash
           @ '' a classification sentence, a counter assignment, a reason a file is ''
           @ ''unclassifiable, a brief plan for the next step. The runtime treats ''
           @ ''every assistant turn as a tool call; routing your narration through ''
           @ ''this tool keeps the loop progressing.'',
         ti_parameters_json = print (object_schema
           [(''note'', schema_property ''string'' (''The observation or reasoning to record.''))] [''note'']) \<rparr>,
      \<lparr> ti_toolset = [], ti_name = RECENT_TURNS_TOOL_NAME,
         ti_description = ''Read the most recent turns of the current conversation ''
           @ ''(oldest-to-newest). Read-only ''
           @ em_dash
           @ '' use it to recall earlier context in a long thread. Optional `limit` ''
           @ ''caps how many recent turns are returned.'',
         ti_parameters_json = print (object_schema
           [(''limit'', schema_property ''integer'' (''Max number of recent turns to return; omit for all.''))] []) \<rparr>]"

definition channel_stream_tool_definitions :: "tool_info list" where
  "channel_stream_tool_definitions =
     [\<lparr> ti_toolset = [], ti_name = REVEAL_PATH,
         ti_description = ''Open the workspace browser pane at the given path on the user's ''
           @ ''device. Fire-and-forget ''
           @ em_dash
           @ '' does not wait for the user.'',
         ti_parameters_json =
           join [newline]
             [''{'',
              ''  \"type\": \"object\",'',
              ''  \"required\": [\"path\"],'',
              ''  \"properties\": {'',
              ''    \"path\": { \"type\": \"string\", \"description\": \"Absolute path within ''
                @ ''the workspace (e.g., ''
                @ [CHR 0x5C]
                @ ''\"/target-files/clients/acme''
                @ [CHR 0x5C]
                @ ''\").\" }'',
              ''  }'',
              ''}''] \<rparr>,
      \<lparr> ti_toolset = [], ti_name = REQUEST_USER_INPUT,
         ti_description = ''Ask the user a question with a closed set of options (approval, ''
           @ ''choice, confirmation, input, clarification). Blocks until the user ''
           @ ''responds.'',
         ti_parameters_json =
           join [newline]
             [''{'',
              ''  \"type\": \"object\",'',
              ''  \"required\": [\"prompt\", \"actions\"],'',
              ''  \"properties\": {'',
              ''    \"prompt\": { \"type\": \"string\" },'',
              ''    \"actions\": {'',
              ''      \"type\": \"array\",'',
              ''      \"items\": {'',
              ''        \"type\": \"object\",'',
              ''        \"required\": [\"id\", \"label\"],'',
              ''        \"properties\": {'',
              ''          \"id\": { \"type\": \"string\" },'',
              ''          \"label\": { \"type\": \"string\" }'',
              ''        }'',
              ''      }'',
              ''    }'',
              ''  }'',
              ''}''] \<rparr>,
      \<lparr> ti_toolset = [], ti_name = REQUEST_USER_AUTH,
         ti_description = ''Ask the user to complete an out-of-band auth flow at the given URL. ''
           @ ''Blocks until the callback fires or the user cancels.'',
         ti_parameters_json =
           join [newline]
             [''{'',
              ''  \"type\": \"object\",'',
              ''  \"required\": [\"prompt\", \"url\"],'',
              ''  \"properties\": {'',
              ''    \"prompt\": { \"type\": \"string\" },'',
              ''    \"url\": { \"type\": \"string\" },'',
              ''    \"expires_at\": { \"type\": \"string\", \"description\": \"Optional RFC ''
                @ ''3339 expiry.\" }'',
              ''  }'',
              ''}''] \<rparr>]"

section \<open>Requests to the client\<close>

datatype server_request_outcome = Outcome_Result string | Outcome_Error int string | Outcome_TimedOut
  | Outcome_UnknownChannelStream | Outcome_UnsupportedMethod

text \<open>The client's reading of the relay's answer to a server request.\<close>

definition response_outcome :: "server_request_response \<Rightarrow> server_request_outcome" where
  "response_outcome resp =
     (if ssr_timed_out resp then Outcome_TimedOut
      else if ssr_unknown_channel_stream resp then Outcome_UnknownChannelStream
      else if ssr_unsupported_method resp then Outcome_UnsupportedMethod
      else (case ssr_error resp of
          Some (cd, msg) \<Rightarrow> Outcome_Error cd msg
        | None \<Rightarrow> Outcome_Result (ssr_result_json resp)))"

text \<open>
  A relay handle: \<^verbatim>\<open>send_server_notification(workspace, method, params)\<close> and
  \<^verbatim>\<open>send_server_request_and_await(workspace, request_id, method, params, timeout)\<close>.
\<close>

record relay_rpc =
  rr_notify :: "string \<Rightarrow> string \<Rightarrow> string \<Rightarrow> string + bool"
  rr_request :: "string \<Rightarrow> string \<Rightarrow> string \<Rightarrow> string \<Rightarrow> nat \<Rightarrow> string + server_request_outcome"

datatype kind = Notification | Request

definition kind_of :: "string \<Rightarrow> kind option" where
  "kind_of name =
     (if name = REVEAL_PATH then Some Notification
      else if name = REQUEST_USER_INPUT \<or> name = REQUEST_USER_AUTH then Some Request
      else None)"

definition error_response :: "string \<Rightarrow> call_tool_response" where
  "error_response t = \<lparr> resp_content = [text_block t], resp_is_error = True \<rparr>"

definition ok_response :: "string \<Rightarrow> call_tool_response" where
  "ok_response t = \<lparr> resp_content = [text_block t], resp_is_error = False \<rparr>"

definition outcome_to_tool_response :: "string \<Rightarrow> server_request_outcome \<Rightarrow> call_tool_response" where
  "outcome_to_tool_response meth outcome =
     (case outcome of
        Outcome_Result json \<Rightarrow> ok_response json
      | Outcome_Error cd msg \<Rightarrow>
          error_response (''{\"code\":'' @ int_string cd @ '',\"message\":'' @ debug_str msg @ ''}'')
      | Outcome_TimedOut \<Rightarrow>
          error_response (''client did not respond to `'' @ meth @ ''` within the server-side timeout'')
      | Outcome_UnknownChannelStream \<Rightarrow> error_response ''client channel stream is no longer registered''
      | Outcome_UnsupportedMethod \<Rightarrow> error_response (''client did not advertise `'' @ meth @ ''`''))"

definition channel_stream_dispatch ::
  "string \<Rightarrow> string \<Rightarrow> relay_rpc \<Rightarrow> string option \<Rightarrow> string \<Rightarrow> string \<Rightarrow> string + call_tool_response" where
  "channel_stream_dispatch name input_json gateway reply_channel_stream call_id workspace =
     (case reply_channel_stream of
        None \<Rightarrow>
          Inr (error_response (''channel-stream tool `'' @ name
            @ ''` requires a connected client; this turn has no reply_channel_stream''))
      | Some _ \<Rightarrow>
          and_then (ok_or (''unknown channel-stream tool: '' @ name) (kind_of name)) (\<lambda>k.
          case k of
            Notification \<Rightarrow>
              and_then (rr_notify gateway workspace name input_json) (\<lambda>delivered.
              Inr (if delivered then
                     ok_response (''{\"dispatched\":true,\"method\":\"'' @ name @ ''\"}'')
                   else
                     error_response (''client did not advertise `'' @ name
                       @ ''`; the notification was not delivered'')))
          | Request \<Rightarrow>
              and_then (rr_request gateway workspace call_id name input_json 30) (\<lambda>outcome.
              Inr (outcome_to_tool_response name outcome))))"

section \<open>Approval\<close>

definition APPROVAL_METHOD :: string where
  "APPROVAL_METHOD = ''RequestToolApproval''"

definition APPROVAL_TIMEOUT_SECONDS :: nat where
  "APPROVAL_TIMEOUT_SECONDS = 300"

definition DENIED :: string where
  "DENIED = ''The user denied this tool call. Do not retry it. Wait for the user.''"

definition NO_ANSWER :: string where
  "NO_ANSWER = ''The user did not answer in time. This tool call was denied. ''
     @ ''Do not retry it. Wait for the user.''"

datatype approval = Approved | Refused call_tool_response

definition unadvertised :: string where
  "unadvertised = ''client did not advertise `'' @ APPROVAL_METHOD @ ''`''"

definition refused :: "string \<Rightarrow> approval" where
  "refused t = Refused (error_response t)"

definition is_approval :: "(string \<Rightarrow> string + json) \<Rightarrow> string \<Rightarrow> bool" where
  "is_approval parse result_json =
     (case parse result_json of
        Inr (JObject obj) \<Rightarrow> map_of obj ''approved'' = Some (JBool True)
      | _ \<Rightarrow> False)"

text \<open>
  \<^verbatim>\<open>ask\<close>: \<open>cancelled\<close> is whether the turn's token fires before the relay answers.
\<close>

definition ask ::
  "(json \<Rightarrow> string) \<Rightarrow> (string \<Rightarrow> string + json) \<Rightarrow> relay_rpc option \<Rightarrow> string \<Rightarrow> bool \<Rightarrow> string
   \<Rightarrow> string \<Rightarrow> string \<Rightarrow> dispatch_abort + approval" where
  "ask print parse relay uuid cancelled workspace tool input_json =
     (case relay of
        None \<Rightarrow> Inr (refused unadvertised)
      | Some rpc \<Rightarrow>
          if cancelled then Inl Dispatch_Cancelled
          else
            let params_json = print (JObject [(''input'', JString input_json), (''tool'', JString tool)]) in
            and_then (map_err Dispatch_Error
              (rr_request rpc workspace uuid APPROVAL_METHOD params_json APPROVAL_TIMEOUT_SECONDS)) (\<lambda>outcome.
            Inr (case outcome of
                Outcome_Result json \<Rightarrow> if is_approval parse json then Approved else refused DENIED
              | Outcome_Error _ _ \<Rightarrow> refused DENIED
              | Outcome_TimedOut \<Rightarrow> refused NO_ANSWER
              | Outcome_UnsupportedMethod \<Rightarrow> refused unadvertised
              | Outcome_UnknownChannelStream \<Rightarrow> refused unadvertised)))"

lemma is_approval_iff:
  "is_approval parse json \<longleftrightarrow> (\<exists>obj. parse json = Inr (JObject obj) \<and> map_of obj ''approved'' = Some (JBool True))"
  by (auto simp: is_approval_def split: sum.splits json.splits)

lemma ask_approved_iff:
  "ask print parse relay uuid cancelled workspace tool input_json = Inr Approved \<longleftrightarrow>
     (\<exists>rpc json. relay = Some rpc \<and> \<not> cancelled
        \<and> rr_request rpc workspace uuid APPROVAL_METHOD
            (print (JObject [(''input'', JString input_json), (''tool'', JString tool)]))
            APPROVAL_TIMEOUT_SECONDS = Inr (Outcome_Result json)
        \<and> is_approval parse json)"
proof (cases relay)
  case (Some rpc)
  let ?r = "rr_request rpc workspace uuid APPROVAL_METHOD
    (print (JObject [(''input'', JString input_json), (''tool'', JString tool)])) APPROVAL_TIMEOUT_SECONDS"
  show ?thesis
  proof (cases ?r)
    case (Inr outcome)
    then show ?thesis using Some
      by (cases outcome) (auto simp: ask_def Let_def refused_def)
  qed (use Some in \<open>auto simp: ask_def Let_def\<close>)
qed (simp add: ask_def refused_def)

lemma ask_refusal_is_error:
  assumes "ask print parse relay uuid cancelled workspace tool input_json = Inr (Refused refusal)"
  shows "resp_is_error refusal"
proof (cases relay)
  case (Some rpc)
  let ?r = "rr_request rpc workspace uuid APPROVAL_METHOD
    (print (JObject [(''input'', JString input_json), (''tool'', JString tool)])) APPROVAL_TIMEOUT_SECONDS"
  show ?thesis
  proof (cases ?r)
    case (Inr outcome)
    then show ?thesis using Some assms
      by (cases outcome) (auto simp: ask_def Let_def refused_def error_response_def split: if_splits)
  qed (use Some assms in \<open>auto simp: ask_def Let_def split: if_splits\<close>)
qed (use assms in \<open>auto simp: ask_def refused_def error_response_def\<close>)

end
