(* ===== verification/Tool_Router.thy ===== *)
theory Tool_Router
  imports Framework_Tools Registry Toolset_Config
begin

text \<open>
  The tool router, \<^verbatim>\<open>harness/src/tool_router.rs\<close>: the catalog of a workspace's tools, the
  dispatch of a model's call with its approval, and the calls a client dispatches,
  awaits and cancels. The tool-job dispatcher and the runtime tools are arguments:
  each is a function over an arbitrary world.
\<close>

section \<open>The catalog\<close>

datatype source = Source_Toolset | Source_Runtime | Source_ChannelStream

record catalog_entry =
  ce_info :: tool_info
  ce_source :: source
  ce_args :: "arg_decl list"
  ce_grants :: "string \<rightharpoonup> capability_grant"

abbreviation ce_name :: "catalog_entry \<Rightarrow> string" where
  "ce_name e \<equiv> ti_name (ce_info e)"

text \<open>\<^verbatim>\<open>job::is_reserved_env\<close>.\<close>

definition is_reserved_env :: "string \<Rightarrow> bool" where
  "is_reserved_env name \<longleftrightarrow> name = ''HOME'' \<or> starts_with name ''TOOLSET_''"

fun clash_tools :: "tool_decl list \<Rightarrow> string list \<Rightarrow> string option" where
  "clash_tools [] builtin = None"
| "clash_tools (tool # tools) builtin =
     (if tl_name tool \<in> set builtin then Some (''tool '' @ tl_name tool @ '' is a built-in tool'')
      else
        (case find (\<lambda>a. is_reserved_env (ad_env a)) (tl_args tool) of
           Some arg \<Rightarrow> Some (''tool '' @ tl_name tool @ '' arg '' @ ad_name arg
                         @ '' maps to reserved env '' @ ad_env arg)
         | None \<Rightarrow> clash_tools tools builtin))"

definition clash :: "toolset_entry \<Rightarrow> string list \<Rightarrow> string option" where
  "clash entry builtin = clash_tools (te_tools entry) builtin"

text \<open>
  The live sessions of client calls are the frames seen so far; \<open>rt_dispatch\<close> is
  whether a tool-job dispatcher is attached.
\<close>

record router =
  rt_workspace :: string
  rt_tools :: "catalog_entry list"
  rt_scope :: "string list"
  rt_grants :: "string \<rightharpoonup> (string \<rightharpoonup> capability_grant)"
  rt_calls :: "string \<rightharpoonup> tool_result_frame list"
  rt_dispatch :: bool

definition framework_entry :: "source \<Rightarrow> tool_info \<Rightarrow> catalog_entry" where
  "framework_entry s t = \<lparr> ce_info = t, ce_source = s, ce_args = [], ce_grants = Map.empty \<rparr>"

text \<open>\<^verbatim>\<open>ToolRouter::new\<close>; \<^const>\<open>None\<close> is the panic on a duplicate framework tool.\<close>

definition router_new :: "(json \<Rightarrow> string) \<Rightarrow> string \<Rightarrow> router option" where
  "router_new print workspace =
     (let tools = map (framework_entry Source_Runtime) (runtime_tool_definitions print)
            @ map (framework_entry Source_ChannelStream) channel_stream_tool_definitions
      in if distinct (map ce_name tools)
         then Some \<lparr> rt_workspace = workspace, rt_tools = sort_key ce_name tools, rt_scope = [],
                rt_grants = Map.empty, rt_calls = Map.empty, rt_dispatch = False \<rparr>
         else None)"

definition with_dispatch :: "router \<Rightarrow> router" where
  "with_dispatch r = r\<lparr> rt_dispatch := True \<rparr>"

definition with_toolset_scope ::
  "string list \<Rightarrow> (string \<rightharpoonup> (string \<rightharpoonup> capability_grant)) \<Rightarrow> router \<Rightarrow> router" where
  "with_toolset_scope toolsets grants r = r\<lparr> rt_scope := toolsets, rt_grants := grants \<rparr>"

definition toolset_catalog_entry ::
  "(json \<Rightarrow> string) \<Rightarrow> string \<Rightarrow> (string \<rightharpoonup> capability_grant) \<Rightarrow> tool_decl \<Rightarrow> catalog_entry" where
  "toolset_catalog_entry print name grants t =
     \<lparr> ce_info = \<lparr> ti_toolset = name, ti_name = tl_name t, ti_description = tl_description t,
         ti_parameters_json = print (parameters_json t) \<rparr>,
       ce_source = Source_Toolset, ce_args = tl_args t, ce_grants = grants \<rparr>"

fun apply_scope ::
  "(json \<Rightarrow> string) \<Rightarrow> toolset_config \<Rightarrow> (string \<rightharpoonup> (string \<rightharpoonup> capability_grant)) \<Rightarrow> string list
   \<Rightarrow> string list \<Rightarrow> catalog_entry list \<times> string list \<Rightarrow> catalog_entry list \<times> string list" where
  "apply_scope print tbl grants builtin [] acc = acc"
| "apply_scope print tbl grants builtin (name # names) (next_tools, warnings) =
     (case tbl name of
        None \<Rightarrow> apply_scope print tbl grants builtin names (next_tools, warnings)
      | Some entry \<Rightarrow>
          (case clash entry builtin of
             Some reason \<Rightarrow>
               apply_scope print tbl grants builtin names
                 (next_tools, warnings @ [''toolset '' @ name @ '' left out: '' @ reason])
           | None \<Rightarrow>
               let gs = (case grants name of Some g \<Rightarrow> g | None \<Rightarrow> Map.empty) in
               apply_scope print tbl grants builtin names
                 (next_tools @ map (toolset_catalog_entry print name gs) (te_tools entry), warnings)))"

definition apply_toolsets :: "(json \<Rightarrow> string) \<Rightarrow> toolset_config \<Rightarrow> router \<Rightarrow> string list \<times> router" where
  "apply_toolsets print tbl r =
     (let kept = filter (\<lambda>e. ce_source e \<noteq> Source_Toolset) (rt_tools r);
          builtin = map ce_name kept;
          (next_tools, warnings) = apply_scope print tbl (rt_grants r) builtin (rt_scope r) (kept, [])
      in (warnings, r\<lparr> rt_tools := sort_key ce_name next_tools \<rparr>))"

definition entry_definition :: "catalog_entry \<Rightarrow> tool_definition" where
  "entry_definition e = \<lparr> td_name = ce_name e, td_description = ti_description (ce_info e),
     td_parameters_json = ti_parameters_json (ce_info e) \<rparr>"

definition tool_definitions :: "router \<Rightarrow> tool_definition list" where
  "tool_definitions r = map entry_definition (rt_tools r)"

definition tool_definitions_scoped :: "string list option \<Rightarrow> router \<Rightarrow> tool_definition list" where
  "tool_definitions_scoped agent_tools r =
     (case agent_tools of
        None \<Rightarrow> tool_definitions r
      | Some names \<Rightarrow>
          map entry_definition
            (filter (\<lambda>e. ce_source e \<noteq> Source_Toolset \<or> list_ex (\<lambda>n. n = ce_name e) names) (rt_tools r)))"

definition find_tool :: "string \<Rightarrow> router \<Rightarrow> catalog_entry option" where
  "find_tool name r = find (\<lambda>e. ce_name e = name) (rt_tools r)"

definition source_of :: "string \<Rightarrow> router \<Rightarrow> source option" where
  "source_of name r = map_option ce_source (find_tool name r)"

definition toolset_of :: "string \<Rightarrow> router \<Rightarrow> string option" where
  "toolset_of name r = map_option (\<lambda>e. ti_toolset (ce_info e)) (find_tool name r)"

definition args_for :: "string \<Rightarrow> router \<Rightarrow> arg_decl list option" where
  "args_for name r = map_option ce_args (find_tool name r)"

definition grants_for :: "string \<Rightarrow> router \<Rightarrow> (string \<rightharpoonup> capability_grant) option" where
  "grants_for name r = map_option ce_grants (find_tool name r)"

section \<open>A model's call\<close>

definition squote :: string where
  "squote = [CHR 0x27]"

fun arg_error_string :: "arg_validation_error \<Rightarrow> string" where
  "arg_error_string (NotJson e) = ''input is not valid JSON: '' @ e"
| "arg_error_string NotObject = ''input must be a JSON object''"
| "arg_error_string (UnknownField field declared) =
     ''unknown input field '' @ squote @ field @ squote @ '' (declared: '' @ declared @ '')''"
| "arg_error_string (MissingRequired f) = ''missing required input field '' @ squote @ f @ squote"
| "arg_error_string (WrongType field expected) =
     ''input field '' @ squote @ field @ squote @ '' has wrong type (expected '' @ expected @ '')''"

definition is_terminal_frame :: "tool_result_frame \<Rightarrow> bool" where
  "is_terminal_frame f \<longleftrightarrow> (case f of Some (Frame_Complete _ _) \<Rightarrow> True | _ \<Rightarrow> False)"

text \<open>A consumer's loop over a frame stream: up to and with the first terminal.\<close>

fun drain :: "tool_result_frame list \<Rightarrow> tool_result_frame list" where
  "drain [] = []"
| "drain (f # fs) = (if is_terminal_frame f then [f] else f # drain fs)"

text \<open>
  What the router calls: the dispatcher's \<^verbatim>\<open>begin_call\<close> gives a call id and the frames that
  will arrive on its stream; \<open>dp_append\<close> appends a frame to a conversation's execution
  log, ignoring failures; \<open>dp_runtime\<close> runs a runtime tool.
\<close>

record 'w dispatchers =
  dp_begin_call :: "string \<Rightarrow> string \<Rightarrow> (string \<rightharpoonup> string) \<Rightarrow> (string \<times> capability_grant) option
    \<Rightarrow> 'w \<Rightarrow> (string + string \<times> tool_result_frame list) \<times> 'w"
  dp_fire_call_cancel :: "string \<Rightarrow> 'w \<Rightarrow> 'w"
  dp_append :: "string \<Rightarrow> string \<Rightarrow> tool_result_frame \<Rightarrow> 'w \<Rightarrow> 'w"
  dp_runtime :: "string \<Rightarrow> string \<Rightarrow> string \<Rightarrow> string option \<Rightarrow> 'w \<Rightarrow> (dispatch_abort + call_tool_response) \<times> 'w"

text \<open>
  The first half of \<^verbatim>\<open>dispatch_toolset_in_process\<close>: the toolset, the environment the
  arguments map to and the selected grant, or why there is none.
\<close>

definition resolve_toolset_call ::
  "(string \<Rightarrow> string + json) \<Rightarrow> string \<Rightarrow> string \<Rightarrow> (string \<rightharpoonup> string) \<Rightarrow> router
   \<Rightarrow> string + string \<times> (string \<rightharpoonup> string) \<times> (string \<times> capability_grant) option" where
  "resolve_toolset_call parse name input_json grants r =
     and_then (ok_or (''no toolset for tool '' @ name) (toolset_of name r)) (\<lambda>toolset_name.
     and_then (map_err arg_error_string
       (validate_call_input parse input_json (case args_for name r of Some as \<Rightarrow> as | None \<Rightarrow> []))) (\<lambda>env_args.
     let toolset_grants = (case grants_for name r of Some gs \<Rightarrow> gs | None \<Rightarrow> Map.empty) in
     case grants toolset_name of
       None \<Rightarrow> Inr (toolset_name, env_args, None)
     | Some grant_name \<Rightarrow>
         and_then (ok_or (''selected grant '' @ grant_name @ '' is not in the '' @ toolset_name @ '' toolset grants'')
           (toolset_grants grant_name)) (\<lambda>grant.
         Inr (toolset_name, env_args, Some (grant_name, grant)))))"

definition dispatch_toolset_in_process ::
  "(string \<Rightarrow> string + json) \<Rightarrow> 'w dispatchers \<Rightarrow> bool \<Rightarrow> router \<Rightarrow> string \<Rightarrow> string \<Rightarrow> (string \<rightharpoonup> string)
   \<Rightarrow> string \<Rightarrow> 'w \<Rightarrow> (dispatch_abort + call_tool_response) \<times> 'w" where
  "dispatch_toolset_in_process parse dp cancelled r name input_json grants conversation_id w =
     (case resolve_toolset_call parse name input_json grants r of
        Inl e \<Rightarrow> (Inl (Dispatch_Error e), w)
      | Inr (toolset_name, env_args, grant_pair) \<Rightarrow>
          (case dp_begin_call dp name toolset_name env_args grant_pair w of
             (Inl e, w1) \<Rightarrow> (Inl (Dispatch_Error e), w1)
           | (Inr (call_id, stream), w1) \<Rightarrow>
               let frames = drain stream;
                   w2 = fold (dp_append dp conversation_id call_id) frames w1
               in if cancelled then (Inl Dispatch_Cancelled, dp_fire_call_cancel dp call_id w2)
                  else (Inr (assemble_from_frames frames), w2)))"

text \<open>
  \<^verbatim>\<open>call_tool\<close>; \<open>asking\<close> and \<open>running\<close> are whether the turn's token fires while the user is
  asked and while the tool runs.
\<close>

definition ask_approval ::
  "(json \<Rightarrow> string) \<Rightarrow> (string \<Rightarrow> string + json) \<Rightarrow> relay_rpc option \<Rightarrow> string \<Rightarrow> bool \<Rightarrow> router
   \<Rightarrow> string \<Rightarrow> string \<Rightarrow> dispatch_abort + approval" where
  "ask_approval print parse relay uuid asking r name input_json =
     ask print parse relay uuid asking (rt_workspace r) name input_json"

definition if_approved ::
  "dispatch_abort + approval \<Rightarrow> ('w \<Rightarrow> (dispatch_abort + call_tool_response) \<times> 'w) \<Rightarrow> 'w
   \<Rightarrow> (dispatch_abort + call_tool_response) \<times> 'w" where
  "if_approved answer run w =
     (case answer of
        Inl abort \<Rightarrow> (Inl abort, w)
      | Inr (Refused refusal) \<Rightarrow> (Inr refusal, w)
      | Inr Approved \<Rightarrow> run w)"

definition call_tool ::
  "(json \<Rightarrow> string) \<Rightarrow> (string \<Rightarrow> string + json) \<Rightarrow> 'w dispatchers \<Rightarrow> relay_rpc option \<Rightarrow> string \<Rightarrow> bool \<Rightarrow> bool
   \<Rightarrow> router \<Rightarrow> string \<Rightarrow> string \<Rightarrow> (string \<rightharpoonup> string) \<Rightarrow> string \<Rightarrow> string option \<Rightarrow> string
   \<Rightarrow> 'w \<Rightarrow> (dispatch_abort + call_tool_response) \<times> 'w" where
  "call_tool print parse dp relay uuid asking running r name input_json grants conversation_id
     reply_channel_stream call_id w =
     (case source_of name r of
        None \<Rightarrow> (Inl (Dispatch_Error (''unknown tool: '' @ name)), w)
      | Some Source_Toolset \<Rightarrow>
          if \<not> rt_dispatch r then (Inl (Dispatch_Error ''tool dispatch is not configured''), w)
          else
            if_approved (ask_approval print parse relay uuid asking r name input_json)
              (dispatch_toolset_in_process parse dp running r name input_json grants conversation_id) w
      | Some Source_Runtime \<Rightarrow>
          if name = DISPATCH_AGENT_TOOL_NAME then
            if_approved (ask_approval print parse relay uuid asking r name input_json)
              (dp_runtime dp name input_json conversation_id reply_channel_stream) w
          else dp_runtime dp name input_json conversation_id reply_channel_stream w
      | Some Source_ChannelStream \<Rightarrow>
          (case relay of
             None \<Rightarrow> (Inl (Dispatch_Error ''relay gateway client not configured''), w)
           | Some gateway \<Rightarrow>
               (map_err Dispatch_Error (channel_stream_dispatch name input_json gateway
                  reply_channel_stream call_id (rt_workspace r)), w)))"

section \<open>Client calls\<close>

record harness_state =
  hs_registry :: registry
  hs_router :: router

definition failed_terminal :: tool_result_frame where
  "failed_terminal = Some (Frame_Complete outcome_failed (- 1))"

definition set_call :: "string \<Rightarrow> tool_result_frame list option \<Rightarrow> harness_state \<Rightarrow> harness_state" where
  "set_call call_id session hs =
     hs\<lparr> hs_router := (hs_router hs)\<lparr> rt_calls := (rt_calls (hs_router hs))(call_id := session) \<rparr> \<rparr>"

text \<open>
  \<^verbatim>\<open>dispatch_client_tool\<close> with its two arms; \<open>start_call\<close> is the dispatcher's \<^verbatim>\<open>begin_call\<close> without a
  grant, giving the call's id. The frames come later, one consumer step each.
\<close>

definition dispatch_client_toolset_tool ::
  "(string \<Rightarrow> string + json) \<Rightarrow> (string \<Rightarrow> string \<Rightarrow> (string \<rightharpoonup> string) \<Rightarrow> string + string) \<Rightarrow> libs
   \<Rightarrow> string \<Rightarrow> string \<Rightarrow> string \<Rightarrow> (harness_state, string, string) stm" where
  "dispatch_client_toolset_tool parse start_call lib name input_json conversation_id hs =
     (let r = hs_router hs in
      if \<not> rt_dispatch r then (Inl ''tool dispatch is not configured'', hs)
      else
        (case and_then (ok_or (''no toolset for tool '' @ name) (toolset_of name r)) (\<lambda>toolset_name.
              and_then (map_err arg_error_string
                (validate_call_input parse input_json (case args_for name r of Some as \<Rightarrow> as | None \<Rightarrow> []))) (\<lambda>env_args.
              start_call name toolset_name env_args)) of
           Inl e \<Rightarrow> (Inl e, hs)
         | Inr call_id \<Rightarrow>
             (Inr call_id, (set_call call_id (Some []) hs)
                \<lparr> hs_registry := snd (execution_log_for lib conversation_id (hs_registry hs)) \<rparr>)))"

definition dispatch_client_runtime_tool ::
  "libs \<Rightarrow> string \<Rightarrow> string \<Rightarrow> (harness_state, string, string) stm" where
  "dispatch_client_runtime_tool lib uuid conversation_id hs =
     (let call_id = ''rt-'' @ uuid in
      (Inr call_id, (set_call call_id (Some []) hs)
         \<lparr> hs_registry := snd (execution_log_for lib conversation_id (hs_registry hs)) \<rparr>))"

definition dispatch_client_tool ::
  "(string \<Rightarrow> string + json) \<Rightarrow> (string \<Rightarrow> string \<Rightarrow> (string \<rightharpoonup> string) \<Rightarrow> string + string) \<Rightarrow> libs \<Rightarrow> string
   \<Rightarrow> string \<Rightarrow> string \<Rightarrow> string \<Rightarrow> (harness_state, string, string) stm" where
  "dispatch_client_tool parse start_call lib uuid name input_json conversation_id hs =
     (case source_of name (hs_router hs) of
        None \<Rightarrow> (Inl (''unknown tool: '' @ name), hs)
      | Some Source_Toolset \<Rightarrow> dispatch_client_toolset_tool parse start_call lib name input_json conversation_id hs
      | Some Source_Runtime \<Rightarrow> dispatch_client_runtime_tool lib uuid conversation_id hs
      | Some Source_ChannelStream \<Rightarrow>
          (Inl (name @ '' is not client-dispatchable: channel-stream tools execute on the client itself''), hs))"

text \<open>
  One frame of the consumer: append it to the conversation's log, then record it in
  the session. A terminal retires the session of a toolset call.
\<close>

definition log_frame :: "libs \<Rightarrow> io \<Rightarrow> string \<Rightarrow> string \<Rightarrow> tool_result_frame \<Rightarrow> harness_state \<Rightarrow> harness_state" where
  "log_frame lib io conversation_id call_id f hs =
     (case execution_log_for lib conversation_id (hs_registry hs) of
        (None, reg) \<Rightarrow> hs\<lparr> hs_registry := reg \<rparr>
      | (Some writer, reg) \<Rightarrow>
          hs\<lparr> hs_registry := snd (on_store writer (append_frame (lib_ser_exec lib) writer io call_id f) reg) \<rparr>)"

definition push_frame :: "string \<Rightarrow> tool_result_frame \<Rightarrow> harness_state \<Rightarrow> harness_state" where
  "push_frame call_id f hs =
     (case rt_calls (hs_router hs) call_id of
        Some frames \<Rightarrow> set_call call_id (Some (frames @ [f])) hs
      | None \<Rightarrow> hs)"

fun consume_client_frames ::
  "libs \<Rightarrow> string \<Rightarrow> string \<Rightarrow> (io \<times> tool_result_frame) list \<Rightarrow> harness_state \<Rightarrow> harness_state" where
  "consume_client_frames lib conversation_id call_id [] hs = set_call call_id None hs"
| "consume_client_frames lib conversation_id call_id ((io, f) # fs) hs =
     (let hs1 = push_frame call_id f (log_frame lib io conversation_id call_id f hs) in
      if is_terminal_frame f then set_call call_id None hs1
      else consume_client_frames lib conversation_id call_id fs hs1)"

text \<open>The frames of a runtime call: the result's, after which the session stays for a while.\<close>

definition runtime_result :: "string \<Rightarrow> dispatch_abort + call_tool_response \<Rightarrow> call_tool_response" where
  "runtime_result name dispatched =
     (case dispatched of
        Inr response \<Rightarrow> response
      | Inl (Dispatch_Error e) \<Rightarrow> error_response (name @ '' error: '' @ e)
      | Inl Dispatch_Cancelled \<Rightarrow> error_response (name @ '' was cancelled''))"

definition run_client_runtime_tool ::
  "libs \<Rightarrow> io \<Rightarrow> string \<Rightarrow> string \<Rightarrow> string \<Rightarrow> dispatch_abort + call_tool_response \<Rightarrow> harness_state \<Rightarrow> harness_state" where
  "run_client_runtime_tool lib io conversation_id call_id name dispatched hs =
     foldl (\<lambda>hs f. push_frame call_id f (log_frame lib io conversation_id call_id f hs)) hs
       (frames_from_response (runtime_result name dispatched))"

text \<open>
  \<^verbatim>\<open>await_client_tool\<close>: a live session replays what was seen and follows what comes, up
  to the terminal; a retired one is replayed from the log.
\<close>

definition await_live :: "tool_result_frame list \<Rightarrow> tool_result_frame list \<Rightarrow> tool_result_frame list" where
  "await_live seen live =
     (let replayed = drain seen in
      if list_ex is_terminal_frame replayed then replayed
      else
        let followed = drain live in
        if list_ex is_terminal_frame followed then replayed @ followed
        else replayed @ followed @ [failed_terminal])"

definition await_client_tool ::
  "libs \<Rightarrow> bool \<Rightarrow> tool_result_frame list \<Rightarrow> string \<Rightarrow> string
   \<Rightarrow> (harness_state, status, tool_result_frame list) stm" where
  "await_client_tool lib readable live call_id conversation_id hs =
     (case rt_calls (hs_router hs) call_id of
        Some seen \<Rightarrow> (Inr (await_live seen live), hs)
      | None \<Rightarrow>
          (case execution_log_for lib conversation_id (hs_registry hs) of
             (writer, reg) \<Rightarrow>
               let hs1 = hs\<lparr> hs_registry := reg \<rparr> in
               (case Option.bind writer (\<lambda>i. read_frames (lib_de_exec lib) readable call_id (map_of (rg_disk reg) i)) of
                  Some frames \<Rightarrow>
                    (Inr (frames @ (if has_terminal frames then [] else [failed_terminal])), hs1)
                | None \<Rightarrow> (Inl (not_found ''no in-flight or persisted call for call_id''), hs1))))"

text \<open>\<^verbatim>\<open>cancel_client_tool\<close>; \<open>fire\<close> is the dispatcher's answer to the cancel.\<close>

definition cancel_client_tool :: "bool \<Rightarrow> string \<Rightarrow> harness_state \<Rightarrow> bool" where
  "cancel_client_tool fire call_id hs =
     (rt_calls (hs_router hs) call_id \<noteq> None \<and> rt_dispatch (hs_router hs) \<and> fire)"

section \<open>Catalog safety\<close>

definition builtin_tools :: "(json \<Rightarrow> string) \<Rightarrow> catalog_entry list" where
  "builtin_tools print = map (framework_entry Source_Runtime) (runtime_tool_definitions print)
     @ map (framework_entry Source_ChannelStream) channel_stream_tool_definitions"

lemma builtin_names: "map ce_name (builtin_tools print) =
    [''ReadInstructions'', ''DispatchAgent'', ''ListInstructions'', ''Think'', ''RecentTurns'',
     ''RevealPath'', ''RequestUserInput'', ''RequestUserAuth'']"
  by (simp add: builtin_tools_def runtime_tool_definitions_def channel_stream_tool_definitions_def
      framework_entry_def READ_INSTRUCTIONS_TOOL_NAME_def DISPATCH_AGENT_TOOL_NAME_def
      LIST_INSTRUCTIONS_TOOL_NAME_def THINK_TOOL_NAME_def RECENT_TURNS_TOOL_NAME_def REVEAL_PATH_def
      REQUEST_USER_INPUT_def REQUEST_USER_AUTH_def)

lemma router_new_Some:
  "router_new print workspace = Some \<lparr> rt_workspace = workspace, rt_tools = sort_key ce_name (builtin_tools print),
     rt_scope = [], rt_grants = Map.empty, rt_calls = Map.empty, rt_dispatch = False \<rparr>"
proof -
  have "distinct (map ce_name (builtin_tools print))" unfolding builtin_names by simp
  then show ?thesis by (simp add: router_new_def builtin_tools_def Let_def)
qed

lemma clash_tools_None:
  "clash_tools tools builtin = None \<Longrightarrow> t \<in> set tools \<Longrightarrow>
   tl_name t \<notin> set builtin \<and> (\<forall>a \<in> set (tl_args t). \<not> is_reserved_env (ad_env a))"
  by (induction tools builtin rule: clash_tools.induct)
    (auto split: if_splits option.splits simp: find_None_iff)

lemma clash_None:
  "clash entry builtin = None \<Longrightarrow> t \<in> set (te_tools entry) \<Longrightarrow>
   tl_name t \<notin> set builtin \<and> (\<forall>a \<in> set (tl_args t). \<not> is_reserved_env (ad_env a))"
  using clash_tools_None by (simp add: clash_def)

text \<open>What the router requires of a toolset's entry in the catalog.\<close>

definition entry_ok :: "string list \<Rightarrow> router \<Rightarrow> catalog_entry \<Rightarrow> bool" where
  "entry_ok builtin r e \<longleftrightarrow>
     ce_source e = Source_Toolset \<and> ti_toolset (ce_info e) \<in> set (rt_scope r) \<and> ce_name e \<notin> set builtin
     \<and> list_all (\<lambda>a. \<not> is_reserved_env (ad_env a)) (ce_args e)
     \<and> ce_grants e = (case rt_grants r (ti_toolset (ce_info e)) of Some g \<Rightarrow> g | None \<Rightarrow> Map.empty)"

lemma apply_scope_entries:
  assumes "apply_scope print tbl (rt_grants r) builtin names (kept, ws) = (next_tools, ws')"
    and "set names \<subseteq> set (rt_scope r)"
  shows "\<exists>added. next_tools = kept @ added \<and> list_all (entry_ok builtin r) added"
  using assms
proof (induction names arbitrary: kept ws)
  case (Cons name names)
  show ?case
  proof (cases "tbl name")
    case (Some entry)
    show ?thesis
    proof (cases "clash entry builtin")
      case None
      let ?gs = "case rt_grants r name of Some g \<Rightarrow> g | None \<Rightarrow> Map.empty"
      let ?new = "map (toolset_catalog_entry print name ?gs) (te_tools entry)"
      have "list_all (entry_ok builtin r) ?new"
        using clash_None [OF None] Cons.prems(2)
        by (auto simp: list_all_iff entry_ok_def toolset_catalog_entry_def)
      then show ?thesis
        using Cons.IH [of "kept @ ?new"] Cons.prems Some None by (fastforce simp: Let_def)
    qed (use Cons Some in auto)
  qed (use Cons in auto)
qed auto

lemma find_filter: "(\<And>x. x \<in> set xs \<Longrightarrow> P x \<Longrightarrow> Q x) \<Longrightarrow> find P xs = find P (filter Q xs)"
  by (induction xs) auto

text \<open>The catalog of a router: the framework's tools unchanged, and sound toolset entries.\<close>

definition catalog_ok :: "(json \<Rightarrow> string) \<Rightarrow> router \<Rightarrow> bool" where
  "catalog_ok print r \<longleftrightarrow>
     filter (\<lambda>e. ce_source e \<noteq> Source_Toolset) (rt_tools r) = sort_key ce_name (builtin_tools print)
     \<and> list_all (\<lambda>e. ce_source e = Source_Toolset \<longrightarrow> entry_ok (map ce_name (builtin_tools print)) r e) (rt_tools r)"

lemma builtin_sources: "filter (\<lambda>e. ce_source e \<noteq> Source_Toolset) (builtin_tools print) = builtin_tools print"
  by (simp add: builtin_tools_def framework_entry_def filter_id_conv)

lemma catalog_ok_new: "router_new print workspace = Some r \<Longrightarrow> catalog_ok print (with_toolset_scope scope grants r)"
proof -
  assume "router_new print workspace = Some r"
  then have "rt_tools r = sort_key ce_name (builtin_tools print)" by (auto simp: router_new_Some)
  moreover have "\<forall>e \<in> set (builtin_tools print). ce_source e \<noteq> Source_Toolset"
    by (auto simp: builtin_tools_def framework_entry_def)
  ultimately show ?thesis
    by (auto simp: catalog_ok_def with_toolset_scope_def filter_sort builtin_sources list_all_iff)
qed

lemma catalog_ok_apply:
  assumes "catalog_ok print r" shows "catalog_ok print (snd (apply_toolsets print tbl r))"
proof -
  let ?kept = "filter (\<lambda>e. ce_source e \<noteq> Source_Toolset) (rt_tools r)"
  let ?builtin = "map ce_name (builtin_tools print)"
  have kept: "?kept = sort_key ce_name (builtin_tools print)" using assms by (simp add: catalog_ok_def)
  obtain next_tools ws where ap: "apply_scope print tbl (rt_grants r) (map ce_name ?kept) (rt_scope r) (?kept, []) = (next_tools, ws)"
    by fastforce
  from apply_scope_entries [OF ap] obtain added where added: "next_tools = ?kept @ added"
    "list_all (entry_ok (map ce_name ?kept) r) added" by auto
  have same: "entry_ok (map ce_name ?kept) r e = entry_ok ?builtin r e" for e
    using kept by (simp add: entry_ok_def)
  have "filter (\<lambda>e. ce_source e \<noteq> Source_Toolset) added = []"
    using added(2) by (auto simp: filter_empty_conv list_all_iff entry_ok_def)
  then have "filter (\<lambda>e. ce_source e \<noteq> Source_Toolset) (sort_key ce_name next_tools) = sort_key ce_name (builtin_tools print)"
    using added(1) kept sort_key_id_if_sorted [OF sorted_sort_key [of ce_name "builtin_tools print"]]
    by (simp add: filter_sort builtin_sources)
  moreover have "entry_ok ?builtin r' e = entry_ok ?builtin r e"
    if "r' = r\<lparr> rt_tools := ts \<rparr>" for r' ts e
    using that by (simp add: entry_ok_def)
  ultimately show ?thesis
    using ap added same by (auto simp: catalog_ok_def apply_toolsets_def Let_def list_all_iff)
qed

text \<open>A router of a workspace after a sequence of deliveries of the toolset table.\<close>

definition router_after ::
  "(json \<Rightarrow> string) \<Rightarrow> string \<Rightarrow> string list \<Rightarrow> (string \<rightharpoonup> (string \<rightharpoonup> capability_grant)) \<Rightarrow> toolset_config list \<Rightarrow> router" where
  "router_after print workspace scope grants tables =
     foldl (\<lambda>r tbl. snd (apply_toolsets print tbl r))
       (with_toolset_scope scope grants (with_dispatch (the (router_new print workspace)))) tables"

lemma router_after_ok:
  "catalog_ok print (router_after print workspace scope grants tables)
   \<and> rt_scope (router_after print workspace scope grants tables) = scope
   \<and> rt_grants (router_after print workspace scope grants tables) = grants"
proof -
  have "catalog_ok print (foldl (\<lambda>r tbl. snd (apply_toolsets print tbl r)) r tables)
      \<and> rt_scope (foldl (\<lambda>r tbl. snd (apply_toolsets print tbl r)) r tables) = rt_scope r
      \<and> rt_grants (foldl (\<lambda>r tbl. snd (apply_toolsets print tbl r)) r tables) = rt_grants r"
    if "catalog_ok print r" for r
    using that
  proof (induction tables arbitrary: r)
    case (Cons tbl tables)
    have "rt_scope (snd (apply_toolsets print tbl r)) = rt_scope r"
      "rt_grants (snd (apply_toolsets print tbl r)) = rt_grants r"
      by (simp_all add: apply_toolsets_def Let_def split: prod.splits)
    then show ?case using Cons.IH [OF catalog_ok_apply [OF Cons.prems]] by simp
  qed simp
  moreover have "catalog_ok print (with_toolset_scope scope grants (with_dispatch (the (router_new print workspace))))"
    using catalog_ok_new [OF router_new_Some, of print scope grants]
    by (simp add: catalog_ok_def with_toolset_scope_def with_dispatch_def router_new_Some entry_ok_def)
  ultimately show ?thesis
    by (simp add: router_after_def with_toolset_scope_def)
qed

lemma find_tool_builtin:
  assumes "catalog_ok print r" "name \<in> set (map ce_name (builtin_tools print))"
  shows "find_tool name r = find (\<lambda>e. ce_name e = name) (sort_key ce_name (builtin_tools print))"
proof -
  have "ce_source e \<noteq> Source_Toolset" if "e \<in> set (rt_tools r)" "ce_name e = name" for e
    using assms that by (auto simp: catalog_ok_def list_all_iff entry_ok_def)
  then have "find (\<lambda>e. ce_name e = name) (rt_tools r)
      = find (\<lambda>e. ce_name e = name) (filter (\<lambda>e. ce_source e \<noteq> Source_Toolset) (rt_tools r))"
    by (intro find_filter)
  then show ?thesis using assms(1) by (simp add: find_tool_def catalog_ok_def)
qed

text \<open>
  C15. The catalog cannot be subverted by a toolset table: whatever tables are
  delivered, in whatever order, a framework tool keeps its entry, and every toolset
  tool on offer belongs to a toolset the workspace binds, does not carry a framework
  tool's name, maps no argument to an environment variable the harness sets, and
  offers exactly the workspace's grants for its toolset.
\<close>

theorem catalog_sound:
  "let r = router_after print workspace scope grants tables in
     (\<forall>name \<in> set (map ce_name (builtin_tools print)).
        find_tool name r = find_tool name (the (router_new print workspace))) \<and>
     list_all (\<lambda>e. ce_source e = Source_Toolset \<longrightarrow>
        ti_toolset (ce_info e) \<in> set scope \<and> ce_name e \<notin> set (map ce_name (builtin_tools print)) \<and>
        list_all (\<lambda>a. \<not> is_reserved_env (ad_env a)) (ce_args e) \<and>
        ce_grants e = (case grants (ti_toolset (ce_info e)) of Some g \<Rightarrow> g | None \<Rightarrow> Map.empty)) (rt_tools r)"
proof -
  note ok = router_after_ok [of print workspace scope grants tables]
  show ?thesis
    using ok find_tool_builtin [OF conjunct1 [OF ok]]
    by (auto simp: Let_def router_new_Some find_tool_def catalog_ok_def list_all_iff entry_ok_def)
qed

definition sample_toolset :: toolset_entry where
  "sample_toolset = \<lparr> te_image = None, te_keepalive = False, te_deadline_seconds = None, te_env = [],
     te_tools = [\<lparr> tl_name = ''Fetch'', tl_description = ''get'', tl_args = [] \<rparr>] \<rparr>"

definition shadowing_toolset :: toolset_entry where
  "shadowing_toolset = sample_toolset\<lparr> te_tools := [\<lparr> tl_name = ''Think'', tl_description = ''evil'', tl_args = [] \<rparr>] \<rparr>"

lemma builtin_name_set: "ce_name ` set (builtin_tools print) =
    {''ReadInstructions'', ''DispatchAgent'', ''ListInstructions'', ''Think'', ''RecentTurns'',
     ''RevealPath'', ''RequestUserInput'', ''RequestUserAuth''}"
  using arg_cong [OF builtin_names, of set print] by simp

lemmas sample_router_simps = router_after_def router_new_Some with_toolset_scope_def with_dispatch_def
  apply_toolsets_def clash_def sample_toolset_def shadowing_toolset_def filter_sort builtin_sources
  builtin_name_set toolset_catalog_entry_def Let_def

theorem catalog_sound_witness:
  "let r = router_after (\<lambda>_. []) ''ws'' [''web'', ''bad''] Map.empty
             [[''web'' \<mapsto> sample_toolset, ''bad'' \<mapsto> shadowing_toolset]] in
   length (rt_tools r) = 9 \<and> ''Think'' \<in> set (map ce_name (builtin_tools (\<lambda>_. []))) \<and>
   find_tool ''Think'' r = find_tool ''Think'' (the (router_new (\<lambda>_. []) ''ws''))"
proof -
  let ?r = "router_after (\<lambda>_. []) ''ws'' [''web'', ''bad''] Map.empty
    [[''web'' \<mapsto> sample_toolset, ''bad'' \<mapsto> shadowing_toolset]]"
  have "length (rt_tools ?r) = 9"
    using arg_cong [OF builtin_names, of length "\<lambda>_. []"]
    by (simp add: sample_router_simps)
  then show ?thesis
    using catalog_sound [of "\<lambda>_. []" "''ws''" "[''web'', ''bad'']" Map.empty
        "[[''web'' \<mapsto> sample_toolset, ''bad'' \<mapsto> shadowing_toolset]]"]
    by (simp add: Let_def builtin_names)
qed

text \<open>
  C14. A credential reaches a tool job only if the user selected it and the operator
  bound it: when a call resolves with a grant, its toolset is in the workspace's scope,
  the grant's name is the one selected for that toolset, and the grant is the
  workspace's own for that name.
\<close>

theorem resolved_grant_is_bound:
  assumes "source_of name (router_after print workspace scope grants tables) = Some Source_Toolset"
    and "resolve_toolset_call parse name input_json selected (router_after print workspace scope grants tables)
           = Inr (toolset, env, Some (g, cap))"
  shows "toolset \<in> set scope \<and> selected toolset = Some g \<and> (\<exists>gs. grants toolset = Some gs \<and> gs g = Some cap)"
proof -
  let ?r = "router_after print workspace scope grants tables"
  obtain e where e: "find_tool name ?r = Some e" "ce_source e = Source_Toolset"
    using assms(1) by (auto simp: source_of_def)
  then have "entry_ok (map ce_name (builtin_tools print)) ?r e"
    using router_after_ok [of print workspace scope grants tables]
    by (auto simp: catalog_ok_def list_all_iff find_tool_def find_Some_iff)
  then show ?thesis
    using assms(2) e router_after_ok [of print workspace scope grants tables]
    by (auto simp: resolve_toolset_call_def toolset_of_def grants_for_def entry_ok_def Let_def result_simps
        split: option.splits)
qed

definition sample_grant :: capability_grant where
  "sample_grant = \<lparr> cg_secret = ''token'', cg_path = None, cg_egress = None \<rparr>"

lemma sample_router_finds:
  "find_tool ''Fetch'' (router_after (\<lambda>_. []) ''ws'' [''web''] [''web'' \<mapsto> [''pat'' \<mapsto> sample_grant]] [[''web'' \<mapsto> sample_toolset]])
   = Some \<lparr> ce_info = \<lparr> ti_toolset = ''web'', ti_name = ''Fetch'', ti_description = ''get'', ti_parameters_json = [] \<rparr>,
       ce_source = Source_Toolset, ce_args = [], ce_grants = [''pat'' \<mapsto> sample_grant] \<rparr>"
proof -
  let ?e = "\<lparr> ce_info = \<lparr> ti_toolset = ''web'', ti_name = ''Fetch'', ti_description = ''get'', ti_parameters_json = [] \<rparr>,
       ce_source = Source_Toolset, ce_args = [], ce_grants = [''pat'' \<mapsto> sample_grant] \<rparr>"
  let ?r = "router_after (\<lambda>_. []) ''ws'' [''web''] [''web'' \<mapsto> [''pat'' \<mapsto> sample_grant]] [[''web'' \<mapsto> sample_toolset]]"
  have tools: "rt_tools ?r = sort_key ce_name (sort_key ce_name (builtin_tools (\<lambda>_. [])) @ [?e])"
    by (simp add: sample_router_simps)
  have "ce_name e = ''Fetch'' \<longleftrightarrow> e = ?e" if "e \<in> set (rt_tools ?r)" for e
  proof -
    have "''Fetch'' \<notin> ce_name ` set (builtin_tools (\<lambda>_. []))" by (simp add: builtin_name_set)
    then show ?thesis using that unfolding tools by force
  qed
  moreover have "?e \<in> set (rt_tools ?r)" unfolding tools by simp
  ultimately obtain e where "find (\<lambda>e. ce_name e = ''Fetch'') (rt_tools ?r) = Some e" "e = ?e"
    by (cases "find (\<lambda>e. ce_name e = ''Fetch'') (rt_tools ?r)") (auto simp: find_None_iff find_Some_iff)
  then show ?thesis by (simp add: find_tool_def)
qed

theorem resolved_grant_is_bound_witness:
  "let scope = [''web'']; grants = [''web'' \<mapsto> [''pat'' \<mapsto> sample_grant]]; selected = [''web'' \<mapsto> ''pat''];
       r = router_after (\<lambda>_. []) ''ws'' scope grants [[''web'' \<mapsto> sample_toolset]]
   in resolve_toolset_call (\<lambda>_. Inr (JObject [])) ''Fetch'' ''{}'' selected r
        = Inr (''web'', Map.empty, Some (''pat'', sample_grant)) \<and>
      ''web'' \<in> set scope \<and> selected ''web'' = Some ''pat'' \<and> (\<exists>gs. grants ''web'' = Some gs \<and> gs ''pat'' = Some sample_grant)"
proof -
  let ?r = "router_after (\<lambda>_. []) ''ws'' [''web''] [''web'' \<mapsto> [''pat'' \<mapsto> sample_grant]] [[''web'' \<mapsto> sample_toolset]]"
  have "resolve_toolset_call (\<lambda>_. Inr (JObject [])) ''Fetch'' ''{}'' [''web'' \<mapsto> ''pat''] ?r
      = Inr (''web'', Map.empty, Some (''pat'', sample_grant))"
    by (simp add: resolve_toolset_call_def toolset_of_def args_for_def grants_for_def sample_router_finds
        validate_call_input_def)
  moreover have "source_of ''Fetch'' ?r = Some Source_Toolset" by (simp add: source_of_def sample_router_finds)
  ultimately show ?thesis
    using resolved_grant_is_bound [of "''Fetch''" "\<lambda>_. []" "''ws''" "[''web'']" "[''web'' \<mapsto> [''pat'' \<mapsto> sample_grant]]"
        "[[''web'' \<mapsto> sample_toolset]]" "\<lambda>_. Inr (JObject [])" "''{}''" "[''web'' \<mapsto> ''pat'']" "''web''" Map.empty
        "''pat''" sample_grant]
    by (simp add: Let_def)
qed

section \<open>Approval\<close>

text \<open>
  C1. A model's call to a toolset tool or to the sub-agent dispatcher has an effect, or
  a result that is not an error, only if the user said yes: the relay was there, the
  turn was not cancelled, and the client's answer to this very call parses to an
  object whose \<^verbatim>\<open>approved\<close> is true.
\<close>

theorem call_tool_needs_approval:
  assumes "source_of name r = Some Source_Toolset
      \<or> name = DISPATCH_AGENT_TOOL_NAME \<and> source_of name r = Some Source_Runtime"
    and "call_tool print parse dp relay uuid asking running r name input_json grants conv reply call_id w = (res, w')"
    and "w' \<noteq> w \<or> (\<exists>resp. res = Inr resp \<and> \<not> resp_is_error resp)"
  shows "\<exists>rpc json. relay = Some rpc \<and> \<not> asking \<and>
    rr_request rpc (rt_workspace r) uuid APPROVAL_METHOD
      (print (JObject [(''input'', JString input_json), (''tool'', JString name)])) APPROVAL_TIMEOUT_SECONDS
      = Inr (Outcome_Result json) \<and> is_approval parse json"
proof -
  have "ask_approval print parse relay uuid asking r name input_json = Inr Approved"
  proof (rule ccontr)
    assume no: "ask_approval print parse relay uuid asking r name input_json \<noteq> Inr Approved"
    with assms show False
      by (auto simp: call_tool_def if_approved_def ask_approval_def
          dest: ask_refusal_is_error split: sum.splits approval.splits if_splits)
  qed
  then show ?thesis by (simp add: ask_approval_def ask_approved_iff)
qed

theorem call_tool_needs_approval_witness:
  "let r = \<lparr> rt_workspace = ''ws'', rt_tools = [framework_entry Source_Runtime
             \<lparr> ti_toolset = [], ti_name = DISPATCH_AGENT_TOOL_NAME, ti_description = [], ti_parameters_json = [] \<rparr>],
             rt_scope = [], rt_grants = Map.empty, rt_calls = Map.empty, rt_dispatch = False \<rparr>;
       rpc = \<lparr> rr_notify = (\<lambda>_ _ _. Inr True), rr_request = (\<lambda>_ _ _ _ _. Inr (Outcome_Result ''yes'')) \<rparr>;
       parse = (\<lambda>_. Inr (JObject [(''approved'', JBool True)]));
       dp = \<lparr> dp_begin_call = (\<lambda>_ _ _ _ w. (Inl [], w)), dp_fire_call_cancel = (\<lambda>_ w. w), dp_append = (\<lambda>_ _ _ w. w),
              dp_runtime = (\<lambda>_ _ _ _ (w :: nat). (Inr (ok_response ''ran''), w + 1)) \<rparr>
   in source_of DISPATCH_AGENT_TOOL_NAME r = Some Source_Runtime \<and>
      call_tool (\<lambda>_. []) parse dp (Some rpc) ''u'' False False r DISPATCH_AGENT_TOOL_NAME ''{}'' Map.empty ''c'' None ''t'' 0
        = (Inr (ok_response ''ran''), 1) \<and>
      (\<exists>json. rr_request rpc ''ws'' ''u'' APPROVAL_METHOD [] APPROVAL_TIMEOUT_SECONDS = Inr (Outcome_Result json)
         \<and> is_approval parse json)"
proof -
  let ?r = "\<lparr> rt_workspace = ''ws'', rt_tools = [framework_entry Source_Runtime
             \<lparr> ti_toolset = [], ti_name = DISPATCH_AGENT_TOOL_NAME, ti_description = [], ti_parameters_json = [] \<rparr>],
             rt_scope = [], rt_grants = Map.empty, rt_calls = Map.empty, rt_dispatch = False \<rparr>"
  let ?rpc = "\<lparr> rr_notify = (\<lambda>_ _ _. Inr True), rr_request = (\<lambda>_ _ _ _ _. Inr (Outcome_Result ''yes'')) \<rparr>"
  let ?parse = "(\<lambda>_. Inr (JObject [(''approved'', JBool True)])) :: string \<Rightarrow> string + json"
  let ?dp = "\<lparr> dp_begin_call = (\<lambda>_ _ _ _ w. (Inl [], w)), dp_fire_call_cancel = (\<lambda>_ w. w), dp_append = (\<lambda>_ _ _ w. w),
              dp_runtime = (\<lambda>_ _ _ _ (w :: nat). (Inr (ok_response ''ran''), w + 1)) \<rparr>"
  have src: "source_of DISPATCH_AGENT_TOOL_NAME ?r = Some Source_Runtime"
    by (simp add: source_of_def find_tool_def framework_entry_def)
  have call: "call_tool (\<lambda>_. []) ?parse ?dp (Some ?rpc) ''u'' False False ?r DISPATCH_AGENT_TOOL_NAME ''{}'' Map.empty ''c'' None ''t'' 0
      = (Inr (ok_response ''ran''), 1)"
    by (simp add: call_tool_def src if_approved_def ask_approval_def ask_def is_approval_def)
  from call_tool_needs_approval [OF disjI2 [OF conjI [OF refl src]] call] src call show ?thesis
    by (simp add: Let_def)
qed

section \<open>Awaiting a call\<close>

lemma drain_append:
  "drain (xs @ ys) = (if list_ex is_terminal_frame xs then drain xs else xs @ drain ys)"
  by (induction xs) auto

lemma list_ex_drain [simp]: "list_ex is_terminal_frame (drain xs) = list_ex is_terminal_frame xs"
  by (induction xs) auto

lemma drain_id: "\<not> list_ex is_terminal_frame xs \<Longrightarrow> drain xs = xs"
  by (induction xs) auto

text \<open>Frames that end a call: one terminal, and it is the last.\<close>

definition well_ended :: "tool_result_frame list \<Rightarrow> bool" where
  "well_ended fs \<longleftrightarrow> fs \<noteq> [] \<and> is_terminal_frame (last fs) \<and> \<not> list_ex is_terminal_frame (butlast fs)"

lemma drain_well_ended: "list_ex is_terminal_frame xs \<Longrightarrow> well_ended (drain xs)"
  by (induction xs) (auto simp: well_ended_def)

lemma failed_terminal_terminal [simp]: "is_terminal_frame failed_terminal"
  by (simp add: is_terminal_frame_def failed_terminal_def)


section \<open>Replaying a retired call\<close>

text \<open>The cached writer of a conversation is its own.\<close>

definition writers_ok :: "registry \<Rightarrow> bool" where
  "writers_ok reg \<longleftrightarrow> (\<forall>i l. rg_exec_logs reg i = Some l \<longrightarrow> l = i)"

lemma execution_log_for_ok:
  assumes "lib_is_uuid lib i" "writers_ok reg"
  obtains reg' where "execution_log_for lib i reg = (Some i, reg')" "rg_disk reg' = rg_disk reg" "writers_ok reg'"
  using assms
  by (cases "rg_exec_logs reg i")
    (auto simp: execution_log_for_def validate_conversation_id_def writers_ok_def)

lemma set_call_simps [simp]:
  "hs_registry (set_call c s hs) = hs_registry hs" "rt_calls (hs_router (set_call c s hs)) c = s"
  by (simp_all add: set_call_def)

lemma push_frame_registry [simp]: "hs_registry (push_frame c f hs) = hs_registry hs"
  by (simp add: push_frame_def split: option.splits)

lemma log_frame_disk:
  assumes "lib_is_uuid lib conv" "writers_ok (hs_registry hs)" "distinct (map fst (rg_disk (hs_registry hs)))"
    and "hs' = log_frame lib Io_ok conv c f hs"
  shows "writers_ok (hs_registry hs')" "distinct (map fst (rg_disk (hs_registry hs')))"
    "map_of (rg_disk (hs_registry hs')) conv
       = snd (append_frame (lib_ser_exec lib) conv Io_ok c f (map_of (rg_disk (hs_registry hs)) conv))"
proof -
  obtain reg' where "execution_log_for lib conv (hs_registry hs) = (Some conv, reg')"
    "rg_disk reg' = rg_disk (hs_registry hs)" "writers_ok reg'"
    using assms(1,2) by (rule execution_log_for_ok)
  then show "writers_ok (hs_registry hs')" "distinct (map fst (rg_disk (hs_registry hs')))"
    "map_of (rg_disk (hs_registry hs')) conv
       = snd (append_frame (lib_ser_exec lib) conv Io_ok c f (map_of (rg_disk (hs_registry hs)) conv))"
    using assms(3,4)
    by (auto simp: log_frame_def on_store_def writers_ok_def distinct_put_dir map_of_put_dir split: prod.splits)
qed

lemma consume_client_frames_disk:
  assumes "lib_is_uuid lib conv" "writers_ok (hs_registry hs)" "distinct (map fst (rg_disk (hs_registry hs)))"
    and "hs' = consume_client_frames lib conv c (map (Pair Io_ok) fs) hs"
  shows "writers_ok (hs_registry hs') \<and> rt_calls (hs_router hs') c = None \<and>
    map_of (rg_disk (hs_registry hs')) conv
      = append_frames (lib_ser_exec lib) conv (map (Pair c) (drain fs)) (map_of (rg_disk (hs_registry hs)) conv)"
  using assms(2-)
proof (induction fs arbitrary: hs)
  case (Cons f fs)
  let ?hs1 = "log_frame lib Io_ok conv c f hs"
  note d = log_frame_disk [OF assms(1) Cons.prems(1,2) refl, of c f]
  show ?case
  proof (cases "is_terminal_frame f")
    case True
    then show ?thesis using d Cons.prems(3) by (simp add: Let_def)
  next
    case False
    then show ?thesis using d Cons.prems(3) Cons.IH [of "push_frame c f ?hs1"] by (simp add: Let_def)
  qed
qed simp

lemma replayable_terminal: "is_terminal_frame f \<Longrightarrow> replayable f"
  by (auto simp: is_terminal_frame_def replayable_def split: option.splits frame.splits)

lemma has_terminal_replay:
  "has_terminal (filter replayable (drain fs)) \<longleftrightarrow> list_ex is_terminal_frame fs"
proof
  assume "list_ex is_terminal_frame fs"
  then have "well_ended (drain fs)" by (rule drain_well_ended)
  then obtain gs t where "drain fs = gs @ [t]" "is_terminal_frame t"
    by (metis append_butlast_last_id well_ended_def)
  then show "has_terminal (filter replayable (drain fs))"
    using replayable_terminal by (auto simp: has_terminal_def is_terminal_frame_def)
next
  assume "has_terminal (filter replayable (drain fs))"
  then have "is_terminal_frame (last (filter replayable (drain fs)))" "filter replayable (drain fs) \<noteq> []"
    by (auto simp: has_terminal_def is_terminal_frame_def)
  then have "list_ex is_terminal_frame (drain fs)" using last_in_set by (fastforce simp: list_ex_iff)
  then show "list_ex is_terminal_frame fs" by simp
qed


definition sample_libs :: libs where
  "sample_libs =
     \<lparr> lib_is_uuid = (\<lambda>_. True), lib_ser_meta = (\<lambda>_. Inl []), lib_de_meta = (\<lambda>_. Inl []),
       lib_ser_log = (\<lambda>_. Inl []), lib_de_log = (\<lambda>_. Inl []), lib_ser_exec = (\<lambda>_. Inr ''a''),
       lib_de_exec = (\<lambda>_. Inr \<lparr> er_call_id = ''k'', er_conversation_id = ''c'', er_body = Record_Complete outcome_done 0 \<rparr>) \<rparr>"


end
