(* ===== verification/Harness_Api.thy ===== *)
theory Harness_Api
  imports Conversation
begin

text \<open>
  The interface between the relay and a workspace's harness: the \<^verbatim>\<open>HarnessControl\<close> service
  as the relay calls it. The operations are a record over an arbitrary harness state;
  the locale is what the relay relies on, and what it may conclude from it.
\<close>

section \<open>Messages\<close>

record conversation_summary =
  cv_conversation_id :: string
  cv_last_touched_ms_epoch :: int
  cv_name :: string
  cv_owner :: string

record history_response =
  hr_entries :: "entry_snapshot list"
  hr_total_seq :: nat
  hr_truncated :: bool

text \<open>
  What one call sees of the world besides the state: the outcome of its file operation,
  a fresh UUID, the clock, and the frames that arrive while it streams.
\<close>

record call_input =
  ci_io :: io
  ci_uuid :: string
  ci_now_ms :: int
  ci_read_error :: "string option"
  ci_live :: "tool_result_frame list"

section \<open>Operations\<close>

record 'h harness_control =
  hc_watch_tools :: "'h \<Rightarrow> tool_info list list"
  hc_dispatch_tool :: "call_input \<Rightarrow> string \<Rightarrow> string \<Rightarrow> string \<Rightarrow> ('h, status, string) stm"
  hc_await_tool_result :: "call_input \<Rightarrow> string \<Rightarrow> string \<Rightarrow> ('h, status, tool_result_frame list) stm"
  hc_cancel_tool :: "call_input \<Rightarrow> string \<Rightarrow> ('h, status, bool) stm"
  hc_mint_conversation :: "call_input \<Rightarrow> string \<Rightarrow> ('h, status, string) stm"
  hc_list_conversations :: "string \<Rightarrow> ('h, status, conversation_summary list) stm"
  hc_delete_conversation :: "call_input \<Rightarrow> string \<Rightarrow> ('h, status, unit) stm"
  hc_set_conversation_name :: "call_input \<Rightarrow> string \<Rightarrow> string \<Rightarrow> ('h, status, unit) stm"
  hc_cancel_turn :: "string \<Rightarrow> ('h, status, bool) stm"
  hc_get_conversation_history :: "call_input \<Rightarrow> string \<Rightarrow> string \<Rightarrow> nat option \<Rightarrow> ('h, status, history_response) stm"

section \<open>The contract\<close>

text \<open>
  \<open>owner h c\<close> is the owner a harness state records for a conversation. A mint records
  the given owner for the fresh id; a listing names exactly the owner's conversations;
  a delete forgets the conversation it names; history is served to its owner only; and
  nothing else changes an owner.
\<close>

locale harness_contract =
  fixes hc :: "'h harness_control"
    and ok :: "'h \<Rightarrow> bool"
    and owner :: "'h \<Rightarrow> string \<rightharpoonup> string"
    and sane :: "call_input \<Rightarrow> bool"
  assumes mint_law: "ok h \<Longrightarrow> hc_mint_conversation hc i own h = (r0, h') \<Longrightarrow>
      ok h' \<and> (case r0 of Inr c \<Rightarrow> c = ci_uuid i \<and> owner h' = (owner h)(c \<mapsto> own) | Inl _ \<Rightarrow> owner h' = owner h)"
    and list_law: "ok h \<Longrightarrow> hc_list_conversations hc own h = (r1, h') \<Longrightarrow>
      h' = h \<and> (case r1 of Inr l \<Rightarrow> cv_conversation_id ` set l = {c. owner h c = Some own} | Inl _ \<Rightarrow> True)"
    and delete_law: "ok h \<Longrightarrow> sane i \<Longrightarrow> hc_delete_conversation hc i c h = (r2, h') \<Longrightarrow>
      ok h' \<and> owner h' = (case r2 of Inr _ \<Rightarrow> (owner h)(c := None) | Inl _ \<Rightarrow> owner h)"
    and set_name_law: "ok h \<Longrightarrow> hc_set_conversation_name hc i c name h = (r3, h') \<Longrightarrow> ok h' \<and> owner h' = owner h"
    and cancel_turn_law: "ok h \<Longrightarrow> hc_cancel_turn hc c h = (r4, h') \<Longrightarrow> ok h' \<and> owner h' = owner h"
    and history_law: "ok h \<Longrightarrow> hc_get_conversation_history hc i c own limit h = (r5, h') \<Longrightarrow>
      ok h' \<and> owner h' = owner h \<and> (owner h c \<noteq> Some own \<longrightarrow> isl r5 \<and> h' = h)"
    and dispatch_law: "ok h \<Longrightarrow> hc_dispatch_tool hc i name input c h = (r6, h') \<Longrightarrow> ok h' \<and> owner h' = owner h"
    and await_law: "ok h \<Longrightarrow> hc_await_tool_result hc i call c h = (r7, h') \<Longrightarrow> ok h' \<and> owner h' = owner h"
    and cancel_tool_law: "ok h \<Longrightarrow> hc_cancel_tool hc i call h = (r8, h') \<Longrightarrow> ok h' \<and> owner h' = owner h"
begin

text \<open>
  An owner once recorded is never replaced: a conversation that had an owner has the
  same one after any call, or has been deleted.
\<close>

lemma mint_keeps_owner:
  assumes "ok h" "hc_mint_conversation hc i own h = (r, h')" "owner h (ci_uuid i) = None" "owner h c = Some s"
  shows "owner h' c = Some s"
  using mint_law [OF assms(1,2)] assms(3,4) by (cases r) auto

lemma listed_iff_owner:
  assumes "ok h" "hc_list_conversations hc own h = (Inr l, h')"
  shows "c \<in> cv_conversation_id ` set l \<longleftrightarrow> owner h c = Some own"
  using list_law [OF assms] by auto

end

end
