(* ===== verification/Harness_Service.thy ===== *)
theory Harness_Service
  imports Tool_Router Harness_Api
begin

text \<open>
  The \<^verbatim>\<open>HarnessControl\<close> service the relay forwards to, \<^verbatim>\<open>harness/src/grpc_server.rs\<close>: the
  conversation handlers over the registry and the tool handlers over the tool router.
  The service is shown to keep the contract the relay relies on, and the registry to
  survive a restart of the harness.
\<close>

section \<open>Handlers\<close>

definition MAX_HISTORY_LIMIT :: nat where
  "MAX_HISTORY_LIMIT = 500"

definition MAX_CONVERSATION_NAME_CHARS :: nat where
  "MAX_CONVERSATION_NAME_CHARS = 200"

definition effective_history_limit :: "nat option \<Rightarrow> nat option" where
  "effective_history_limit requested =
     (case requested of
        None \<Rightarrow> None
      | Some n \<Rightarrow> if n = 0 then None else Some (min n MAX_HISTORY_LIMIT))"

text \<open>
  The stream of \<^verbatim>\<open>watch_tools\<close>: the snapshot of the catalog, then nothing.
\<close>

definition watch_tools :: "tool_definition list \<Rightarrow> tool_info list list" where
  "watch_tools definitions =
     [map (\<lambda>t. \<lparr> ti_toolset = [], ti_name = td_name t, ti_description = td_description t,
                 ti_parameters_json = td_parameters_json t \<rparr>) definitions]"

definition svc_dispatch_tool ::
  "(string \<Rightarrow> string + json) \<Rightarrow> (string \<Rightarrow> string \<Rightarrow> (string \<rightharpoonup> string) \<Rightarrow> string + string) \<Rightarrow> libs \<Rightarrow> string
   \<Rightarrow> string \<Rightarrow> string \<Rightarrow> string \<Rightarrow> (harness_state, status, string) stm" where
  "svc_dispatch_tool parse start_call lib uuid name input_json conversation_id =
     bindS (ensureS (\<lambda>hs. conversation_id = [] \<or> owns conversation_id (hs_registry hs))
              (not_found ''conversation_id not found'')) (\<lambda>_.
     map_errS (\<lambda>e. internal (''dispatch_tool: '' @ e))
       (dispatch_client_tool parse start_call lib uuid name input_json conversation_id))"

definition svc_await_tool_result ::
  "libs \<Rightarrow> bool \<Rightarrow> tool_result_frame list \<Rightarrow> string \<Rightarrow> string \<Rightarrow> (harness_state, status, tool_result_frame list) stm" where
  "svc_await_tool_result lib readable live call_id conversation_id =
     bindS (ensureS (\<lambda>_. call_id \<noteq> []) (invalid_argument ''AwaitToolResultRequest.call_id required'')) (\<lambda>_.
     await_client_tool lib readable live call_id conversation_id)"

definition svc_cancel_tool :: "bool \<Rightarrow> string \<Rightarrow> (harness_state, status, bool) stm" where
  "svc_cancel_tool fire call_id =
     bindS (ensureS (\<lambda>_. call_id \<noteq> []) (invalid_argument ''CancelToolRequest.call_id required'')) (\<lambda>_.
     getS (cancel_client_tool fire call_id))"

definition svc_mint_conversation ::
  "libs \<Rightarrow> io \<Rightarrow> string \<Rightarrow> int \<Rightarrow> string \<Rightarrow> (registry, status, string) stm" where
  "svc_mint_conversation lib io uuid now_ms owner =
     map_errS (\<lambda>e. internal (''failed to mint conversation: '' @ e)) (mint lib io uuid now_ms owner)"

definition svc_list_conversations :: "string \<Rightarrow> (registry, status, conversation_summary list) stm" where
  "svc_list_conversations owner =
     getS (\<lambda>reg. map (\<lambda>(i, ts, name).
       \<lparr> cv_conversation_id = i, cv_last_touched_ms_epoch = ts, cv_name = name, cv_owner = owner \<rparr>)
       (list_summaries owner reg))"

definition svc_delete_conversation :: "io \<Rightarrow> string \<Rightarrow> (registry, status, unit) stm" where
  "svc_delete_conversation io conversation_id =
     bindS (ensureS (\<lambda>_. conversation_id \<noteq> [])
       (invalid_argument ''DeleteConversationRequest.conversation_id required'')) (\<lambda>_.
     bindS (ensureS (owns conversation_id) (not_found ''conversation_id not found'')) (\<lambda>_.
     map_errS (\<lambda>e. internal (''failed to delete conversation: '' @ e)) (delete io conversation_id)))"

definition svc_set_conversation_name :: "libs \<Rightarrow> io \<Rightarrow> string \<Rightarrow> string \<Rightarrow> (registry, status, unit) stm" where
  "svc_set_conversation_name lib io conversation_id name =
     bindS (ensureS (\<lambda>_. conversation_id \<noteq> [])
       (invalid_argument ''SetConversationNameRequest.conversation_id required'')) (\<lambda>_.
     bindS (ensureS (\<lambda>_. chars_count name \<le> MAX_CONVERSATION_NAME_CHARS)
       (invalid_argument (''name exceeds '' @ nat_string MAX_CONVERSATION_NAME_CHARS @ ''-character limit''))) (\<lambda>_.
     bindS (ensureS (owns conversation_id) (not_found ''conversation_id not found'')) (\<lambda>_.
     map_errS (\<lambda>e. internal (''failed to persist conversation name: '' @ e))
       (set_name lib io conversation_id name))))"

definition svc_cancel_turn :: "string \<Rightarrow> (registry, status, bool) stm" where
  "svc_cancel_turn conversation_id =
     bindS (ensureS (\<lambda>_. conversation_id \<noteq> [])
       (invalid_argument ''CancelTurnRequest.conversation_id required'')) (\<lambda>_.
     bindS (ensureS (owns conversation_id) (not_found ''conversation_id not found'')) (\<lambda>_.
     (\<lambda>reg. case cancel conversation_id reg of (cancelled, reg') \<Rightarrow> (Inr cancelled, reg'))))"

definition svc_get_conversation_history ::
  "libs \<Rightarrow> string option \<Rightarrow> string \<Rightarrow> string \<Rightarrow> nat option \<Rightarrow> (registry, status, history_response) stm" where
  "svc_get_conversation_history lib read_error conversation_id owner limit =
     bindS (ensureS (\<lambda>_. conversation_id \<noteq> []) (invalid_argument ''conversation_id required'')) (\<lambda>_.
     bindS (ensureS (owned_by conversation_id owner) (not_found ''conversation_id not found'')) (\<lambda>_.
     bindS (map_errS (\<lambda>e. internal (''load conversation: '' @ e))
              (get_or_create lib read_error conversation_id)) (\<lambda>log.
     let snap = snapshot log (effective_history_limit limit) in
     retS \<lparr> hr_entries = cs_entries snap, hr_total_seq = cs_total_seq snap,
            hr_truncated = (length (cs_entries snap) < cs_total_seq snap) \<rparr>)))"

section \<open>Effect on the directory\<close>

text \<open>
  The outcome of every handler, as what it does to a well-formed registry: its name
  and owner directory, and that the directory and the sidecars on disk stay equal.
\<close>

lemma mint_directory:
  assumes "meta_codec lib" "registry_wf lib reg" "mint lib io uuid now owner reg = (r, reg')"
  shows "registry_wf lib reg' \<and> (case r of
      Inr i \<Rightarrow> i = uuid \<and> directory reg' = (directory reg)(uuid \<mapsto> (default_name_for_conversation uuid, owner))
    | Inl _ \<Rightarrow> directory reg' = directory reg)"
proof -
  let ?name = "default_name_for_conversation uuid"
  obtain w reg1 where st: "on_store uuid (write_meta (lib_ser_meta lib) io ?name owner) reg = (w, reg1)"
    by (cases "on_store uuid (write_meta (lib_ser_meta lib) io ?name owner) reg")
  have wf: "distinct (map fst (rg_disk reg))" "distinct (map fst (rg_meta reg))"
    "directory reg = disk_directory lib reg"
    using assms(2) by (auto simp: registry_wf_def)
  note disk = store_write_meta [OF assms(1) st wf(1)]
  show ?thesis
  proof (cases w)
    case (Inl e)
    then have "reg' = reg1" "r = Inl e" using assms(3) st by (auto simp: mint_def Let_def bindS_def)
    moreover have "directory reg1 = directory reg" using disk(2) by (simp add: directory_def fun_eq_iff)
    ultimately show ?thesis using Inl disk wf by (auto simp: registry_wf_def)
  next
    case (Inr u)
    then have eq: "reg' = reg1\<lparr> rg_meta := AList.update uuid
        \<lparr> mt_last_touched_ms = now, mt_name = ?name, mt_owner = owner \<rparr> (rg_meta reg1) \<rparr>" "r = Inr uuid"
      using assms(3) st by (auto simp: mint_def Let_def bindS_def modifyS_def retS_def)
    moreover have "directory reg' = (directory reg)(uuid \<mapsto> (?name, owner))"
      using eq disk(2) by (simp add: directory_def fun_eq_iff update_conv')
    moreover have "disk_directory lib reg' = disk_directory lib reg1"
      using eq by (simp add: disk_directory_def fun_eq_iff)
    ultimately show ?thesis using Inr disk wf by (auto simp: registry_wf_def distinct_update)
  qed
qed

lemma set_name_directory:
  assumes "meta_codec lib" "registry_wf lib reg" "owns i reg" "set_name lib io i name reg = (r, reg')"
  shows "registry_wf lib reg' \<and> directory reg' = (case r of
      Inr _ \<Rightarrow> (directory reg)(i := map_option (\<lambda>(_, owner). (name, owner)) (directory reg i))
    | Inl _ \<Rightarrow> directory reg)"
proof (cases "lib_is_uuid lib i")
  case False
  then show ?thesis using assms by (auto simp: set_name_def validate_conversation_id_def stm_defs)
next
  case True
  from assms(3) obtain m where m: "map_of (rg_meta reg) i = Some m" by (auto simp: owns_def)
  obtain w reg1 where st: "on_store i (write_meta (lib_ser_meta lib) io name (mt_owner m)) reg = (w, reg1)"
    by (cases "on_store i (write_meta (lib_ser_meta lib) io name (mt_owner m)) reg")
  have wf: "distinct (map fst (rg_disk reg))" "distinct (map fst (rg_meta reg))"
    "directory reg = disk_directory lib reg"
    using assms(2) by (auto simp: registry_wf_def)
  note disk = store_write_meta [OF assms(1) st wf(1)]
  have run: "(r, reg') = (case w of Inl e \<Rightarrow> (Inl e, reg1)
      | Inr _ \<Rightarrow> (Inr (), with_meta i (\<lambda>m. m\<lparr> mt_name := name \<rparr>) reg1))"
    using assms(4) True m st
    by (auto simp: set_name_def validate_conversation_id_def owner_of_def stm_defs split: sum.splits)
  show ?thesis
  proof (cases w)
    case (Inl e)
    then have "reg' = reg1" "r = Inl e" using run by auto
    moreover have "directory reg1 = directory reg" using disk(2) by (simp add: directory_def fun_eq_iff)
    ultimately show ?thesis using Inl disk wf by (auto simp: registry_wf_def)
  next
    case (Inr u)
    then have eq: "reg' = with_meta i (\<lambda>m. m\<lparr> mt_name := name \<rparr>) reg1" "r = Inr ()" using run by auto
    moreover have "directory reg1 = directory reg" using disk(2) by (simp add: directory_def fun_eq_iff)
    moreover have "disk_directory lib reg' = disk_directory lib reg1"
      using eq by (simp add: disk_directory_def fun_eq_iff)
    moreover have "directory reg' = (directory reg)(i \<mapsto> (name, mt_owner m))"
      using eq m disk(2) calculation(3) by (simp add: directory_with_meta)
    moreover have "directory reg i = Some (mt_name m, mt_owner m)" using m by (simp add: directory_def)
    ultimately show ?thesis using Inr disk wf by (simp add: registry_wf_def distinct_with_meta)
  qed
qed

lemma delete_directory:
  assumes "registry_wf lib reg" "delete io i reg = (r, reg')" "\<And>n e. io \<noteq> Io_torn n e"
  shows "registry_wf lib reg' \<and> directory reg' = (case r of
      Inr _ \<Rightarrow> (directory reg)(i := None) | Inl _ \<Rightarrow> directory reg)"
proof -
  obtain w reg1 where st: "on_store i (delete_all io) reg = (w, reg1)"
    by (cases "on_store i (delete_all io) reg")
  have wf: "distinct (map fst (rg_disk reg))" "distinct (map fst (rg_meta reg))"
    "directory reg = disk_directory lib reg"
    using assms(1) by (auto simp: registry_wf_def)
  note disk = store_delete_all(1) [where lib = lib, OF st wf(1) assms(3)] store_delete_all(2,3) [OF st wf(1) assms(3)]
  have dir1: "directory reg1 = directory reg" using disk(2) by (simp add: directory_def fun_eq_iff)
  show ?thesis
  proof (cases w)
    case (Inl e)
    then have "reg' = reg1" "r = Inl e" using assms(2) st by (auto simp: delete_def bindS_def)
    then show ?thesis using Inl disk wf dir1 by (auto simp: registry_wf_def)
  next
    case (Inr u)
    then have eq: "reg' = reg1\<lparr> rg_meta := AList.delete i (rg_meta reg1),
        rg_logs := (rg_logs reg1)(i := None) \<rparr>" "r = Inr ()"
      using assms(2) st by (auto simp: delete_def bindS_def modifyS_def)
    have "directory reg' = (directory reg)(i := None)"
      using eq disk(2) by (simp add: directory_def fun_eq_iff delete_conv')
    moreover have "disk_directory lib reg' = disk_directory lib reg1"
      using eq by (simp add: disk_directory_def fun_eq_iff)
    ultimately show ?thesis using Inr eq disk wf by (auto simp: registry_wf_def distinct_delete)
  qed
qed

lemma get_or_create_directory:
  assumes "get_or_create lib err i reg = (r, reg')"
  shows "rg_meta reg' = rg_meta reg \<and> rg_disk reg' = rg_disk reg"
  using assms
  by (auto simp: get_or_create_def stm_defs split: sum.splits option.splits prod.splits)

lemma cancel_directory:
  "cancel i reg = (b, reg') \<Longrightarrow> rg_meta reg' = rg_meta reg \<and> rg_disk reg' = rg_disk reg"
  by (auto simp: cancel_def split: option.splits)

lemma registry_wf_cong:
  "rg_meta reg' = rg_meta reg \<Longrightarrow> rg_disk reg' = rg_disk reg \<Longrightarrow>
   (registry_wf lib reg' \<longleftrightarrow> registry_wf lib reg) \<and> directory reg' = directory reg"
  by (simp add: registry_wf_def directory_def disk_directory_def fun_eq_iff)

section \<open>The service as the relay calls it\<close>

text \<open>A handler of the conversations, on the state of the whole harness.\<close>

definition on_registry :: "(registry, 'e, 'a) stm \<Rightarrow> (harness_state, 'e, 'a) stm" where
  "on_registry m hs = (case m (hs_registry hs) of (r, reg) \<Rightarrow> (r, hs\<lparr> hs_registry := reg \<rparr>))"

definition harness_service ::
  "libs \<Rightarrow> (string \<Rightarrow> string + json) \<Rightarrow> (string \<Rightarrow> string \<Rightarrow> (string \<rightharpoonup> string) \<Rightarrow> string + string) \<Rightarrow> bool
   \<Rightarrow> harness_state harness_control" where
  "harness_service lib parse start_call fire =
     \<lparr> hc_watch_tools = (\<lambda>hs. watch_tools (tool_definitions (hs_router hs))),
       hc_dispatch_tool = (\<lambda>i name input conv. svc_dispatch_tool parse start_call lib (ci_uuid i) name input conv),
       hc_await_tool_result = (\<lambda>i call conv. svc_await_tool_result lib (ci_read_error i = None) (ci_live i) call conv),
       hc_cancel_tool = (\<lambda>i call. svc_cancel_tool fire call),
       hc_mint_conversation = (\<lambda>i own. on_registry (svc_mint_conversation lib (ci_io i) (ci_uuid i) (ci_now_ms i) own)),
       hc_list_conversations = (\<lambda>own. on_registry (svc_list_conversations own)),
       hc_delete_conversation = (\<lambda>i conv. on_registry (svc_delete_conversation (ci_io i) conv)),
       hc_set_conversation_name = (\<lambda>i conv name. on_registry (svc_set_conversation_name lib (ci_io i) conv name)),
       hc_cancel_turn = (\<lambda>conv. on_registry (svc_cancel_turn conv)),
       hc_get_conversation_history = (\<lambda>i conv own limit.
         on_registry (svc_get_conversation_history lib (ci_read_error i) conv own limit)) \<rparr>"

lemma svc_mint_law:
  assumes "meta_codec lib" "registry_wf lib reg" "svc_mint_conversation lib io uuid now own reg = (r, reg')"
  shows "registry_wf lib reg' \<and> (case r of
      Inr c \<Rightarrow> c = uuid \<and> directory reg' = (directory reg)(c \<mapsto> (default_name_for_conversation c, own))
    | Inl _ \<Rightarrow> directory reg' = directory reg)"
proof -
  obtain m reg1 where m: "mint lib io uuid now own reg = (m, reg1)" by fastforce
  then show ?thesis
    using mint_directory [OF assms(1,2) m] assms(3)
    by (cases m) (auto simp: svc_mint_conversation_def map_errS_def)
qed

lemma svc_delete_law:
  assumes "registry_wf lib reg" "svc_delete_conversation io c reg = (r, reg')" "\<And>n e. io \<noteq> Io_torn n e"
  shows "registry_wf lib reg' \<and> directory reg' = (case r of Inr _ \<Rightarrow> (directory reg)(c := None) | Inl _ \<Rightarrow> directory reg)"
proof -
  obtain m reg1 where m: "delete io c reg = (m, reg1)" by fastforce
  then show ?thesis
    using delete_directory [OF assms(1) m assms(3)] assms(1,2)
    by (cases m) (auto simp: svc_delete_conversation_def map_errS_def ensureS_def ensure_def bindS_def split: if_splits)
qed

lemma svc_set_name_law:
  assumes "meta_codec lib" "registry_wf lib reg" "svc_set_conversation_name lib io c name reg = (r, reg')"
  shows "registry_wf lib reg' \<and> directory reg' = (case r of
      Inr _ \<Rightarrow> (directory reg)(c := map_option (\<lambda>(_, own). (name, own)) (directory reg c)) | Inl _ \<Rightarrow> directory reg)"
proof (cases "owns c reg")
  case True
  obtain m reg1 where m: "set_name lib io c name reg = (m, reg1)" by fastforce
  then show ?thesis
    using set_name_directory [OF assms(1,2) True m] assms(2,3) True
    by (cases m) (auto simp: svc_set_conversation_name_def map_errS_def ensureS_def ensure_def bindS_def split: if_splits)
next
  case False
  then show ?thesis using assms(2,3)
    by (auto simp: svc_set_conversation_name_def ensureS_def ensure_def bindS_def split: if_splits)
qed

lemma svc_cancel_turn_law:
  "svc_cancel_turn c reg = (r, reg') \<Longrightarrow> rg_meta reg' = rg_meta reg \<and> rg_disk reg' = rg_disk reg"
  using cancel_directory [of c reg]
  by (auto simp: svc_cancel_turn_def ensureS_def ensure_def bindS_def split: if_splits prod.splits)

lemma svc_history_law:
  assumes "svc_get_conversation_history lib err c own limit reg = (r, reg')"
  shows "rg_meta reg' = rg_meta reg \<and> rg_disk reg' = rg_disk reg \<and> (owner_of c reg \<noteq> Some own \<longrightarrow> isl r \<and> reg' = reg)"
proof -
  obtain g reg1 where g: "get_or_create lib err c reg = (g, reg1)" by fastforce
  from get_or_create_directory [OF g] show ?thesis
    using assms g
    by (cases g) (auto simp: svc_get_conversation_history_def ensureS_def ensure_def bindS_def map_errS_def
        owned_by_directory retS_def Let_def split: if_splits)
qed

lemma dispatch_client_tool_registry:
  assumes "dispatch_client_tool parse start_call lib uuid name input conv hs = (r, hs')"
  shows "rg_meta (hs_registry hs') = rg_meta (hs_registry hs) \<and> rg_disk (hs_registry hs') = rg_disk (hs_registry hs)"
proof -
  have "rg_meta (snd (execution_log_for lib conv reg)) = rg_meta reg
      \<and> rg_disk (snd (execution_log_for lib conv reg)) = rg_disk reg" for reg
    by (auto simp: execution_log_for_def split: sum.splits option.splits)
  then show ?thesis
    using assms
    by (auto simp: dispatch_client_tool_def dispatch_client_toolset_tool_def dispatch_client_runtime_tool_def Let_def
        split: option.splits source.splits if_splits sum.splits)
qed

lemma await_client_tool_registry:
  assumes "await_client_tool lib readable live c conv hs = (r, hs')"
  shows "rg_meta (hs_registry hs') = rg_meta (hs_registry hs) \<and> rg_disk (hs_registry hs') = rg_disk (hs_registry hs)"
  using assms
  by (auto simp: await_client_tool_def execution_log_for_def Let_def split: option.splits prod.splits sum.splits)

lemma owner_of_cong: "directory reg' = directory reg \<Longrightarrow> owner_of c reg' = owner_of c reg"
  by (simp add: owner_of_directory)

lemma list_summaries_image:
  "cv_conversation_id ` set (map (\<lambda>(i, ts, name). \<lparr> cv_conversation_id = i, cv_last_touched_ms_epoch = ts,
     cv_name = name, cv_owner = own \<rparr>) l) = fst ` set l"
  by (force simp: image_iff)

interpretation service: harness_contract "harness_service lib parse start_call fire"
  "\<lambda>hs. meta_codec lib \<and> registry_wf lib (hs_registry hs)" "\<lambda>hs c. owner_of c (hs_registry hs)"
  "\<lambda>i. \<forall>n e. ci_io i \<noteq> Io_torn n e" for lib parse start_call fire
proof
  fix h h' :: harness_state and i own r
  assume ok: "meta_codec lib \<and> registry_wf lib (hs_registry h)"
    and run: "hc_mint_conversation (harness_service lib parse start_call fire) i own h = (r, h')"
  obtain m reg where m: "svc_mint_conversation lib (ci_io i) (ci_uuid i) (ci_now_ms i) own (hs_registry h) = (m, reg)"
    by fastforce
  with run have "r = m" "hs_registry h' = reg" by (auto simp: harness_service_def on_registry_def)
  with svc_mint_law [OF conjunct1 [OF ok] conjunct2 [OF ok] m]
  show "(meta_codec lib \<and> registry_wf lib (hs_registry h')) \<and>
    (case r of Inl _ \<Rightarrow> (\<lambda>c. owner_of c (hs_registry h')) = (\<lambda>c. owner_of c (hs_registry h))
     | Inr c \<Rightarrow> c = ci_uuid i \<and> (\<lambda>c. owner_of c (hs_registry h')) = (\<lambda>c. owner_of c (hs_registry h))(c \<mapsto> own))"
    using ok by (cases m) (auto simp: owner_of_directory fun_eq_iff)
next
  fix h h' :: harness_state and own r
  assume ok: "meta_codec lib \<and> registry_wf lib (hs_registry h)"
    and run: "hc_list_conversations (harness_service lib parse start_call fire) own h = (r, h')"
  have "distinct (map fst (rg_meta (hs_registry h)))" using ok by (simp add: registry_wf_def)
  from list_summaries_ids [OF this]
  have "fst ` set (list_summaries own (hs_registry h)) = {c. owner_of c (hs_registry h) = Some own}" by blast
  then show "h' = h \<and> (case r of Inl _ \<Rightarrow> True
     | Inr l \<Rightarrow> cv_conversation_id ` set l = {c. owner_of c (hs_registry h) = Some own})"
    using run list_summaries_image [of own "list_summaries own (hs_registry h)"]
    by (simp add: harness_service_def on_registry_def svc_list_conversations_def getS_def) auto
next
  fix h h' :: harness_state and i c r
  assume ok: "meta_codec lib \<and> registry_wf lib (hs_registry h)" and sane: "\<forall>n e. ci_io i \<noteq> Io_torn n e"
    and run: "hc_delete_conversation (harness_service lib parse start_call fire) i c h = (r, h')"
  obtain m reg where m: "svc_delete_conversation (ci_io i) c (hs_registry h) = (m, reg)" by fastforce
  with run have "r = m" "hs_registry h' = reg" by (auto simp: harness_service_def on_registry_def)
  with svc_delete_law [OF conjunct2 [OF ok] m] sane
  show "(meta_codec lib \<and> registry_wf lib (hs_registry h')) \<and> (\<lambda>c. owner_of c (hs_registry h')) =
    (case r of Inl _ \<Rightarrow> (\<lambda>c. owner_of c (hs_registry h)) | Inr _ \<Rightarrow> (\<lambda>c. owner_of c (hs_registry h))(c := None))"
    using ok by (cases m) (auto simp: owner_of_directory fun_eq_iff)
next
  fix h h' :: harness_state and i c name r
  assume ok: "meta_codec lib \<and> registry_wf lib (hs_registry h)"
    and run: "hc_set_conversation_name (harness_service lib parse start_call fire) i c name h = (r, h')"
  obtain m reg where m: "svc_set_conversation_name lib (ci_io i) c name (hs_registry h) = (m, reg)" by fastforce
  with run have "r = m" "hs_registry h' = reg" by (auto simp: harness_service_def on_registry_def)
  with svc_set_name_law [OF conjunct1 [OF ok] conjunct2 [OF ok] m]
  show "(meta_codec lib \<and> registry_wf lib (hs_registry h')) \<and>
    (\<lambda>c. owner_of c (hs_registry h')) = (\<lambda>c. owner_of c (hs_registry h))"
    using ok by (cases m) (auto simp: owner_of_directory fun_eq_iff option.map_comp comp_def case_prod_unfold)
next
  fix h h' :: harness_state and c r
  assume ok: "meta_codec lib \<and> registry_wf lib (hs_registry h)"
    and run: "hc_cancel_turn (harness_service lib parse start_call fire) c h = (r, h')"
  obtain m reg where m: "svc_cancel_turn c (hs_registry h) = (m, reg)" by fastforce
  with run have "hs_registry h' = reg" by (auto simp: harness_service_def on_registry_def)
  with svc_cancel_turn_law [OF m] ok
  show "(meta_codec lib \<and> registry_wf lib (hs_registry h')) \<and>
    (\<lambda>c. owner_of c (hs_registry h')) = (\<lambda>c. owner_of c (hs_registry h))"
    using registry_wf_cong [of reg "hs_registry h" lib] by (auto simp: owner_of_directory)
next
  fix h h' :: harness_state and i c own limit r
  assume ok: "meta_codec lib \<and> registry_wf lib (hs_registry h)"
    and run: "hc_get_conversation_history (harness_service lib parse start_call fire) i c own limit h = (r, h')"
  obtain m reg where m: "svc_get_conversation_history lib (ci_read_error i) c own limit (hs_registry h) = (m, reg)"
    by fastforce
  with run have "r = m" "h' = h\<lparr> hs_registry := reg \<rparr>" by (auto simp: harness_service_def on_registry_def)
  with svc_history_law [OF m] ok
  show "(meta_codec lib \<and> registry_wf lib (hs_registry h')) \<and>
    (\<lambda>c. owner_of c (hs_registry h')) = (\<lambda>c. owner_of c (hs_registry h)) \<and>
    (owner_of c (hs_registry h) \<noteq> Some own \<longrightarrow> isl r \<and> h' = h)"
    using registry_wf_cong [of reg "hs_registry h" lib] by (auto simp: owner_of_directory)
next
  fix h h' :: harness_state and i name input c r
  assume ok: "meta_codec lib \<and> registry_wf lib (hs_registry h)"
    and run: "hc_dispatch_tool (harness_service lib parse start_call fire) i name input c h = (r, h')"
  obtain m h1 where m: "dispatch_client_tool parse start_call lib (ci_uuid i) name input c h = (m, h1)" by fastforce
  have "rg_meta (hs_registry h') = rg_meta (hs_registry h) \<and> rg_disk (hs_registry h') = rg_disk (hs_registry h)"
    using run m dispatch_client_tool_registry [OF m]
    by (cases m) (auto simp: harness_service_def svc_dispatch_tool_def ensureS_def ensure_def bindS_def map_errS_def split: if_splits)
  then show "(meta_codec lib \<and> registry_wf lib (hs_registry h')) \<and>
    (\<lambda>c. owner_of c (hs_registry h')) = (\<lambda>c. owner_of c (hs_registry h))"
    using ok registry_wf_cong [of "hs_registry h'" "hs_registry h" lib] by (auto simp: owner_of_directory)
next
  fix h h' :: harness_state and i call c r
  assume ok: "meta_codec lib \<and> registry_wf lib (hs_registry h)"
    and run: "hc_await_tool_result (harness_service lib parse start_call fire) i call c h = (r, h')"
  obtain m h1 where m: "await_client_tool lib (ci_read_error i = None) (ci_live i) call c h = (m, h1)" by fastforce
  have "rg_meta (hs_registry h') = rg_meta (hs_registry h) \<and> rg_disk (hs_registry h') = rg_disk (hs_registry h)"
    using run m await_client_tool_registry [OF m]
    by (auto simp: harness_service_def svc_await_tool_result_def ensureS_def ensure_def bindS_def split: if_splits)
  then show "(meta_codec lib \<and> registry_wf lib (hs_registry h')) \<and>
    (\<lambda>c. owner_of c (hs_registry h')) = (\<lambda>c. owner_of c (hs_registry h))"
    using ok registry_wf_cong [of "hs_registry h'" "hs_registry h" lib] by (auto simp: owner_of_directory)
next
  fix h h' :: harness_state and i call r
  assume ok: "meta_codec lib \<and> registry_wf lib (hs_registry h)"
    and run: "hc_cancel_tool (harness_service lib parse start_call fire) i call h = (r, h')"
  have "h' = h"
    using run by (auto simp: harness_service_def svc_cancel_tool_def ensureS_def ensure_def bindS_def getS_def split: if_splits)
  with ok show "(meta_codec lib \<and> registry_wf lib (hs_registry h')) \<and>
    (\<lambda>c. owner_of c (hs_registry h')) = (\<lambda>c. owner_of c (hs_registry h))" by simp
qed

section \<open>Surviving a restart\<close>

text \<open>
  Everything that happens to a registry and its disk: the handlers, a turn that starts
  and ends, a log or an execution log that is appended to, by a turn that may still
  hold it after its conversation was deleted, and a conversation that is touched.
\<close>

datatype harness_op = Op_Mint io string int string | Op_Delete io string | Op_SetName io string string
  | Op_CancelTurn string | Op_History "string option" string string "nat option"
  | Op_RegisterTurn string | Op_EndTurn string | Op_Touch int string
  | Op_AppendEvent io log_entry string | Op_AppendFrame io string tool_result_frame string

fun harness_step :: "libs \<Rightarrow> registry \<Rightarrow> harness_op \<Rightarrow> registry" where
  "harness_step lib reg (Op_Mint io uuid now own) = snd (svc_mint_conversation lib io uuid now own reg)"
| "harness_step lib reg (Op_Delete io c) = snd (svc_delete_conversation io c reg)"
| "harness_step lib reg (Op_SetName io c name) = snd (svc_set_conversation_name lib io c name reg)"
| "harness_step lib reg (Op_CancelTurn c) = snd (svc_cancel_turn c reg)"
| "harness_step lib reg (Op_History err c own limit) = snd (svc_get_conversation_history lib err c own limit reg)"
| "harness_step lib reg (Op_RegisterTurn c) = snd (register_turn c reg)"
| "harness_step lib reg (Op_EndTurn c) = end_turn c reg"
| "harness_step lib reg (Op_Touch now c) = touch now c reg"
| "harness_step lib reg (Op_AppendEvent io l c) = snd (on_store c (append_event (lib_ser_log lib) io l) reg)"
| "harness_step lib reg (Op_AppendFrame io call f c) = snd (on_store c (append_frame (lib_ser_exec lib) c io call f) reg)"

fun torn_delete :: "harness_op \<Rightarrow> bool" where
  "torn_delete (Op_Delete io c) = (case io of Io_torn _ _ \<Rightarrow> True | _ \<Rightarrow> False)"
| "torn_delete _ = False"

lemma store_append_wf:
  assumes "registry_wf lib reg" "\<And>d. sidecar lib (snd (app d)) = sidecar lib d"
  shows "registry_wf lib (snd (on_store c app reg)) \<and> directory (snd (on_store c app reg)) = directory reg"
proof -
  obtain r reg' where st: "on_store c app reg = (r, reg')" by fastforce
  have "sidecar lib d' = sidecar lib d" if "app d = (r, d')" for d r d' using assms(2) [of d] that by simp
  note disk = on_store_disk [where lib = lib and upd = "\<lambda>_ old. old", OF st _ this]
  have "distinct (map fst (rg_disk reg))" using assms(1) by (simp add: registry_wf_def)
  then show ?thesis using disk assms(1) st
    by (auto simp: registry_wf_def directory_def fun_eq_iff)
qed

lemma touch_directory: "directory (touch now c reg) = directory reg"
  by (auto simp: touch_def directory_with_meta directory_def fun_eq_iff)

lemma registry_wf_same:
  "registry_wf lib reg \<Longrightarrow> rg_meta reg' = rg_meta reg \<Longrightarrow> rg_disk reg' = rg_disk reg \<Longrightarrow> registry_wf lib reg'"
  using registry_wf_cong by blast

lemma harness_step_wf:
  assumes "meta_codec lib" "registry_wf lib reg" "\<not> torn_delete op"
  shows "registry_wf lib (harness_step lib reg op)"
proof (cases op)
  case (Op_Mint io uuid now own)
  then show ?thesis
    using svc_mint_law [OF assms(1,2)] by (cases "svc_mint_conversation lib io uuid now own reg") auto
next
  case (Op_Delete io c)
  then have "\<And>n e. io \<noteq> Io_torn n e" using assms(3) by auto
  then show ?thesis
    using svc_delete_law [OF assms(2)] Op_Delete by (cases "svc_delete_conversation io c reg") auto
next
  case (Op_SetName io c name)
  then show ?thesis
    using svc_set_name_law [OF assms(1,2)] by (cases "svc_set_conversation_name lib io c name reg") auto
next
  case (Op_CancelTurn c)
  then show ?thesis
    using svc_cancel_turn_law [of c reg] by (intro registry_wf_same [OF assms(2)]) (cases "svc_cancel_turn c reg"; auto)+
next
  case (Op_History err c own limit)
  then show ?thesis
    using svc_history_law [of lib err c own limit reg]
    by (intro registry_wf_same [OF assms(2)]) (cases "svc_get_conversation_history lib err c own limit reg"; auto)+
next
  case (Op_RegisterTurn c)
  then show ?thesis by (intro registry_wf_same [OF assms(2)]) (simp_all add: register_turn_def)
next
  case (Op_EndTurn c)
  then show ?thesis by (intro registry_wf_same [OF assms(2)]) (simp_all add: end_turn_def)
next
  case (Op_Touch now c)
  then show ?thesis
    using assms(2) touch_directory [of now c reg] distinct_with_meta
    by (simp add: registry_wf_def touch_def disk_directory_def fun_eq_iff)
next
  case (Op_AppendEvent io l c)
  then show ?thesis using store_append_wf [OF assms(2) append_event_sidecar] by simp
next
  case (Op_AppendFrame io call f c)
  then show ?thesis using store_append_wf [OF assms(2) append_frame_sidecar] by simp
qed

lemma harness_steps_wf:
  "meta_codec lib \<Longrightarrow> registry_wf lib reg \<Longrightarrow> \<not> list_ex torn_delete ops \<Longrightarrow>
   registry_wf lib (foldl (harness_step lib) reg ops)"
  by (induction ops arbitrary: reg) (auto simp: harness_step_wf)

lemma seed_meta_directory:
  "map_option (\<lambda>m. (mt_name m, mt_owner m)) (map_of (foldl seed_meta meta pairs) i) =
     (case map_of meta i of Some m \<Rightarrow> Some (mt_name m, mt_owner m) | None \<Rightarrow> map_of pairs i)"
proof (induction pairs arbitrary: meta)
  case (Cons p pairs)
  obtain j name own where p: "p = (j, name, own)" by (cases p)
  have "map_of (seed_meta meta p) = (case map_of meta j of Some _ \<Rightarrow> map_of meta
      | None \<Rightarrow> (map_of meta)(j \<mapsto> \<lparr> mt_last_touched_ms = 0, mt_name = name, mt_owner = own \<rparr>))"
    by (simp add: p seed_meta_def update_conv' split: option.splits)
  then show ?case
    using Cons.IH [of "seed_meta meta p"] by (auto simp: p split: option.splits)
qed (simp split: option.splits)

lemma walk_conversations_sidecars:
  assumes "distinct (map fst disk)" "walk_conversations lib True None (\<lambda>_. None) disk = Inr pairs"
  shows "map_of pairs i = sidecar lib (map_of disk i)"
proof -
  have eq: "(\<lambda>(conv_id, d). case read_meta (lib_de_meta lib) None (Some d) of
      Inr (Some (name, own)) \<Rightarrow> Some (conv_id, name, own) | Inr None \<Rightarrow> None | Inl _ \<Rightarrow> None)
    = (\<lambda>(j, d). map_option (Pair j) (sidecar lib (Some d)))"
    by (auto simp: sidecar_def fun_eq_iff split: sum.splits option.splits)
  have "Option.bind (map_of disk i) (\<lambda>d. sidecar lib (Some d)) = sidecar lib (map_of disk i)"
    by (cases "map_of disk i") (simp_all add: sidecar_def read_meta_def)
  moreover have "pairs = List.map_filter (\<lambda>(j, d). map_option (Pair j) (sidecar lib (Some d))) disk"
    using assms(2) unfolding walk_conversations_def by (simp add: eq)
  ultimately show ?thesis
    using map_of_map_filter [OF assms(1), of "\<lambda>d. sidecar lib (Some d)" i] by simp
qed

text \<open>
  C4. Conversations survive a restart: after any sequence of mints, renames, deletes,
  turns and appends on a new volume, none of whose deletes was cut off half-way, a new
  harness that reads the sidecars back knows exactly the same conversations, with the
  same names and owners.
\<close>

theorem registry_survives_restart:
  assumes "meta_codec lib" "\<not> list_ex torn_delete ops"
  shows "\<exists>reg'. rebuild_from_disk lib True None (\<lambda>_. None)
      (registry_new (rg_disk (foldl (harness_step lib) (registry_new []) ops))) = (Inr (), reg') \<and>
    directory reg' = directory (foldl (harness_step lib) (registry_new []) ops)"
proof -
  let ?reg = "foldl (harness_step lib) (registry_new []) ops"
  have "registry_wf lib (registry_new [])"
    by (simp add: registry_wf_def registry_new_def directory_def disk_directory_def sidecar_def read_meta_def fun_eq_iff)
  then have wf: "registry_wf lib ?reg" using harness_steps_wf assms by blast
  obtain pairs where pairs: "walk_conversations lib True None (\<lambda>_. None) (rg_disk ?reg) = Inr pairs"
    by (simp add: walk_conversations_def)
  have "distinct (map fst (rg_disk ?reg))" using wf by (simp add: registry_wf_def)
  then have "map_of pairs i = directory ?reg i" for i
    using walk_conversations_sidecars [OF _ pairs] wf by (simp add: registry_wf_def disk_directory_def)
  then show ?thesis
    using pairs seed_meta_directory [of "[]" pairs]
    by (auto simp: rebuild_from_disk_def stm_defs registry_new_def directory_def fun_eq_iff)
qed

text \<open>A codec of the sidecar, for the witness: the name's length in unary, the name, the owner.\<close>

definition unary_libs :: libs where
  "unary_libs = sample_libs
     \<lparr> lib_ser_meta := (\<lambda>m. Inr (replicate (length (mf_name m)) (CHR ''1'') @ ''0'' @ mf_name m @ mf_owner m)),
       lib_de_meta := (\<lambda>t. let n = length (takeWhile (\<lambda>c. c = CHR ''1'') t); rest = drop (Suc n) t
                           in Inr \<lparr> mf_name = take n rest, mf_owner = drop n rest \<rparr>) \<rparr>"

lemma unary_codec: "meta_codec unary_libs"
proof -
  have "length (takeWhile (\<lambda>c. c = CHR ''1'') (replicate n (CHR ''1'') @ CHR ''0'' # t)) = n" for n t
    by (induction n) auto
  then show ?thesis by (simp add: meta_codec_def unary_libs_def Let_def)
qed

theorem registry_survives_restart_witness:
  "let ops = [Op_Mint Io_ok ''id1'' 5 ''alice'', Op_Mint Io_ok ''id2'' 6 ''bob'', Op_SetName Io_ok ''id2'' ''notes'',
              Op_Delete Io_ok ''id1''];
       reg = foldl (harness_step unary_libs) (registry_new []) ops
   in meta_codec unary_libs \<and> directory reg ''id2'' = Some (''notes'', ''bob'') \<and>
      (\<exists>reg'. rebuild_from_disk unary_libs True None (\<lambda>_. None) (registry_new (rg_disk reg)) = (Inr (), reg') \<and>
         directory reg' ''id2'' = Some (''notes'', ''bob''))"
proof -
  let ?ops = "[Op_Mint Io_ok ''id1'' 5 ''alice'', Op_Mint Io_ok ''id2'' 6 ''bob'', Op_SetName Io_ok ''id2'' ''notes'',
              Op_Delete Io_ok ''id1'']"
  let ?reg = "foldl (harness_step unary_libs) (registry_new []) ?ops"
  have len: "chars_count ''notes'' \<le> MAX_CONVERSATION_NAME_CHARS" by code_simp
  have dir: "directory ?reg ''id2'' = Some (''notes'', ''bob'')"
    using len
    by (simp add: svc_mint_conversation_def svc_set_conversation_name_def svc_delete_conversation_def mint_def set_name_def
        delete_def on_store_def write_meta_def delete_all_def stm_defs map_errS_def ensureS_def registry_new_def
        put_dir_def with_meta_def owner_of_def owns_def validate_conversation_id_def unary_libs_def sample_libs_def
        directory_def Let_def)
  show ?thesis
    using registry_survives_restart [OF unary_codec, of ?ops] dir unary_codec by (auto simp: Let_def)
qed

end
