(* ===== verification/Gateway_State.thy ===== *)
theory Gateway_State
  imports Identity Harness_Api Auth "HOL-Library.AList"
begin

text \<open>
  The live state of the relay, \<^verbatim>\<open>relay-controller/src/state.rs\<close>, and its pool of harness
  connections, \<^verbatim>\<open>harness_client.rs\<close>. A \<^verbatim>\<open>HashMap\<close> that is iterated is an association
  list. A channel stream's queue is the list of the frames sent on it; a send fails once
  the receiving side is gone. The wait of a send on a full queue is not modelled. The
  oneshot channel of a pending server request is a numbered waiter.
\<close>

section \<open>Data\<close>

datatype request_outcome = Client_Result string | Client_Error "int \<times> string"

datatype request_error = UnknownChannelStream | UnsupportedMethod | SendFailed | Timeout | Disconnected

datatype channel_stream_opener = Opener_Person | Opener_Channel string string

record channel_stream_entry =
  se_opener :: channel_stream_opener
  se_subject :: string
  se_workspace :: string
  se_tx :: "outbound list"
  se_open :: bool
  se_current_state :: int
  se_supported_methods :: "string list"
  se_heartbeat :: bool

record turn_state_record =
  tr_state :: int
  tr_reason :: string
  tr_code :: string

text \<open>
  A waiter is parked on a request, has its result, or was abandoned by the call that
  parked it.
\<close>

datatype waiter = Parked "string \<times> string" | Answered "request_error + request_outcome" | Abandoned

record gateway_state =
  channel_streams :: "(string \<times> channel_stream_entry) list"
  last_turn_state :: "string \<times> string \<rightharpoonup> turn_state_record"
  subscribers :: "string \<rightharpoonup> user_message list"
  identity :: identity_table
  conversation_owners :: "string \<rightharpoonup> string"
  dispatched_calls :: "string \<rightharpoonup> string \<times> string"
  kube_configured :: bool
  namespace :: string
  pool_clients :: "string list"
  service_template :: string
  capabilities :: capability_grants
  idp_issuer :: string
  idp_audience :: string
  idp_certificate_authority :: string
  pending_server_requests :: "string \<times> string \<rightharpoonup> nat"
  waiters :: "nat \<rightharpoonup> waiter"
  next_waiter :: nat
  heartbeats_enabled :: bool

definition pool_template :: "string \<Rightarrow> string" where
  "pool_template ns = ''http://'' @ WORKSPACE_PREFIX @ ''{workspace}.'' @ ns @ ''.svc.cluster.local:9091''"

definition gateway_new_with_idp :: "bool \<Rightarrow> string \<Rightarrow> string \<Rightarrow> string \<Rightarrow> string \<Rightarrow> gateway_state" where
  "gateway_new_with_idp kube ns issuer audience ca =
     \<lparr> channel_streams = [], last_turn_state = Map.empty, subscribers = Map.empty,
       identity = \<lparr> by_subject = Map.empty, handles = Map.empty \<rparr>,
       conversation_owners = Map.empty, dispatched_calls = Map.empty,
       kube_configured = kube, namespace = ns, pool_clients = [], service_template = pool_template ns,
       capabilities = Map.empty, idp_issuer = issuer, idp_audience = audience,
       idp_certificate_authority = ca, pending_server_requests = Map.empty, waiters = Map.empty,
       next_waiter = 0, heartbeats_enabled = True \<rparr>"

definition gateway_new :: "bool \<Rightarrow> string \<Rightarrow> gateway_state" where
  "gateway_new kube ns = gateway_new_with_idp kube ns [] [] []"

text \<open>An interval of zero disables the heartbeats.\<close>

definition set_heartbeat_interval :: "nat \<Rightarrow> gateway_state \<Rightarrow> gateway_state" where
  "set_heartbeat_interval secs g = g\<lparr> heartbeats_enabled := (secs \<noteq> 0) \<rparr>"

section \<open>The message bus\<close>

definition BUS_CAPACITY :: nat where
  "BUS_CAPACITY = 16"

text \<open>A receiver is the position in the bus at which it subscribed.\<close>

definition subscribe_or_create :: "string \<Rightarrow> gateway_state \<Rightarrow> nat \<times> gateway_state" where
  "subscribe_or_create workspace g =
     (case subscribers g workspace of
        Some sent \<Rightarrow> (length sent, g)
      | None \<Rightarrow> (0, g\<lparr> subscribers := (subscribers g)(workspace \<mapsto> []) \<rparr>))"

definition notify_subscriber :: "string \<Rightarrow> user_message \<Rightarrow> gateway_state \<Rightarrow> gateway_state" where
  "notify_subscriber workspace m g =
     (case subscribers g workspace of
        Some sent \<Rightarrow> g\<lparr> subscribers := (subscribers g)(workspace \<mapsto> sent @ [m]) \<rparr>
      | None \<Rightarrow> g)"

text \<open>
  One \<^verbatim>\<open>recv\<close> of a receiver at a position: nothing yet, the next message, or the error
  of a receiver that has fallen behind the bus by more than its capacity.
\<close>

definition bus_recv :: "nat \<Rightarrow> user_message list \<Rightarrow> (unit + user_message) option" where
  "bus_recv pos sent =
     (if length sent \<le> pos then None
      else if length sent - pos > BUS_CAPACITY then Some (Inl ())
      else Some (Inr (sent ! pos)))"

section \<open>Records kept per caller\<close>

definition record_conversation_owner :: "string \<Rightarrow> string \<Rightarrow> gateway_state \<Rightarrow> gateway_state" where
  "record_conversation_owner conversation_id subj g =
     g\<lparr> conversation_owners := (conversation_owners g)(conversation_id \<mapsto> subj) \<rparr>"

definition record_dispatched_call :: "string \<Rightarrow> string \<Rightarrow> string \<Rightarrow> gateway_state \<Rightarrow> gateway_state" where
  "record_dispatched_call call_id subj workspace g =
     g\<lparr> dispatched_calls := (dispatched_calls g)(call_id \<mapsto> (subj, workspace)) \<rparr>"

definition record_turn_state :: "string \<Rightarrow> string \<Rightarrow> turn_state_record \<Rightarrow> gateway_state \<Rightarrow> gateway_state" where
  "record_turn_state subj conversation_id rec g =
     (if conversation_id = [] then g
      else g\<lparr> last_turn_state := (last_turn_state g)((subj, conversation_id) \<mapsto> rec) \<rparr>)"

definition turn_state_record_of :: "string \<Rightarrow> string \<Rightarrow> gateway_state \<Rightarrow> turn_state_record option" where
  "turn_state_record_of subj conversation_id g = last_turn_state g (subj, conversation_id)"

section \<open>Channel streams\<close>

text \<open>\<^verbatim>\<open>tx.send(msg).await\<close>.\<close>

definition tx_send :: "outbound \<Rightarrow> channel_stream_entry \<Rightarrow> channel_stream_entry" where
  "tx_send msg e = (if se_open e then e\<lparr> se_tx := se_tx e @ [msg] \<rparr> else e)"

definition with_stream :: "string \<Rightarrow> (channel_stream_entry \<Rightarrow> channel_stream_entry) \<Rightarrow> gateway_state \<Rightarrow> gateway_state" where
  "with_stream i f g = g\<lparr> channel_streams := AList.map_entry i f (channel_streams g) \<rparr>"

text \<open>The frames of one loop over the streams of a workspace that satisfy a condition.\<close>

definition fan_out ::
  "(channel_stream_entry \<Rightarrow> bool) \<Rightarrow> string \<Rightarrow> outbound \<Rightarrow> gateway_state \<Rightarrow> nat \<times> gateway_state" where
  "fan_out P workspace msg g =
     (let sel = (\<lambda>e. se_workspace e = workspace \<and> P e) in
      (length (filter (\<lambda>(_, e). sel e \<and> se_open e) (channel_streams g)),
       g\<lparr> channel_streams := map (\<lambda>(i, e). (i, if sel e then tx_send msg e else e)) (channel_streams g) \<rparr>))"

definition mint_channel_stream ::
  "string \<Rightarrow> channel_stream_opener \<Rightarrow> string \<Rightarrow> string \<Rightarrow> gateway_state \<Rightarrow> gateway_state" where
  "mint_channel_stream i opener subj workspace g =
     g\<lparr> channel_streams := AList.update i
          \<lparr> se_opener = opener, se_subject = subj, se_workspace = workspace, se_tx = [], se_open = True,
            se_current_state = turn_idle, se_supported_methods = [], se_heartbeat = False \<rparr>
          (channel_streams g) \<rparr>"

definition unregister_channel_stream :: "string \<Rightarrow> gateway_state \<Rightarrow> gateway_state" where
  "unregister_channel_stream i g = g\<lparr> channel_streams := AList.delete i (channel_streams g) \<rparr>"

definition send_to_workspace :: "string \<Rightarrow> outbound \<Rightarrow> gateway_state \<Rightarrow> nat \<times> gateway_state" where
  "send_to_workspace workspace msg g = fan_out (\<lambda>_. True) workspace msg g"

definition spawn_heartbeat :: "string \<Rightarrow> gateway_state \<Rightarrow> gateway_state" where
  "spawn_heartbeat i g = (if heartbeats_enabled g then with_stream i (\<lambda>e. e\<lparr> se_heartbeat := True \<rparr>) g else g)"

text \<open>One tick of the heartbeat task of a stream; the task ends when its send fails.\<close>

definition heartbeat_tick :: "string \<Rightarrow> gateway_state \<Rightarrow> gateway_state" where
  "heartbeat_tick i g =
     with_stream i (\<lambda>e. if \<not> se_heartbeat e then e
       else if se_open e then tx_send (Some Command_Heartbeat) e
       else e\<lparr> se_heartbeat := False \<rparr>) g"

definition channel_stream_binding ::
  "string \<Rightarrow> gateway_state \<Rightarrow> (channel_stream_opener \<times> string \<times> string) option" where
  "channel_stream_binding i g =
     map_option (\<lambda>e. (se_opener e, se_subject e, se_workspace e)) (map_of (channel_streams g) i)"

definition send_to_channel_stream :: "string \<Rightarrow> outbound \<Rightarrow> gateway_state \<Rightarrow> bool \<times> gateway_state" where
  "send_to_channel_stream i msg g =
     (case map_of (channel_streams g) i of
        Some e \<Rightarrow> (se_open e, with_stream i (tx_send msg) g)
      | None \<Rightarrow> (False, g))"

text \<open>A turn-state event whose other fields are empty.\<close>

definition turn_state_event_of :: "int \<Rightarrow> string \<Rightarrow> string \<Rightarrow> string \<Rightarrow> turn_state_event" where
  "turn_state_event_of state conversation_id reason cd =
     \<lparr> ts_state = state, ts_conversation_id = conversation_id, ts_reason = reason,
       ts_code = cd, ts_agent_name = [], ts_system_prompt_sha256 = [] \<rparr>"

abbreviation turn_state_frame :: "int \<Rightarrow> string \<Rightarrow> string \<Rightarrow> string \<Rightarrow> outbound" where
  "turn_state_frame state conversation_id reason cd \<equiv>
     Some (Command_TurnState (turn_state_event_of state conversation_id reason cd))"

definition set_and_broadcast_turn_state ::
  "string \<Rightarrow> string \<Rightarrow> string \<Rightarrow> int \<Rightarrow> gateway_state \<Rightarrow> gateway_state" where
  "set_and_broadcast_turn_state i subj conversation_id state g =
     with_stream i (\<lambda>e. tx_send (turn_state_frame state conversation_id [] []) (e\<lparr> se_current_state := state \<rparr>))
       (record_turn_state subj conversation_id \<lparr> tr_state = state, tr_reason = [], tr_code = [] \<rparr> g)"

definition replay_turn_state :: "string \<Rightarrow> gateway_state \<Rightarrow> gateway_state" where
  "replay_turn_state i g =
     with_stream i (\<lambda>e. tx_send (turn_state_frame (se_current_state e) [] [] []) e) g"

definition update_supported_methods :: "string \<Rightarrow> string list \<Rightarrow> gateway_state \<Rightarrow> gateway_state" where
  "update_supported_methods i methods g = with_stream i (\<lambda>e. e\<lparr> se_supported_methods := methods \<rparr>) g"

section \<open>Server requests\<close>

definition server_request_frame :: "string \<Rightarrow> string \<Rightarrow> string \<Rightarrow> outbound" where
  "server_request_frame request_id meth params_json =
     Some (Command_ServerRequest \<lparr> sr_request_id = request_id, sr_method = meth, sr_params_json = params_json \<rparr>)"

definition supports :: "string \<Rightarrow> channel_stream_entry \<Rightarrow> bool" where
  "supports meth e \<longleftrightarrow> meth \<in> set (se_supported_methods e)"

definition workspace_streams :: "string \<Rightarrow> gateway_state \<Rightarrow> channel_stream_entry list" where
  "workspace_streams workspace g = filter (\<lambda>e. se_workspace e = workspace) (map snd (channel_streams g))"

definition send_server_notification ::
  "string \<Rightarrow> string \<Rightarrow> string \<Rightarrow> (gateway_state, request_error, unit) stm" where
  "send_server_notification workspace meth params_json g =
     (if workspace_streams workspace g = [] then (Inl UnknownChannelStream, g)
      else
        case fan_out (supports meth) workspace (server_request_frame [] meth params_json) g of
          (sent, g') \<Rightarrow> (if sent = 0 then Inl UnsupportedMethod else Inr (), g'))"

text \<open>
  Dropping the sender of a parked waiter disconnects it.
\<close>

definition drop_sender :: "string \<times> string \<Rightarrow> gateway_state \<Rightarrow> gateway_state" where
  "drop_sender k g =
     (case pending_server_requests g k of
        None \<Rightarrow> g
      | Some n \<Rightarrow>
          g\<lparr> pending_server_requests := (pending_server_requests g)(k := None),
             waiters := (case waiters g n of
                Some (Parked _) \<Rightarrow> (waiters g)(n \<mapsto> Answered (Inl Disconnected))
              | _ \<Rightarrow> waiters g) \<rparr>)"

text \<open>
  \<^verbatim>\<open>send_server_request_and_await\<close> up to the wait: the waiter it parks, or the error.
  Registering under a key in use drops the sender that was there.
\<close>

definition park_waiter :: "string \<times> string \<Rightarrow> gateway_state \<Rightarrow> nat \<times> gateway_state" where
  "park_waiter k g =
     (let n = next_waiter g; g1 = drop_sender k g in
      (n, g1\<lparr> pending_server_requests := (pending_server_requests g1)(k \<mapsto> n),
              waiters := (waiters g1)(n \<mapsto> Parked k), next_waiter := Suc n \<rparr>))"

definition send_server_request ::
  "string \<Rightarrow> string \<Rightarrow> string \<Rightarrow> string \<Rightarrow> (gateway_state, request_error, nat) stm" where
  "send_server_request workspace request_id meth params_json g =
     (if workspace_streams workspace g = [] then (Inl UnknownChannelStream, g)
      else if \<not> list_ex (supports meth) (workspace_streams workspace g) then (Inl UnsupportedMethod, g)
      else
        case park_waiter (workspace, request_id) g of (n, g1) \<Rightarrow>
        (case send_to_workspace workspace (server_request_frame request_id meth params_json) g1 of (sent, g2) \<Rightarrow>
          if sent = 0 then
            (Inl SendFailed, g2\<lparr> pending_server_requests := (pending_server_requests g2)((workspace, request_id) := None),
                                 waiters := (waiters g2)(n \<mapsto> Answered (Inl SendFailed)) \<rparr>)
          else (Inr n, g2)))"

text \<open>
  The rest of the wait: the timeout removes the pending slot; a call that is dropped by
  its client leaves the slot behind.
\<close>

definition waiter_timeout :: "nat \<Rightarrow> gateway_state \<Rightarrow> gateway_state" where
  "waiter_timeout n g =
     (case waiters g n of
        Some (Parked k) \<Rightarrow>
          g\<lparr> pending_server_requests := (pending_server_requests g)(k := None),
             waiters := (waiters g)(n \<mapsto> Answered (Inl Timeout)) \<rparr>
      | _ \<Rightarrow> g)"

definition abandon_waiter :: "nat \<Rightarrow> gateway_state \<Rightarrow> gateway_state" where
  "abandon_waiter n g =
     (case waiters g n of
        Some (Parked k) \<Rightarrow> g\<lparr> waiters := (waiters g)(n \<mapsto> Abandoned) \<rparr>
      | _ \<Rightarrow> g)"

definition deliver_client_response ::
  "string \<Rightarrow> string \<Rightarrow> request_outcome \<Rightarrow> gateway_state \<Rightarrow> bool \<times> gateway_state" where
  "deliver_client_response workspace request_id outcome g =
     (case pending_server_requests g (workspace, request_id) of
        None \<Rightarrow> (False, g)
      | Some n \<Rightarrow>
          let g1 = g\<lparr> pending_server_requests := (pending_server_requests g)((workspace, request_id) := None) \<rparr> in
          (case waiters g n of
             Some (Parked _) \<Rightarrow> (True, g1\<lparr> waiters := (waiters g1)(n \<mapsto> Answered (Inr outcome)) \<rparr>)
           | _ \<Rightarrow> (False, g1)))"

section \<open>The harness pool\<close>

definition addr_for :: "string \<Rightarrow> string \<Rightarrow> string" where
  "addr_for template workspace = replace ''{workspace}'' workspace template"

text \<open>
  \<open>dial addr\<close> is the outcome of the connect within the dial budget, if there is one.
\<close>

definition pool_get :: "(string \<Rightarrow> (string + unit) option) \<Rightarrow> string \<Rightarrow> (gateway_state, string, unit) stm" where
  "pool_get dial workspace g =
     (if workspace \<in> set (pool_clients g) then (Inr (), g)
      else
        let addr = addr_for (service_template g) workspace in
        case dial addr of
          None \<Rightarrow> (Inl (''timed out dialing harness at '' @ addr @ '' within the dial budget''), g)
        | Some (Inl e) \<Rightarrow> (Inl e, g)
        | Some (Inr _) \<Rightarrow> (Inr (), g\<lparr> pool_clients := workspace # pool_clients g \<rparr>))"

section \<open>Pending requests\<close>

text \<open>
  Every pending slot leads to a waiter that is parked on it or was abandoned, and every
  parked waiter has its slot: an answer can always reach it.
\<close>

definition requests_wf :: "gateway_state \<Rightarrow> bool" where
  "requests_wf g \<longleftrightarrow>
     (\<forall>k n. pending_server_requests g k = Some n \<longrightarrow> waiters g n \<in> {Some (Parked k), Some Abandoned}) \<and>
     (\<forall>n k. waiters g n = Some (Parked k) \<longrightarrow> pending_server_requests g k = Some n) \<and>
     (\<forall>n. next_waiter g \<le> n \<longrightarrow> waiters g n = None)"

text \<open>The state of the requests, and that a result once given is kept.\<close>

definition requests :: "gateway_state \<Rightarrow> (string \<times> string \<rightharpoonup> nat) \<times> (nat \<rightharpoonup> waiter) \<times> nat" where
  "requests g = (pending_server_requests g, waiters g, next_waiter g)"

definition answers_kept :: "gateway_state \<Rightarrow> gateway_state \<Rightarrow> bool" where
  "answers_kept g g' \<longleftrightarrow> (\<forall>n x. waiters g n = Some (Answered x) \<longrightarrow> waiters g' n = Some (Answered x))"

lemma requests_wfD:
  assumes "requests_wf g"
  shows "pending_server_requests g k = Some n \<Longrightarrow> waiters g n = Some (Parked k) \<or> waiters g n = Some Abandoned"
    and "waiters g n = Some (Parked k) \<Longrightarrow> pending_server_requests g k = Some n"
    and "next_waiter g \<le> n \<Longrightarrow> waiters g n = None"
  using assms by (auto simp: requests_wf_def simp del: split_paired_All)

lemma requests_wf_cong: "requests g' = requests g \<Longrightarrow> requests_wf g' \<longleftrightarrow> requests_wf g"
  by (simp add: requests_wf_def requests_def)

lemma answers_kept_cong: "requests g' = requests g \<Longrightarrow> answers_kept g g'"
  by (simp add: answers_kept_def requests_def)

lemma answers_kept_refl: "waiters g' = waiters g \<Longrightarrow> answers_kept g g'"
  by (simp add: answers_kept_def)

lemma answers_kept_trans: "answers_kept a b \<Longrightarrow> answers_kept b c \<Longrightarrow> answers_kept a c"
  by (simp add: answers_kept_def)

lemma parked_unique:
  "requests_wf g \<Longrightarrow> waiters g n = Some (Parked k) \<Longrightarrow> pending_server_requests g k' = Some n \<longleftrightarrow> k' = k"
  using requests_wfD(1) [of g k' n] requests_wfD(2) [of g n k] by auto

text \<open>Giving a parked waiter its result frees its slot; a slot whose waiter is gone can be freed.\<close>

lemma close_waiter_wf:
  assumes "requests_wf g" "waiters g n = Some (Parked k)"
  shows "requests_wf (g\<lparr> pending_server_requests := (pending_server_requests g)(k := None),
            waiters := (waiters g)(n \<mapsto> Answered x) \<rparr>) \<and>
         answers_kept g (g\<lparr> pending_server_requests := (pending_server_requests g)(k := None),
            waiters := (waiters g)(n \<mapsto> Answered x) \<rparr>)"
proof -
  have "pending_server_requests g k' \<noteq> Some n" if "k' \<noteq> k" for k'
    using that parked_unique [OF assms] by blast
  moreover have "waiters g m \<noteq> Some (Parked k)" if "m \<noteq> n" for m
    using that assms requests_wfD(2) [OF assms(1)] by (metis option.inject)
  moreover have "n < next_waiter g" using requests_wfD(3) [OF assms(1), of n] assms(2) by (metis not_le option.discI)
  ultimately show ?thesis
    using assms unfolding requests_wf_def answers_kept_def by (simp del: split_paired_All)
qed

lemma free_slot_wf:
  assumes "requests_wf g" "pending_server_requests g k = Some n" "waiters g n = Some Abandoned"
  shows "requests_wf (g\<lparr> pending_server_requests := (pending_server_requests g)(k := None) \<rparr>)"
proof -
  have "waiters g m \<noteq> Some (Parked k)" for m using assms requests_wfD(2) [OF assms(1), of m k] by auto
  then show ?thesis using assms(1) unfolding requests_wf_def by (simp del: split_paired_All)
qed

lemma slot_cases:
  assumes "requests_wf g"
  obtains (free) "pending_server_requests g k = None"
    | (parked) n where "pending_server_requests g k = Some n" "waiters g n = Some (Parked k)"
    | (abandoned) n where "pending_server_requests g k = Some n" "waiters g n = Some Abandoned"
  using requests_wfD(1) [OF assms, of k] by (cases "pending_server_requests g k") auto

lemma drop_sender_wf:
  assumes "requests_wf g"
  shows "requests_wf (drop_sender k g) \<and> answers_kept g (drop_sender k g)"
    "pending_server_requests (drop_sender k g) k = None" "next_waiter (drop_sender k g) = next_waiter g"
proof -
  from assms show "requests_wf (drop_sender k g) \<and> answers_kept g (drop_sender k g)"
  proof (cases rule: slot_cases [where k = k])
    case (parked n)
    then show ?thesis using close_waiter_wf [OF assms parked(2)] by (simp add: drop_sender_def)
  next
    case (abandoned n)
    then show ?thesis using free_slot_wf [OF assms abandoned] by (simp add: drop_sender_def answers_kept_def)
  qed (use assms in \<open>simp add: drop_sender_def answers_kept_def\<close>)
  show "pending_server_requests (drop_sender k g) k = None" "next_waiter (drop_sender k g) = next_waiter g"
    by (auto simp: drop_sender_def split: option.splits)
qed

lemma park_waiter_wf:
  assumes "requests_wf g" "park_waiter k g = (n, g')"
  shows "requests_wf g'" "answers_kept g g'" "waiters g' n = Some (Parked k)"
proof -
  let ?d = "drop_sender k g"
  note d = drop_sender_wf [OF assms(1), of k]
  have fresh: "waiters ?d n = None" "n = next_waiter ?d"
    using d(3) requests_wfD(3) [of ?d] d(1) assms(2) by (auto simp: park_waiter_def Let_def)
  have g': "g' = ?d\<lparr> pending_server_requests := (pending_server_requests ?d)(k \<mapsto> n),
      waiters := (waiters ?d)(n \<mapsto> Parked k), next_waiter := Suc n \<rparr>"
    using assms(2) d(3) fresh(2) by (auto simp: park_waiter_def Let_def)
  have "pending_server_requests ?d k' \<noteq> Some n" for k' using requests_wfD(1) [of ?d k' n] d(1) fresh(1) by auto
  moreover have "waiters ?d m \<noteq> Some (Parked k)" for m using requests_wfD(2) [of ?d m k] d(1,2) by auto
  ultimately show "requests_wf g'"
    using d(1) fresh unfolding g' requests_wf_def by (simp del: split_paired_All)
  show "answers_kept g g'" using d(1) fresh(1) unfolding g' answers_kept_def by auto
  show "waiters g' n = Some (Parked k)" by (simp add: g')
qed

lemma fan_out_requests: "fan_out P w m g = (k, g') \<Longrightarrow> requests g' = requests g"
  by (auto simp: fan_out_def Let_def requests_def)

lemma send_server_request_wf:
  assumes "requests_wf g" "send_server_request w i m p g = (r, g')"
  shows "requests_wf g' \<and> answers_kept g g'"
proof (cases "workspace_streams w g = [] \<or> \<not> list_ex (supports m) (workspace_streams w g)")
  case True
  then show ?thesis using assms by (auto simp: send_server_request_def answers_kept_def split: if_splits)
next
  case False
  obtain n g1 where g1: "park_waiter (w, i) g = (n, g1)" by fastforce
  obtain sent g2 where g2: "send_to_workspace w (server_request_frame i m p) g1 = (sent, g2)" by fastforce
  note wf = park_waiter_wf [OF assms(1) g1]
  have req: "pending_server_requests g2 = pending_server_requests g1" "waiters g2 = waiters g1" "next_waiter g2 = next_waiter g1"
    using fan_out_requests g2 by (auto simp: send_to_workspace_def requests_def)
  have "g' = g2 \<or> g' = g2\<lparr> pending_server_requests := (pending_server_requests g2)((w, i) := None),
      waiters := (waiters g2)(n \<mapsto> Answered (Inl SendFailed)) \<rparr>"
    using assms(2) False g1 g2 by (auto simp: send_server_request_def split: if_splits)
  moreover have "requests_wf g2" "waiters g2 n = Some (Parked (w, i))" "answers_kept g g2"
    using wf req by (auto simp: requests_wf_def answers_kept_def simp del: split_paired_All)
  ultimately show ?thesis using close_waiter_wf answers_kept_trans by blast
qed

lemma deliver_client_response_wf:
  assumes "requests_wf g" "deliver_client_response w i out g = (b, g')"
  shows "requests_wf g' \<and> answers_kept g g'"
  using assms(1)
proof (cases rule: slot_cases [where k = "(w, i)"])
  case free
  then show ?thesis using assms by (simp add: deliver_client_response_def answers_kept_def)
next
  case (parked n)
  then show ?thesis using close_waiter_wf [OF assms(1) parked(2)] assms(2)
    by (auto simp: deliver_client_response_def Let_def)
next
  case (abandoned n)
  then show ?thesis using free_slot_wf [OF assms(1) abandoned] assms(2)
    by (auto simp: deliver_client_response_def Let_def answers_kept_def)
qed

lemma waiter_timeout_wf: "requests_wf g \<Longrightarrow> requests_wf (waiter_timeout n g) \<and> answers_kept g (waiter_timeout n g)"
proof (cases "\<exists>k. waiters g n = Some (Parked k)")
  case True
  then obtain k where "waiters g n = Some (Parked k)" by blast
  then show "requests_wf g \<Longrightarrow> ?thesis" using close_waiter_wf by (simp add: waiter_timeout_def)
next
  case False
  then have "waiter_timeout n g = g" by (auto simp: waiter_timeout_def split: option.splits waiter.splits)
  then show "requests_wf g \<Longrightarrow> ?thesis" by (simp add: answers_kept_def)
qed

lemma abandon_waiter_wf: "requests_wf g \<Longrightarrow> requests_wf (abandon_waiter n g) \<and> answers_kept g (abandon_waiter n g)"
  by (auto simp: abandon_waiter_def requests_wf_def answers_kept_def simp del: split_paired_All
      split: option.splits waiter.splits)

text \<open>A parked waiter is answered by the answer to its own request and by no other.\<close>

lemma deliver_answers_parked:
  assumes "requests_wf g" "waiters g n = Some (Parked (w, i))"
  shows "fst (deliver_client_response w i out g)"
    "waiters (snd (deliver_client_response w i out g)) = (waiters g)(n \<mapsto> Answered (Inr out))"
proof -
  have "pending_server_requests g (w, i) = Some n" using assms by (simp add: requests_wf_def)
  then show "fst (deliver_client_response w i out g)"
    "waiters (snd (deliver_client_response w i out g)) = (waiters g)(n \<mapsto> Answered (Inr out))"
    using assms(2) by (simp_all add: deliver_client_response_def Let_def)
qed

lemma deliver_keeps_other:
  assumes "requests_wf g" "waiters g n = Some (Parked k)" "k \<noteq> (w, i)"
  shows "waiters (snd (deliver_client_response w i out g)) n = Some (Parked k)"
proof (cases "pending_server_requests g (w, i)")
  case (Some m)
  then have "waiters g m \<in> {Some (Parked (w, i)), Some Abandoned}" using assms(1) by (simp add: requests_wf_def)
  then show ?thesis using Some assms(2,3) by (auto simp: deliver_client_response_def Let_def)
qed (use assms in \<open>simp add: deliver_client_response_def\<close>)

section \<open>The subscription of a harness\<close>

text \<open>
  The forwarding loop of \<^verbatim>\<open>subscribe\<close>: what the receiver passes on when it looks at the
  bus at the given moments. It ends at the first error.
\<close>

fun subscription :: "nat \<Rightarrow> user_message list list \<Rightarrow> user_message list" where
  "subscription pos [] = []"
| "subscription pos (sent # later) =
     (case bus_recv pos sent of
        None \<Rightarrow> subscription pos later
      | Some (Inl _) \<Rightarrow> []
      | Some (Inr m) \<Rightarrow> m # subscription (Suc pos) later)"

lemma prefix_nth_drop:
  "length sent > pos \<Longrightarrow> prefix sent full \<Longrightarrow> drop pos full = sent ! pos # drop (Suc pos) full"
  by (metis Cons_nth_drop_Suc nth_append order_less_le_trans prefixE prefix_length_le)

lemma subscription_in_order:
  assumes "\<forall>sent \<in> set moments. prefix sent full"
  shows "prefix (subscription pos moments) (drop pos full)"
  using assms
proof (induction moments arbitrary: pos)
  case (Cons sent later)
  then show ?case
    using prefix_nth_drop [of pos sent full]
    by (auto simp: bus_recv_def split: option.splits sum.splits if_splits)
qed simp

end
