(* ===== verification/Gateway.thy ===== *)
theory Gateway
  imports Gateway_State
begin

text \<open>
  The internet-facing service of the relay, \<^verbatim>\<open>relay-controller/src/gateway.rs\<close>: how a
  caller is authenticated and authorized, and every handler, over the relay's state and
  the harnesses it forwards to. The Kubernetes apiserver and the network are arguments
  of each call, since their answers change from call to call; a harness is an arbitrary
  implementation of \<^verbatim>\<open>HarnessControl\<close>.
\<close>

section \<open>Calls\<close>

datatype listener_class = PersonToken | ChannelToken

datatype caller = Caller_Person string | Caller_Channel string

text \<open>
  What a call brings: the class its listener stamped, its authorization header, the
  answers of the apiserver to token and access reviews (\<open>allowed\<close>, if there is a status),
  the outcome of dialling an address, a fresh channel-stream id, and what the harness
  sees besides its state.
\<close>

record gw_env =
  ge_class :: "listener_class option"
  ge_authorization :: "string option"
  ge_to_str :: "string \<Rightarrow> string option"
  ge_token_api :: token_api
  ge_access_api :: "subject_access_review \<Rightarrow> string + bool option"
  ge_dial :: "string \<Rightarrow> (string + unit) option"
  ge_uuid :: string
  ge_call :: call_input

record ingest_request =
  ir_channel_stream_id :: string
  ir_user_message :: "user_message option"
  ir_client_response :: "client_response option"
  ir_supported_methods :: "string list"
  ir_conversation_id :: string

section \<open>Authentication and authorization\<close>

definition CHANNEL_SA_NAME_PREFIX :: string where
  "CHANNEL_SA_NAME_PREFIX = ''ch-''"

definition review_reach :: "gw_env \<Rightarrow> string \<Rightarrow> string \<Rightarrow> string \<Rightarrow> unit rpc" where
  "review_reach env ns subj workspace =
     and_then (map_err (\<lambda>e. internal (''SubjectAccessReview API error: '' @ e))
         (ge_access_api env (build_subject_access_review subj workspace ns))) (\<lambda>allowed.
     ensure (allowed = Some True) (permission_denied ''caller cannot reach the named workspace''))"

datatype access_decision = Allow | Deny | ResolveWithHarness

definition conversation_access :: "string option \<Rightarrow> string \<Rightarrow> access_decision" where
  "conversation_access cached_owner verified_subject =
     (case cached_owner of
        Some own \<Rightarrow> if own = verified_subject then Allow else Deny
      | None \<Rightarrow> ResolveWithHarness)"

definition denied_conversation :: status where
  "denied_conversation = permission_denied ''conversation belongs to a different subject''"

definition denied_call :: status where
  "denied_call = permission_denied ''call belongs to a different subject or workspace''"

definition denied_sender :: status where
  "denied_sender = permission_denied ''sender has no operator handle binding''"

definition resolve_sender :: "identity_table \<Rightarrow> string \<Rightarrow> string \<Rightarrow> string rpc" where
  "resolve_sender t channel sender = ok_or denied_sender (resolve_handle t channel sender)"

definition require_sender :: "identity_table \<Rightarrow> string \<Rightarrow> string \<Rightarrow> string \<Rightarrow> unit rpc" where
  "require_sender t channel sender subj =
     and_then (resolve_sender t channel sender) (\<lambda>s. ensure (s = subj) denied_sender)"

definition require_workspace :: "string \<Rightarrow> unit rpc" where
  "require_workspace workspace = ensure (workspace \<noteq> []) (invalid_argument ''request must name its workspace'')"

definition channel_from_service_account :: "string \<Rightarrow> string \<Rightarrow> string option" where
  "channel_from_service_account username ns =
     Option.bind (serviceaccount_from_username username) (\<lambda>(ns', sa).
     Option.bind (if ns' = ns then strip_prefix CHANNEL_SA_NAME_PREFIX sa else None) (\<lambda>channel.
     if channel = [] then None else Some channel))"

definition kube_client :: "gateway_state \<Rightarrow> unit rpc" where
  "kube_client g = ensure (kube_configured g) (unavailable ''no kube client configured'')"

definition authenticate :: "gw_env \<Rightarrow> gateway_state \<Rightarrow> caller rpc" where
  "authenticate env g =
     and_then (ok_or (permission_denied ''missing listener class; middleware must populate it'') (ge_class env)) (\<lambda>cl.
     and_then (extract_bearer_token (ge_to_str env) (ge_authorization env)) (\<lambda>token.
     and_then (kube_client g) (\<lambda>_.
     case cl of
       PersonToken \<Rightarrow>
         and_then (review_token_username (ge_token_api env) token None) (\<lambda>subj. Inr (Caller_Person subj))
     | ChannelToken \<Rightarrow>
         and_then (review_token_username (ge_token_api env) token (Some CHANNEL_RELAY_AUDIENCE)) (\<lambda>username.
         and_then (ok_or (permission_denied (''caller is not a channel ServiceAccount of '' @ namespace g))
             (channel_from_service_account username (namespace g))) (\<lambda>channel.
         Inr (Caller_Channel channel))))))"

definition reach :: "gw_env \<Rightarrow> string \<Rightarrow> string \<Rightarrow> gateway_state \<Rightarrow> unit rpc" where
  "reach env subj workspace g =
     and_then (kube_client g) (\<lambda>_. review_reach env (namespace g) subj workspace)"

definition person_subject :: "gw_env \<Rightarrow> gateway_state \<Rightarrow> string rpc" where
  "person_subject env g =
     and_then (authenticate env g) (\<lambda>c. case c of
       Caller_Person subj \<Rightarrow> Inr subj
     | Caller_Channel _ \<Rightarrow> Inl (permission_denied ''person RPCs are not served on the channel listener''))"

definition authorize_workspace :: "gw_env \<Rightarrow> string \<Rightarrow> gateway_state \<Rightarrow> string rpc" where
  "authorize_workspace env workspace g =
     and_then (require_workspace workspace) (\<lambda>_.
     and_then (person_subject env g) (\<lambda>subj.
     and_then (reach env subj workspace g) (\<lambda>_. Inr subj)))"

definition authorize_receive ::
  "gw_env \<Rightarrow> string \<Rightarrow> string \<Rightarrow> gateway_state \<Rightarrow> (channel_stream_opener \<times> string) rpc" where
  "authorize_receive env workspace sender g =
     and_then (authenticate env g) (\<lambda>c.
     and_then (require_workspace workspace) (\<lambda>_.
     and_then (case c of
         Caller_Person subj \<Rightarrow>
           if sender \<noteq> [] then
             Inl (invalid_argument ''ChannelStreamReceiveRequest.sender is for the channel path only'')
           else Inr (Opener_Person, subj)
       | Caller_Channel channel \<Rightarrow>
           if sender = [] then Inl (invalid_argument ''ChannelStreamReceiveRequest.sender required'')
           else
             and_then (resolve_sender (identity g) channel sender) (\<lambda>subj.
             Inr (Opener_Channel channel sender, subj))) (\<lambda>(opener, subj).
     and_then (reach env subj workspace g) (\<lambda>_. Inr (opener, subj)))))"

definition owned_call :: "string \<Rightarrow> string \<Rightarrow> gateway_state \<Rightarrow> string rpc" where
  "owned_call call_id subj g =
     and_then (ok_or (not_found ''call_id is not registered (call DispatchTool first)'') (dispatched_calls g call_id))
       (\<lambda>(own, workspace). if own \<noteq> subj then Inl denied_call else Inr workspace)"

text \<open>Whether a caller is the one who opened a channel stream.\<close>

definition opened_by_caller :: "caller \<Rightarrow> channel_stream_opener \<Rightarrow> string \<Rightarrow> gateway_state \<Rightarrow> bool rpc" where
  "opened_by_caller c opener subj g =
     (case (c, opener) of
        (Caller_Person s, Opener_Person) \<Rightarrow> Inr (s = subj)
      | (Caller_Channel channel, Opener_Channel och sender) \<Rightarrow>
          if channel \<noteq> och then Inr False
          else and_then (require_sender (identity g) och sender subj) (\<lambda>_. Inr True)
      | _ \<Rightarrow> Inr False)"

text \<open>The checks of an ingest, up to its conversation: the subject and workspace it acts for.\<close>

definition authorize_ingest :: "gw_env \<Rightarrow> string \<Rightarrow> gateway_state \<Rightarrow> (string \<times> string) rpc" where
  "authorize_ingest env i g =
     and_then (authenticate env g) (\<lambda>c.
     and_then (ensure (i \<noteq> []) (invalid_argument ''ChannelStreamIngestRequest.channel_stream_id required'')) (\<lambda>_.
     and_then (ok_or (not_found ''ChannelStreamIngestRequest.channel_stream_id is not registered (call ChannelStreamReceive first)'')
         (channel_stream_binding i g)) (\<lambda>(opener, subj, workspace).
     and_then (opened_by_caller c opener subj g) (\<lambda>opened.
     and_then (ensure opened (permission_denied ''caller did not open this channel stream'')) (\<lambda>_.
     and_then (reach env subj workspace g) (\<lambda>_. Inr (subj, workspace)))))))"

definition MAX_CONVERSATION_NAME :: nat where
  "MAX_CONVERSATION_NAME = 200"

definition require_conversation_name_within_limit :: "string \<Rightarrow> unit rpc" where
  "require_conversation_name_within_limit name =
     ensure (chars_count name \<le> MAX_CONVERSATION_NAME)
       (invalid_argument (''name exceeds '' @ nat_string MAX_CONVERSATION_NAME @ ''-character limit''))"

section \<open>Open streams\<close>

record stream_token =
  tk_token :: string
  tk_audience :: "string option"

record open_stream =
  os_token :: stream_token
  os_subject :: string
  os_workspace :: string
  os_handle :: "(string \<times> string) option"

definition token_check :: "gw_env \<Rightarrow> stream_token rpc" where
  "token_check env =
     and_then (extract_bearer_token (ge_to_str env) (ge_authorization env)) (\<lambda>token.
     Inr \<lparr> tk_token = token,
           tk_audience = (case ge_class env of Some ChannelToken \<Rightarrow> Some CHANNEL_RELAY_AUDIENCE | _ \<Rightarrow> None) \<rparr>)"

text \<open>
  What is checked before an item goes out, with the apiserver's answers and the identity
  table of that moment.
\<close>

definition recheck :: "gw_env \<Rightarrow> gateway_state \<Rightarrow> open_stream \<Rightarrow> unit rpc" where
  "recheck env g os =
     and_then (review_token_username (ge_token_api env) (tk_token (os_token os)) (tk_audience (os_token os))) (\<lambda>_.
     and_then (case os_handle os of
         None \<Rightarrow> Inr ()
       | Some (channel, sender) \<Rightarrow> require_sender (identity g) channel sender (os_subject os)) (\<lambda>_.
     review_reach env (namespace g) (os_subject os) (os_workspace os)))"

fun reauthorized :: "open_stream \<Rightarrow> (gw_env \<times> gateway_state \<times> 'a rpc) list \<Rightarrow> 'a rpc list" where
  "reauthorized os [] = []"
| "reauthorized os ((env, g, item) # later) =
     (case recheck env g os of
        Inl e \<Rightarrow> [Inl e]
      | Inr _ \<Rightarrow> item # reauthorized os later)"

section \<open>The relay and its harnesses\<close>

record 'h relay =
  rl_state :: gateway_state
  rl_harness :: "string \<Rightarrow> 'h"

definition checkS :: "(gateway_state \<Rightarrow> 'e + 'a) \<Rightarrow> ('h relay, 'e, 'a) stm" where
  "checkS f r = (f (rl_state r), r)"

definition updateS :: "(gateway_state \<Rightarrow> gateway_state) \<Rightarrow> ('h relay, 'e, unit) stm" where
  "updateS f r = (Inr (), r\<lparr> rl_state := f (rl_state r) \<rparr>)"

definition on_harness :: "string \<Rightarrow> ('h, 'e, 'a) stm \<Rightarrow> ('h relay, 'e, 'a) stm" where
  "on_harness workspace m r =
     (case m (rl_harness r workspace) of (x, h) \<Rightarrow>
        (x, r\<lparr> rl_harness := (rl_harness r)(workspace := h) \<rparr>))"

definition harness :: "gw_env \<Rightarrow> string \<Rightarrow> ('h relay, status, unit) stm" where
  "harness env workspace r =
     (case pool_get (ge_dial env) workspace (rl_state r) of (x, g) \<Rightarrow>
        (map_err (\<lambda>e. unavailable (''harness unavailable: '' @ e)) x, r\<lparr> rl_state := g \<rparr>))"

definition resolve_conversation_owner ::
  "'h harness_control \<Rightarrow> gw_env \<Rightarrow> string \<Rightarrow> string \<Rightarrow> string \<Rightarrow> ('h relay, status, unit) stm" where
  "resolve_conversation_owner hc env workspace subj conversation_id =
     bindS (harness env workspace) (\<lambda>_.
     bindS (on_harness workspace (hc_list_conversations hc subj)) (\<lambda>listed.
     if list_ex (\<lambda>c. cv_conversation_id c = conversation_id) listed
     then updateS (record_conversation_owner conversation_id subj)
     else failS denied_conversation))"

definition require_conversation_subject ::
  "'h harness_control \<Rightarrow> gw_env \<Rightarrow> string \<Rightarrow> string \<Rightarrow> string \<Rightarrow> ('h relay, status, unit) stm" where
  "require_conversation_subject hc env workspace subj conversation_id =
     (if conversation_id = [] then retS ()
      else
        bindS (getS (\<lambda>r. conversation_owners (rl_state r) conversation_id)) (\<lambda>cached.
        case conversation_access cached subj of
          Allow \<Rightarrow> retS ()
        | Deny \<Rightarrow> failS denied_conversation
        | ResolveWithHarness \<Rightarrow> resolve_conversation_owner hc env workspace subj conversation_id))"

text \<open>Mint a conversation for a subject at the workspace's harness and cache its owner.\<close>

definition mint_for ::
  "'h harness_control \<Rightarrow> gw_env \<Rightarrow> string \<Rightarrow> string \<Rightarrow> ('h relay, status, string) stm" where
  "mint_for hc env workspace subj =
     bindS (harness env workspace) (\<lambda>_.
     bindS (on_harness workspace (hc_mint_conversation hc (ge_call env) subj)) (\<lambda>i.
     bindS (updateS (record_conversation_owner i subj)) (\<lambda>_. retS i)))"

section \<open>Handlers\<close>

definition discover :: "('h relay, status, string \<times> string \<times> string) stm" where
  "discover = checkS (\<lambda>g. Inr (idp_issuer g, idp_audience g, idp_certificate_authority g))"

definition list_workspaces :: "gw_env \<Rightarrow> ('h relay, status, string list) stm" where
  "list_workspaces env =
     checkS (\<lambda>g. and_then (person_subject env g) (\<lambda>subj. Inr (workspaces_for (identity g) subj)))"

definition list_grants :: "gw_env \<Rightarrow> string \<Rightarrow> ('h relay, status, (string \<times> string list) list) stm" where
  "list_grants env workspace =
     checkS (\<lambda>g. and_then (authorize_workspace env workspace g) (\<lambda>_. Inr (for_workspace (capabilities g) workspace)))"

definition mint_conversation :: "'h harness_control \<Rightarrow> gw_env \<Rightarrow> string \<Rightarrow> ('h relay, status, string) stm" where
  "mint_conversation hc env workspace =
     bindS (checkS (authorize_workspace env workspace)) (mint_for hc env workspace)"

definition list_conversations ::
  "'h harness_control \<Rightarrow> gw_env \<Rightarrow> string \<Rightarrow> ('h relay, status, conversation_summary list) stm" where
  "list_conversations hc env workspace =
     bindS (checkS (authorize_workspace env workspace)) (\<lambda>subj.
     bindS (harness env workspace) (\<lambda>_.
     on_harness workspace (hc_list_conversations hc subj)))"

definition delete_conversation ::
  "'h harness_control \<Rightarrow> gw_env \<Rightarrow> string \<Rightarrow> string \<Rightarrow> ('h relay, status, unit) stm" where
  "delete_conversation hc env workspace conversation_id =
     bindS (checkS (authorize_workspace env workspace)) (\<lambda>subj.
     bindS (liftS (ensure (conversation_id \<noteq> [])
         (invalid_argument ''DeleteConversationRequest.conversation_id required''))) (\<lambda>_.
     bindS (require_conversation_subject hc env workspace subj conversation_id) (\<lambda>_.
     bindS (harness env workspace) (\<lambda>_.
     on_harness workspace (hc_delete_conversation hc (ge_call env) conversation_id)))))"

definition cancel_turn ::
  "'h harness_control \<Rightarrow> gw_env \<Rightarrow> string \<Rightarrow> string \<Rightarrow> ('h relay, status, bool) stm" where
  "cancel_turn hc env workspace conversation_id =
     bindS (checkS (authorize_workspace env workspace)) (\<lambda>subj.
     bindS (liftS (ensure (conversation_id \<noteq> [])
         (invalid_argument ''CancelTurnRequest.conversation_id required''))) (\<lambda>_.
     bindS (require_conversation_subject hc env workspace subj conversation_id) (\<lambda>_.
     bindS (harness env workspace) (\<lambda>_.
     on_harness workspace (hc_cancel_turn hc conversation_id)))))"

definition set_conversation_name ::
  "'h harness_control \<Rightarrow> gw_env \<Rightarrow> string \<Rightarrow> string \<Rightarrow> string \<Rightarrow> ('h relay, status, unit) stm" where
  "set_conversation_name hc env workspace conversation_id name =
     bindS (checkS (authorize_workspace env workspace)) (\<lambda>subj.
     bindS (liftS (ensure (conversation_id \<noteq> [])
         (invalid_argument ''SetConversationNameRequest.conversation_id required''))) (\<lambda>_.
     bindS (liftS (require_conversation_name_within_limit name)) (\<lambda>_.
     bindS (require_conversation_subject hc env workspace subj conversation_id) (\<lambda>_.
     bindS (harness env workspace) (\<lambda>_.
     on_harness workspace (hc_set_conversation_name hc (ge_call env) conversation_id name))))))"

definition get_conversation_history ::
  "'h harness_control \<Rightarrow> gw_env \<Rightarrow> string \<Rightarrow> string \<Rightarrow> nat option \<Rightarrow> ('h relay, status, history_response) stm" where
  "get_conversation_history hc env workspace conversation_id limit =
     bindS (checkS (authorize_workspace env workspace)) (\<lambda>subj.
     bindS (liftS (ensure (conversation_id \<noteq> []) (invalid_argument ''conversation_id required''))) (\<lambda>_.
     bindS (harness env workspace) (\<lambda>_.
     on_harness workspace (hc_get_conversation_history hc (ge_call env) conversation_id subj limit))))"

definition get_turn_state ::
  "gw_env \<Rightarrow> string \<Rightarrow> string \<Rightarrow> ('h relay, status, turn_state_event) stm" where
  "get_turn_state env workspace conversation_id =
     bindS (checkS (authorize_workspace env workspace)) (\<lambda>subj.
     bindS (liftS (ensure (conversation_id \<noteq> []) (invalid_argument ''conversation_id required''))) (\<lambda>_.
     checkS (\<lambda>g. Inr (case turn_state_record_of subj conversation_id g of
         Some rec \<Rightarrow> turn_state_event_of (tr_state rec) conversation_id (tr_reason rec) (tr_code rec)
       | None \<Rightarrow> turn_state_event_of turn_idle conversation_id [] []))))"

text \<open>The two payloads of an ingest.\<close>

definition ingest_user_message ::
  "'h harness_control \<Rightarrow> gw_env \<Rightarrow> ingest_request \<Rightarrow> string \<Rightarrow> string \<Rightarrow> user_message \<Rightarrow> ('h relay, status, string) stm" where
  "ingest_user_message hc env req subj workspace m =
     bindS (if ir_conversation_id req = [] then mint_for hc env workspace subj
            else retS (ir_conversation_id req)) (\<lambda>conversation_id.
     bindS (updateS (notify_subscriber workspace
         \<lparr> um_content = um_content m, um_sender = um_sender m,
           um_reply_channel_stream = Some (ir_channel_stream_id req),
           um_conversation_id = conversation_id, um_grants = um_grants m \<rparr>)) (\<lambda>_.
     bindS (updateS (set_and_broadcast_turn_state (ir_channel_stream_id req) subj conversation_id turn_working)) (\<lambda>_.
     retS conversation_id)))"

definition client_response_outcome :: "client_response \<Rightarrow> request_outcome rpc" where
  "client_response_outcome cr =
     (let result_set = (cr_result_json cr \<noteq> []) in
      case cr_error cr of
        Some e \<Rightarrow>
          if result_set then Inl (invalid_argument ''ClientResponse must carry exactly one of result_json or error'')
          else Inr (Client_Error e)
      | None \<Rightarrow>
          if result_set then Inr (Client_Result (cr_result_json cr))
          else Inl (invalid_argument ''ClientResponse must carry result_json or error''))"

definition ingest_client_response :: "string \<Rightarrow> client_response \<Rightarrow> ('h relay, status, string) stm" where
  "ingest_client_response workspace cr =
     bindS (liftS (client_response_outcome cr)) (\<lambda>outcome.
     bindS (updateS (\<lambda>g. snd (deliver_client_response workspace (cr_request_id cr) outcome g))) (\<lambda>_.
     retS []))"

definition channel_stream_ingest ::
  "'h harness_control \<Rightarrow> gw_env \<Rightarrow> ingest_request \<Rightarrow> ('h relay, status, string \<times> string) stm" where
  "channel_stream_ingest hc env req =
     bindS (checkS (authorize_ingest env (ir_channel_stream_id req))) (\<lambda>(subj, workspace).
     bindS (require_conversation_subject hc env workspace subj (ir_conversation_id req)) (\<lambda>_.
     bindS (updateS (\<lambda>g. if ir_supported_methods req = [] then g
         else update_supported_methods (ir_channel_stream_id req) (ir_supported_methods req) g)) (\<lambda>_.
     bindS (case (ir_user_message req, ir_client_response req) of
         (Some _, Some _) \<Rightarrow> failS (invalid_argument
           ''ChannelStreamIngestRequest must carry exactly one of user_message or client_response'')
       | (None, None) \<Rightarrow> failS (invalid_argument
           ''ChannelStreamIngestRequest must carry user_message or client_response'')
       | (Some m, None) \<Rightarrow> ingest_user_message hc env req subj workspace m
       | (None, Some cr) \<Rightarrow> ingest_client_response workspace cr) (\<lambda>conversation_id.
     retS (ir_channel_stream_id req, conversation_id)))))"

text \<open>
  The stream of a receive starts with the frames queued here; \<^const>\<open>reauthorized\<close> is what
  the client gets of its queue.
\<close>

definition channel_stream_receive ::
  "gw_env \<Rightarrow> string \<Rightarrow> string \<Rightarrow> ('h relay, status, string \<times> open_stream) stm" where
  "channel_stream_receive env workspace sender =
     bindS (checkS (authorize_receive env workspace sender)) (\<lambda>(opener, subj).
     bindS (liftS (token_check env)) (\<lambda>token.
     let i = ge_uuid env in
     bindS (updateS (mint_channel_stream i opener subj workspace)) (\<lambda>_.
     bindS (updateS (with_stream i (tx_send (Some (Command_Ack i))))) (\<lambda>_.
     bindS (updateS (replay_turn_state i)) (\<lambda>_.
     bindS (updateS (spawn_heartbeat i)) (\<lambda>_.
     bindS (checkS kube_client) (\<lambda>_.
     retS (i, \<lparr> os_token = token, os_subject = subj, os_workspace = workspace,
                os_handle = (case opener of Opener_Channel channel s \<Rightarrow> Some (channel, s) | Opener_Person \<Rightarrow> None) \<rparr>))))))))"

definition person_stream :: "stream_token \<Rightarrow> string \<Rightarrow> string \<Rightarrow> open_stream" where
  "person_stream token subj workspace =
     \<lparr> os_token = token, os_subject = subj, os_workspace = workspace, os_handle = None \<rparr>"

definition watch_tools_stream ::
  "'h harness_control \<Rightarrow> gw_env \<Rightarrow> string \<Rightarrow> ('h relay, status, open_stream \<times> tool_info list list) stm" where
  "watch_tools_stream hc env workspace =
     bindS (checkS (authorize_workspace env workspace)) (\<lambda>subj.
     bindS (liftS (token_check env)) (\<lambda>token.
     bindS (harness env workspace) (\<lambda>_.
     bindS (getS (\<lambda>r. hc_watch_tools hc (rl_harness r workspace))) (\<lambda>upstream.
     bindS (checkS kube_client) (\<lambda>_.
     retS (person_stream token subj workspace, upstream))))))"

definition dispatch_tool ::
  "'h harness_control \<Rightarrow> gw_env \<Rightarrow> string \<Rightarrow> string \<Rightarrow> string \<Rightarrow> string \<Rightarrow> ('h relay, status, string) stm" where
  "dispatch_tool hc env workspace name input_json conversation_id =
     bindS (checkS (authorize_workspace env workspace)) (\<lambda>subj.
     bindS (require_conversation_subject hc env workspace subj conversation_id) (\<lambda>_.
     bindS (harness env workspace) (\<lambda>_.
     bindS (on_harness workspace (hc_dispatch_tool hc (ge_call env) name input_json conversation_id)) (\<lambda>call_id.
     bindS (updateS (record_dispatched_call call_id subj workspace)) (\<lambda>_.
     retS call_id)))))"

definition await_tool_result ::
  "'h harness_control \<Rightarrow> gw_env \<Rightarrow> string \<Rightarrow> string \<Rightarrow> string
   \<Rightarrow> ('h relay, status, open_stream \<times> tool_result_frame list) stm" where
  "await_tool_result hc env workspace call_id conversation_id =
     bindS (checkS (authorize_workspace env workspace)) (\<lambda>subj.
     bindS (liftS (token_check env)) (\<lambda>token.
     bindS (liftS (ensure (call_id \<noteq> []) (invalid_argument ''AwaitToolResultRequest.call_id required''))) (\<lambda>_.
     bindS (checkS (owned_call call_id subj)) (\<lambda>call_workspace.
     bindS (liftS (ensure (call_workspace = workspace) denied_call)) (\<lambda>_.
     bindS (require_conversation_subject hc env workspace subj conversation_id) (\<lambda>_.
     bindS (harness env workspace) (\<lambda>_.
     bindS (on_harness workspace (hc_await_tool_result hc (ge_call env) call_id conversation_id)) (\<lambda>upstream.
     bindS (checkS kube_client) (\<lambda>_.
     retS (person_stream token subj workspace, upstream))))))))))"

definition cancel_tool :: "'h harness_control \<Rightarrow> gw_env \<Rightarrow> string \<Rightarrow> ('h relay, status, bool) stm" where
  "cancel_tool hc env call_id =
     bindS (checkS (person_subject env)) (\<lambda>subj.
     bindS (liftS (ensure (call_id \<noteq> []) (invalid_argument ''CancelToolRequest.call_id required''))) (\<lambda>_.
     bindS (checkS (owned_call call_id subj)) (\<lambda>workspace.
     bindS (checkS (reach env subj workspace)) (\<lambda>_.
     bindS (harness env workspace) (\<lambda>_.
     on_harness workspace (hc_cancel_tool hc (ge_call env) call_id))))))"

section \<open>Requests\<close>

datatype gw_request = Discover | ListWorkspaces | ListGrants string | MintConversation string
  | ListConversations string | DeleteConversation string string | CancelTurn string string
  | SetConversationName string string string | GetConversationHistory string string "nat option"
  | GetTurnState string string | ChannelStreamIngest ingest_request | ChannelStreamReceive string string
  | WatchTools string | DispatchTool string string string string | AwaitToolResult string string string
  | CancelTool string

datatype gw_response = Resp_Discover "string \<times> string \<times> string" | Resp_Workspaces "string list"
  | Resp_Grants "(string \<times> string list) list" | Resp_Minted string
  | Resp_Conversations "conversation_summary list" | Resp_Done | Resp_Cancelled bool
  | Resp_History history_response | Resp_TurnState turn_state_event | Resp_IngestAck "string \<times> string"
  | Resp_Receive "string \<times> open_stream" | Resp_Tools "open_stream \<times> tool_info list list"
  | Resp_Dispatched string | Resp_Await "open_stream \<times> tool_result_frame list"

fun gateway_step :: "'h harness_control \<Rightarrow> gw_env \<Rightarrow> gw_request \<Rightarrow> ('h relay, status, gw_response) stm" where
  "gateway_step hc env Discover = respond Resp_Discover discover"
| "gateway_step hc env ListWorkspaces = respond Resp_Workspaces (list_workspaces env)"
| "gateway_step hc env (ListGrants w) = respond Resp_Grants (list_grants env w)"
| "gateway_step hc env (MintConversation w) = respond Resp_Minted (mint_conversation hc env w)"
| "gateway_step hc env (ListConversations w) = respond Resp_Conversations (list_conversations hc env w)"
| "gateway_step hc env (DeleteConversation w c) = respond (\<lambda>_. Resp_Done) (delete_conversation hc env w c)"
| "gateway_step hc env (CancelTurn w c) = respond Resp_Cancelled (cancel_turn hc env w c)"
| "gateway_step hc env (SetConversationName w c n) = respond (\<lambda>_. Resp_Done) (set_conversation_name hc env w c n)"
| "gateway_step hc env (GetConversationHistory w c l) = respond Resp_History (get_conversation_history hc env w c l)"
| "gateway_step hc env (GetTurnState w c) = respond Resp_TurnState (get_turn_state env w c)"
| "gateway_step hc env (ChannelStreamIngest req) = respond Resp_IngestAck (channel_stream_ingest hc env req)"
| "gateway_step hc env (ChannelStreamReceive w s) = respond Resp_Receive (channel_stream_receive env w s)"
| "gateway_step hc env (WatchTools w) = respond Resp_Tools (watch_tools_stream hc env w)"
| "gateway_step hc env (DispatchTool w n i c) = respond Resp_Dispatched (dispatch_tool hc env w n i c)"
| "gateway_step hc env (AwaitToolResult w k c) = respond Resp_Await (await_tool_result hc env w k c)"
| "gateway_step hc env (CancelTool k) = respond Resp_Cancelled (cancel_tool hc env k)"

section \<open>Who a call acts for\<close>

text \<open>
  The apiserver vouches for a subject on a call: the bearer token is the subject's own,
  on the listener for people; or it is the token of a channel's ServiceAccount in the
  relay's namespace, on the listener for channels, and the operator has bound a handle of
  that channel to the subject.
\<close>

definition vouched :: "gw_env \<Rightarrow> string \<Rightarrow> gateway_state \<Rightarrow> bool" where
  "vouched env subj g \<longleftrightarrow> (\<exists>token.
     extract_bearer_token (ge_to_str env) (ge_authorization env) = Inr token \<and>
     (ge_class env = Some PersonToken \<and> review_token_username (ge_token_api env) token None = Inr subj \<or>
      ge_class env = Some ChannelToken \<and> (\<exists>channel sender.
        review_token_username (ge_token_api env) token (Some CHANNEL_RELAY_AUDIENCE) =
          Inr (SERVICEACCOUNT_USERNAME_PREFIX @ namespace g @ CHR '':'' # CHANNEL_SA_NAME_PREFIX @ channel) \<and>
        resolve_handle (identity g) channel sender = Some subj)))"

text \<open>The apiserver allows a subject to reach a workspace of the relay's namespace.\<close>

definition may_reach :: "gw_env \<Rightarrow> string \<Rightarrow> string \<Rightarrow> gateway_state \<Rightarrow> bool" where
  "may_reach env subj w g \<longleftrightarrow>
     ge_access_api env (build_subject_access_review subj w (namespace g)) = Inr (Some True)"

lemma reach_iff: "reach env subj w g = Inr u \<longleftrightarrow> kube_configured g \<and> may_reach env subj w g"
  by (auto simp: reach_def kube_client_def review_reach_def may_reach_def result_simps)

lemma channel_from_service_account_iff:
  "channel_from_service_account username ns = Some channel \<longleftrightarrow>
     username = SERVICEACCOUNT_USERNAME_PREFIX @ ns @ CHR '':'' # CHANNEL_SA_NAME_PREFIX @ channel \<and>
     CHR '':'' \<notin> set ns \<and> channel \<noteq> []"
  by (auto simp: channel_from_service_account_def result_simps serviceaccount_from_username_iff
      strip_prefix_eq_Some split: if_splits)

lemma authenticate_person:
  "authenticate env g = Inr (Caller_Person subj) \<longleftrightarrow>
     kube_configured g \<and> ge_class env = Some PersonToken \<and>
     (\<exists>token. extract_bearer_token (ge_to_str env) (ge_authorization env) = Inr token \<and>
        review_token_username (ge_token_api env) token None = Inr subj)"
proof (cases "ge_class env")
  case (Some cl)
  then show ?thesis by (cases cl) (auto simp: authenticate_def kube_client_def result_simps)
qed (simp add: authenticate_def)

lemma authenticate_channel:
  "authenticate env g = Inr (Caller_Channel channel) \<longleftrightarrow>
     kube_configured g \<and> ge_class env = Some ChannelToken \<and> CHR '':'' \<notin> set (namespace g) \<and> channel \<noteq> [] \<and>
     (\<exists>token. extract_bearer_token (ge_to_str env) (ge_authorization env) = Inr token \<and>
        review_token_username (ge_token_api env) token (Some CHANNEL_RELAY_AUDIENCE) =
          Inr (SERVICEACCOUNT_USERNAME_PREFIX @ namespace g @ CHR '':'' # CHANNEL_SA_NAME_PREFIX @ channel))"
proof (cases "ge_class env")
  case (Some cl)
  then show ?thesis
    by (cases cl) (auto simp: authenticate_def kube_client_def result_simps channel_from_service_account_iff)
qed (simp add: authenticate_def)

lemma person_subject_iff: "person_subject env g = Inr subj \<longleftrightarrow> authenticate env g = Inr (Caller_Person subj)"
  by (cases "authenticate env g") (auto simp: person_subject_def split: caller.splits)

lemma person_vouched: "person_subject env g = Inr subj \<Longrightarrow> vouched env subj g"
  by (auto simp: person_subject_iff authenticate_person vouched_def)

lemma channel_vouched:
  "authenticate env g = Inr (Caller_Channel channel) \<Longrightarrow> resolve_handle (identity g) channel sender = Some subj \<Longrightarrow>
   vouched env subj g"
  unfolding authenticate_channel vouched_def by blast

lemma authorize_workspace_vouched:
  "authorize_workspace env w g = Inr subj \<Longrightarrow> vouched env subj g \<and> may_reach env subj w g"
  using person_vouched by (auto simp: authorize_workspace_def result_simps reach_iff)

lemma authorize_receive_vouched:
  assumes "authorize_receive env w sender g = Inr (opener, subj)"
  shows "vouched env subj g \<and> may_reach env subj w g"
proof -
  obtain c where c: "authenticate env g = Inr c" using assms by (auto simp: authorize_receive_def result_simps)
  show ?thesis
  proof (cases c)
    case (Caller_Person s)
    then have "person_subject env g = Inr s" using c by (simp add: person_subject_def)
    then show ?thesis using assms c Caller_Person person_vouched
      by (auto simp: authorize_receive_def result_simps reach_iff)
  next
    case (Caller_Channel channel)
    then have "resolve_handle (identity g) channel sender = Some subj" "may_reach env subj w g"
      using assms c by (auto simp: authorize_receive_def resolve_sender_def result_simps reach_iff)
    then show ?thesis using c Caller_Channel channel_vouched by blast
  qed
qed

lemma authorize_ingest_vouched:
  assumes "authorize_ingest env i g = Inr (subj, w)"
  shows "vouched env subj g" "may_reach env subj w g" "\<exists>opener. channel_stream_binding i g = Some (opener, subj, w)"
proof -
  obtain c opener where c: "authenticate env g = Inr c" "channel_stream_binding i g = Some (opener, subj, w)"
    "opened_by_caller c opener subj g = Inr True" "may_reach env subj w g"
    using assms by (auto simp: authorize_ingest_def result_simps reach_iff)
  show "may_reach env subj w g" "\<exists>opener. channel_stream_binding i g = Some (opener, subj, w)" using c by auto
  show "vouched env subj g"
  proof (cases c)
    case (Caller_Person s)
    then have "person_subject env g = Inr subj" using c(1,3)
      by (auto simp: person_subject_def opened_by_caller_def split: channel_stream_opener.splits)
    then show ?thesis by (rule person_vouched)
  next
    case (Caller_Channel channel)
    then obtain sender where "resolve_handle (identity g) channel sender = Some subj"
      using c(3) by (auto simp: opened_by_caller_def require_sender_def resolve_sender_def result_simps
          split: channel_stream_opener.splits if_splits)
    then show ?thesis using c(1) Caller_Channel channel_vouched by blast
  qed
qed

section \<open>Open streams stay authorized\<close>

definition still_authorized :: "open_stream \<Rightarrow> gw_env \<Rightarrow> gateway_state \<Rightarrow> bool" where
  "still_authorized os env g \<longleftrightarrow>
     \<not> isl (review_token_username (ge_token_api env) (tk_token (os_token os)) (tk_audience (os_token os))) \<and>
     (case os_handle os of None \<Rightarrow> True
      | Some (channel, sender) \<Rightarrow> resolve_handle (identity g) channel sender = Some (os_subject os)) \<and>
     may_reach env (os_subject os) (os_workspace os) g"

lemma recheck_iff: "isl (recheck env g os) \<longleftrightarrow> \<not> still_authorized os env g"
  by (auto simp: still_authorized_def recheck_def require_sender_def resolve_sender_def review_reach_def may_reach_def
      and_then_def ok_or_def ensure_def map_err_def split: option.splits sum.splits)

text \<open>
  C20. A stream that is open does not outlive its authorization: what the client has got
  after any number of moments are the upstream items of the moments before the first
  one at which the token was no longer valid, the channel handle no longer bound to the
  subject, or the subject no longer allowed to reach the workspace, followed by that
  moment's error.
\<close>

theorem open_stream_stays_authorized:
  "reauthorized os moments =
     map (\<lambda>(env, g, item). item) (takeWhile (\<lambda>(env, g, item). still_authorized os env g) moments) @
     (case dropWhile (\<lambda>(env, g, item). still_authorized os env g) moments of
        [] \<Rightarrow> []
      | (env, g, item) # _ \<Rightarrow> [Inl (projl (recheck env g os))])"
proof (induction os moments rule: reauthorized.induct)
  case (2 os env g item later)
  then show ?case using recheck_iff [of env g os] by (cases "recheck env g os") auto
qed simp

section \<open>Effects are authorized\<close>

fun request_workspace :: "gw_request \<Rightarrow> gateway_state \<Rightarrow> string option" where
  "request_workspace Discover g = None"
| "request_workspace ListWorkspaces g = None"
| "request_workspace (ListGrants w) g = Some w"
| "request_workspace (MintConversation w) g = Some w"
| "request_workspace (ListConversations w) g = Some w"
| "request_workspace (DeleteConversation w c) g = Some w"
| "request_workspace (CancelTurn w c) g = Some w"
| "request_workspace (SetConversationName w c n) g = Some w"
| "request_workspace (GetConversationHistory w c l) g = Some w"
| "request_workspace (GetTurnState w c) g = Some w"
| "request_workspace (ChannelStreamIngest q) g =
     map_option (\<lambda>(_, _, w). w) (channel_stream_binding (ir_channel_stream_id q) g)"
| "request_workspace (ChannelStreamReceive w s) g = Some w"
| "request_workspace (WatchTools w) g = Some w"
| "request_workspace (DispatchTool w n i c) g = Some w"
| "request_workspace (AwaitToolResult w k c) g = Some w"
| "request_workspace (CancelTool k) g = map_option snd (dispatched_calls g k)"

definition effects_at :: "string \<Rightarrow> 'h relay \<Rightarrow> 'h relay \<Rightarrow> bool" where
  "effects_at w r r' \<longleftrightarrow> (\<forall>w'. w' \<noteq> w \<longrightarrow>
     rl_harness r' w' = rl_harness r w' \<and> subscribers (rl_state r') w' = subscribers (rl_state r) w')"

lemma refl_trans_effects_at: "refl_trans (effects_at w)"
  by (simp add: refl_trans_def effects_at_def)

lemma bind_checkS:
  "bindS (checkS f) k r = (case f (rl_state r) of Inl e \<Rightarrow> (Inl e, r) | Inr v \<Rightarrow> k v r)"
  by (simp add: bindS_def checkS_def split: sum.split)

lemma runs_in_checkS [runs_intros]: "refl_trans R \<Longrightarrow> runs_in R (checkS f)"
  by (simp add: runs_in_def checkS_def refl_trans_def)

lemma on_harness_effects [runs_intros]: "runs_in (effects_at w) (on_harness w m)"
  by (auto simp: runs_in_def on_harness_def effects_at_def split: prod.splits)

lemma harness_effects [runs_intros]: "runs_in (effects_at w) (harness env w')"
  by (auto simp: runs_in_def harness_def pool_get_def effects_at_def Let_def
      split: prod.splits option.splits sum.splits if_splits)

lemma updateS_effects:
  "(\<And>g w'. w' \<noteq> w \<Longrightarrow> subscribers (f g) w' = subscribers g w') \<Longrightarrow> runs_in (effects_at w) (updateS f)"
  by (simp add: runs_in_def updateS_def effects_at_def)

lemma subscribers_unchanged [simp]:
  "subscribers (with_stream i h g) = subscribers g"
  "subscribers (record_conversation_owner c s g) = subscribers g"
  "subscribers (record_dispatched_call k s w g) = subscribers g"
  "subscribers (record_turn_state s c rec g) = subscribers g"
  "subscribers (set_and_broadcast_turn_state i s c st g) = subscribers g"
  "subscribers (mint_channel_stream i opener s w g) = subscribers g"
  "subscribers (replay_turn_state i g) = subscribers g"
  "subscribers (spawn_heartbeat i g) = subscribers g"
  "subscribers (update_supported_methods i ms g) = subscribers g"
  "subscribers (snd (deliver_client_response w i out g)) = subscribers g"
  by (simp_all add: with_stream_def record_conversation_owner_def record_dispatched_call_def record_turn_state_def
      set_and_broadcast_turn_state_def mint_channel_stream_def replay_turn_state_def spawn_heartbeat_def
      update_supported_methods_def deliver_client_response_def Let_def split: option.split waiter.split)

lemma notify_subscribers: "w' \<noteq> w \<Longrightarrow> subscribers (notify_subscriber w m g) w' = subscribers g w'"
  by (simp add: notify_subscriber_def split: option.split)

lemma require_conversation_effects [runs_intros]:
  "runs_in (effects_at w) (require_conversation_subject hc env w subj c)"
  unfolding require_conversation_subject_def resolve_conversation_owner_def
  by (auto intro!: runs_intros refl_trans_effects_at updateS_effects split: access_decision.split)

lemma mint_for_effects [runs_intros]: "runs_in (effects_at w) (mint_for hc env w subj)"
  unfolding mint_for_def by (auto intro!: runs_intros refl_trans_effects_at updateS_effects)

lemma ingest_user_message_effects [runs_intros]:
  "runs_in (effects_at w) (ingest_user_message hc env req subj w m)"
  unfolding ingest_user_message_def
  by (auto intro!: runs_intros refl_trans_effects_at updateS_effects simp: notify_subscribers)

lemma ingest_client_response_effects [runs_intros]:
  "runs_in (effects_at w) (ingest_client_response w' cr)"
  unfolding ingest_client_response_def
  by (auto intro!: runs_intros refl_trans_effects_at updateS_effects)

definition changed_at :: "string \<Rightarrow> 'h relay \<Rightarrow> 'h relay \<Rightarrow> bool" where
  "changed_at w r r' \<longleftrightarrow>
     rl_harness r' w \<noteq> rl_harness r w \<or> subscribers (rl_state r') w \<noteq> subscribers (rl_state r) w"

text \<open>A handler that starts with a check has an effect, or succeeds, only past the check.\<close>

lemma checked_effect:
  assumes "\<And>v. runs_in (effects_at (ws v)) (k v)" "changed_at w r (snd (bindS (checkS f) k r))"
  shows "\<exists>v. f (rl_state r) = Inr v \<and> ws v = w"
proof (cases "f (rl_state r)")
  case (Inl e)
  then show ?thesis using assms(2) by (simp add: bind_checkS changed_at_def)
next
  case (Inr v)
  have "effects_at (ws v) r (snd (k v r))" using assms(1) [of v] by (simp add: runs_in_def)
  moreover have "changed_at w r (snd (k v r))" using Inr assms(2) by (simp add: bind_checkS)
  ultimately have "ws v = w" unfolding effects_at_def changed_at_def by metis
  then show ?thesis using Inr by blast
qed

lemma checked_success:
  "fst (respond f (bindS (checkS a) k) r) = Inr y \<Longrightarrow> \<exists>v. a (rl_state r) = Inr v"
  by (cases "a (rl_state r)") (auto simp: respond_eq bind_checkS)

definition authorized_at :: "gw_env \<Rightarrow> gateway_state \<Rightarrow> string \<Rightarrow> bool" where
  "authorized_at env g w \<longleftrightarrow> (\<exists>subj. vouched env subj g \<and> may_reach env subj w g)"

lemma checked_authorized:
  assumes "m = bindS (checkS a) k" "\<And>v. runs_in (effects_at (ws v)) (k v)"
    and "\<And>v. a (rl_state r) = Inr v \<Longrightarrow> authorized_at env (rl_state r) (ws v)"
    and "(\<exists>y. fst (respond f m r) = Inr y) \<and> (\<forall>v. a (rl_state r) = Inr v \<longrightarrow> ws v = w) \<or> changed_at w r (snd (m r))"
  shows "authorized_at env (rl_state r) w"
proof -
  have "\<exists>v. a (rl_state r) = Inr v \<and> ws v = w"
    using assms(1,4) checked_success [of f a k r] checked_effect [where ws = ws and w = w, OF assms(2), of r a] by blast
  then show ?thesis using assms(3) by blast
qed

lemma workspace_authorized:
  "authorize_workspace env w g = Inr subj \<Longrightarrow> authorized_at env g w"
  using authorize_workspace_vouched [of env w g subj] by (auto simp: authorized_at_def)

lemma receive_authorized: "authorize_receive env w s g = Inr v \<Longrightarrow> authorized_at env g w"
  using authorize_receive_vouched [of env w s g] by (cases v) (auto simp: authorized_at_def)

lemma ingest_authorized: "authorize_ingest env i g = Inr v \<Longrightarrow> authorized_at env g (snd v)"
  using authorize_ingest_vouched [of env i g] by (cases v) (auto simp: authorized_at_def)

text \<open>The handlers as a check and a body.\<close>

lemma list_grants_alt:
  "list_grants env w = bindS (checkS (authorize_workspace env w)) (\<lambda>_. checkS (\<lambda>g. Inr (for_workspace (capabilities g) w)))"
  by (simp add: fun_eq_iff list_grants_def bind_checkS) (simp add: checkS_def split: sum.split)

lemma cancel_tool_alt:
  "cancel_tool hc env k =
     bindS (checkS (\<lambda>g. and_then (person_subject env g) (\<lambda>subj.
         and_then (ensure (k \<noteq> []) (invalid_argument ''CancelToolRequest.call_id required'')) (\<lambda>_.
         and_then (owned_call k subj g) (\<lambda>w. and_then (reach env subj w g) (\<lambda>_. Inr w)))))) (\<lambda>w.
     bindS (harness env w) (\<lambda>_. on_harness w (hc_cancel_tool hc (ge_call env) k)))"
  by (cases "k = []") (simp_all add: fun_eq_iff cancel_tool_def bind_checkS and_then_def failS_def split: sum.split)

lemmas workspace_handlers = list_grants_alt mint_conversation_def list_conversations_def delete_conversation_def
  cancel_turn_def set_conversation_name_def get_conversation_history_def get_turn_state_def watch_tools_stream_def
  dispatch_tool_def await_tool_result_def

lemmas body_rules = runs_intros refl_trans_effects_at updateS_effects

lemma workspace_effect:
  assumes "m = bindS (checkS (authorize_workspace env w0)) k" "\<And>v. runs_in (effects_at w0) (k v)"
    and "(\<exists>y. fst (respond f m r) = Inr y) \<and> w0 = w \<or> changed_at w r (snd (m r))"
  shows "authorized_at env (rl_state r) w"
  by (rule checked_authorized [where ws = "\<lambda>_. w0" and f = f, OF assms(1,2) workspace_authorized]) (use assms(3) in auto)

lemma ingest_effect:
  assumes "(\<exists>y. fst (respond f (channel_stream_ingest hc env q) r) = Inr y) \<and>
      map_option (\<lambda>(_, _, w). w) (channel_stream_binding (ir_channel_stream_id q) (rl_state r)) = Some w \<or>
    changed_at w r (snd (channel_stream_ingest hc env q r))"
  shows "authorized_at env (rl_state r) w"
proof (rule checked_authorized [where ws = snd and f = f, OF channel_stream_ingest_def _ ingest_authorized])
  show "(\<exists>y. fst (respond f (channel_stream_ingest hc env q) r) = Inr y) \<and>
      (\<forall>v. authorize_ingest env (ir_channel_stream_id q) (rl_state r) = Inr v \<longrightarrow> snd v = w) \<or>
      changed_at w r (snd (channel_stream_ingest hc env q r))"
    using assms authorize_ingest_vouched(3) [of env "ir_channel_stream_id q" "rl_state r"] by fastforce
qed (auto intro!: body_rules split: prod.split option.split)

lemma receive_effect:
  assumes "(\<exists>y. fst (respond f (channel_stream_receive env w0 sender) r) = Inr y) \<and> w0 = w \<or>
    changed_at w r (snd (channel_stream_receive env w0 sender r))"
  shows "authorized_at env (rl_state r) w"
  by (rule checked_authorized [where ws = "\<lambda>_. w0" and f = f, OF channel_stream_receive_def _ receive_authorized])
    (use assms in \<open>auto intro!: body_rules split: prod.split simp: Let_def\<close>)

lemma cancel_tool_effect:
  assumes "(\<exists>y. fst (respond f (cancel_tool hc env k) r) = Inr y) \<and> map_option snd (dispatched_calls (rl_state r) k) = Some w \<or>
    changed_at w r (snd (cancel_tool hc env k r))"
  shows "authorized_at env (rl_state r) w"
proof (rule checked_authorized [where ws = id and f = f and r = r and env = env and w = w, OF cancel_tool_alt [of hc env k]], goal_cases)
  case (2 v)
  then show ?case using person_vouched by (fastforce simp: result_simps reach_iff authorized_at_def)
next
  case 3
  then show ?case using assms by (auto simp: owned_call_def result_simps)
qed (auto intro!: body_rules)

text \<open>
  C3. Nothing happens at a workspace without authorization: if a request is answered for
  a workspace, or changes the state of a workspace's harness or puts a message on its bus,
  then the apiserver vouched for the subject the request acts for, on this very request,
  and allowed that subject to reach that workspace.
\<close>

theorem effects_authorized:
  assumes "gateway_step hc env req r = (x, r')"
    and "(\<exists>y. x = Inr y) \<and> request_workspace req (rl_state r) = Some w \<or> changed_at w r r'"
  shows "\<exists>subj. vouched env subj (rl_state r) \<and> may_reach env subj w (rl_state r)"
proof -
  have eff: "(\<exists>y. fst (gateway_step hc env req r) = Inr y) \<and> request_workspace req (rl_state r) = Some w \<or>
      changed_at w r (snd (gateway_step hc env req r))"
    using assms by simp
  have "authorized_at env (rl_state r) w"
  proof (cases req)
    case Discover
    then show ?thesis using eff by (simp add: discover_def checkS_def changed_at_def)
  next
    case ListWorkspaces
    then show ?thesis using eff by (simp add: list_workspaces_def checkS_def changed_at_def)
  next
    case (ListGrants w0)
    show ?thesis by (rule workspace_effect [OF list_grants_alt]) (use eff ListGrants in \<open>auto intro!: body_rules\<close>)
  next
    case (MintConversation w0)
    show ?thesis by (rule workspace_effect [OF mint_conversation_def]) (use eff MintConversation in \<open>auto intro!: body_rules\<close>)
  next
    case (ListConversations w0)
    show ?thesis by (rule workspace_effect [OF list_conversations_def]) (use eff ListConversations in \<open>auto intro!: body_rules\<close>)
  next
    case (DeleteConversation w0 c)
    show ?thesis by (rule workspace_effect [OF delete_conversation_def]) (use eff DeleteConversation in \<open>auto intro!: body_rules\<close>)
  next
    case (CancelTurn w0 c)
    show ?thesis by (rule workspace_effect [OF cancel_turn_def]) (use eff CancelTurn in \<open>auto intro!: body_rules\<close>)
  next
    case (SetConversationName w0 c n)
    show ?thesis by (rule workspace_effect [OF set_conversation_name_def]) (use eff SetConversationName in \<open>auto intro!: body_rules\<close>)
  next
    case (GetConversationHistory w0 c l)
    show ?thesis by (rule workspace_effect [OF get_conversation_history_def]) (use eff GetConversationHistory in \<open>auto intro!: body_rules\<close>)
  next
    case (GetTurnState w0 c)
    show ?thesis by (rule workspace_effect [OF get_turn_state_def]) (use eff GetTurnState in \<open>auto intro!: body_rules\<close>)
  next
    case (ChannelStreamIngest q)
    show ?thesis by (rule ingest_effect) (use eff ChannelStreamIngest in auto)
  next
    case (ChannelStreamReceive w0 sender)
    show ?thesis by (rule receive_effect) (use eff ChannelStreamReceive in auto)
  next
    case (WatchTools w0)
    show ?thesis by (rule workspace_effect [OF watch_tools_stream_def]) (use eff WatchTools in \<open>auto intro!: body_rules\<close>)
  next
    case (DispatchTool w0 n i c)
    show ?thesis by (rule workspace_effect [OF dispatch_tool_def]) (use eff DispatchTool in \<open>auto intro!: body_rules\<close>)
  next
    case (AwaitToolResult w0 k c)
    show ?thesis by (rule workspace_effect [OF await_tool_result_def]) (use eff AwaitToolResult in \<open>auto intro!: body_rules\<close>)
  next
    case (CancelTool k)
    show ?thesis by (rule cancel_tool_effect) (use eff CancelTool in auto)
  qed
  then show ?thesis by (simp add: authorized_at_def)
qed

text \<open>
  A harness that only mints, and a person's call: the apiserver answers a token review with
  the token as the username, and lets alice reach the workspace notes.
\<close>

definition minting_harness :: "string list harness_control" where
  "minting_harness =
     \<lparr> hc_watch_tools = (\<lambda>_. []), hc_dispatch_tool = (\<lambda>_ _ _ _. failS denied_call),
       hc_await_tool_result = (\<lambda>_ _ _. failS denied_call), hc_cancel_tool = (\<lambda>_ _. failS denied_call),
       hc_mint_conversation = (\<lambda>i _ h. (Inr (ci_uuid i), ci_uuid i # h)), hc_list_conversations = (\<lambda>_. retS []),
       hc_delete_conversation = (\<lambda>_ _. retS ()), hc_set_conversation_name = (\<lambda>_ _ _. retS ()),
       hc_cancel_turn = (\<lambda>_. retS False), hc_get_conversation_history = (\<lambda>_ _ _ _. failS denied_conversation) \<rparr>"

definition person_env :: "string \<Rightarrow> string \<Rightarrow> gw_env" where
  "person_env subj uuid =
     \<lparr> ge_class = Some PersonToken, ge_authorization = Some (''Bearer '' @ subj), ge_to_str = Some,
       ge_token_api = (\<lambda>rev. Inr (rev\<lparr> tr_status := Some \<lparr> authenticated = Some True,
         audiences = trs_audiences (tr_spec rev), user = Some (trs_token (tr_spec rev)) \<rparr> \<rparr>)),
       ge_access_api = (\<lambda>rev. Inr (Some (rev \<in> {build_subject_access_review ''alice'' ''notes'' ''ns'',
         build_subject_access_review ''bob'' ''notes'' ''ns''}))),
       ge_dial = (\<lambda>_. Some (Inr ())), ge_uuid = ''st'' @ uuid,
       ge_call = \<lparr> ci_io = Io_ok, ci_uuid = uuid, ci_now_ms = 7, ci_read_error = None, ci_live = [] \<rparr> \<rparr>"

lemma person_env_bearer [simp]:
  "extract_bearer_token (ge_to_str (person_env subj uuid)) (ge_authorization (person_env subj uuid)) = Inr subj"
  by (simp add: person_env_def extract_bearer_token_def ok_or_def del: append.simps)

lemma person_env_review [simp]:
  "subj \<noteq> [] \<Longrightarrow> review_token_username (ge_token_api (person_env s uuid)) subj aud = Inr subj"
  by (simp add: person_env_def review_token_username_def build_token_review_def username_from_review_def result_simps
      split: option.split)

lemma person_env_authenticate [simp]:
  "subj \<noteq> [] \<Longrightarrow> kube_configured g \<Longrightarrow> authenticate (person_env subj uuid) g = Inr (Caller_Person subj)"
  by (simp add: authenticate_person) (simp add: person_env_def)

lemma person_env_reach [simp]:
  "kube_configured g \<Longrightarrow> namespace g = ''ns'' \<Longrightarrow> subj = ''alice'' \<or> subj = ''bob'' \<Longrightarrow>
   reach (person_env s uuid) subj ''notes'' g = Inr ()"
  by (simp add: reach_iff may_reach_def) (auto simp: person_env_def)

lemma person_env_workspace [simp]:
  "kube_configured g \<Longrightarrow> namespace g = ''ns'' \<Longrightarrow> subj = ''alice'' \<or> subj = ''bob'' \<Longrightarrow>
   authorize_workspace (person_env subj uuid) ''notes'' g = Inr subj"
  by (auto simp: authorize_workspace_def require_workspace_def person_subject_def)

theorem effects_authorized_witness:
  "let r = \<lparr> rl_state = gateway_new True ''ns'', rl_harness = \<lambda>_. [] \<rparr>; env = person_env ''alice'' ''c1'' in
   changed_at ''notes'' r (snd (gateway_step minting_harness env (MintConversation ''notes'') r)) \<and>
   (\<exists>subj. vouched env subj (gateway_new True ''ns'') \<and> may_reach env subj ''notes'' (gateway_new True ''ns''))"
proof -
  let ?r = "\<lparr> rl_state = gateway_new True ''ns'', rl_harness = \<lambda>_. [] :: string list \<rparr>"
  let ?env = "person_env ''alice'' ''c1''"
  have "changed_at ''notes'' ?r (snd (gateway_step minting_harness ?env (MintConversation ''notes'') ?r))"
    by (simp add: mint_conversation_def bind_checkS gateway_new_def gateway_new_with_idp_def)
      (simp add: mint_for_def bindS_def harness_def pool_get_def on_harness_def minting_harness_def
        updateS_def retS_def changed_at_def person_env_def)
  with effects_authorized [OF prod.collapse [symmetric] disjI2 [OF this]] show ?thesis
    by (simp add: Let_def)
qed

end
