(* ===== verification/Relay_Internal.thy ===== *)
theory Relay_Internal
  imports Gateway_State
begin

text \<open>
  The in-cluster service of the relay that the harnesses call,
  \<^verbatim>\<open>relay-controller/src/internal.rs\<close>. A harness is known by its ServiceAccount token
  alone, and every effect is confined to the workspace that account names.
\<close>

section \<open>Handlers\<close>

definition DEFAULT_AWAIT_SECS :: nat where
  "DEFAULT_AWAIT_SECS = 30"

definition MAX_AWAIT_SECS :: nat where
  "MAX_AWAIT_SECS = 300"

definition clamp_await_secs :: "nat \<Rightarrow> nat" where
  "clamp_await_secs requested =
     (if requested = 0 then DEFAULT_AWAIT_SECS else min requested MAX_AWAIT_SECS)"

text \<open>
  A call: the apiserver behind the token verifier, if one is configured, and the header.
\<close>

record int_env =
  ie_verifier :: "token_api option"
  ie_authorization :: "string option"
  ie_to_str :: "string \<Rightarrow> string option"

definition verify_caller :: "int_env \<Rightarrow> string rpc" where
  "verify_caller env =
     and_then (ok_or (failed_precondition
         ''no token verifier configured: caller identity cannot be established'') (ie_verifier env)) (\<lambda>api.
     and_then (extract_bearer_token (ie_to_str env) (ie_authorization env)) (\<lambda>token.
     verify_token api HARNESS_RELAY_AUDIENCE token))"

text \<open>The position on the workspace's bus from which the subscription forwards.\<close>

definition int_subscribe :: "int_env \<Rightarrow> (gateway_state, status, string \<times> nat) stm" where
  "int_subscribe env =
     bindS (liftS (verify_caller env)) (\<lambda>workspace g.
       case subscribe_or_create workspace g of (pos, g') \<Rightarrow> (Inr (workspace, pos), g'))"

definition int_send_server_notification :: "int_env \<Rightarrow> string \<Rightarrow> string \<Rightarrow> (gateway_state, status, bool) stm" where
  "int_send_server_notification env meth params_json =
     bindS (liftS (verify_caller env)) (\<lambda>workspace.
     bindS (liftS (ensure (meth \<noteq> []) (invalid_argument ''method required''))) (\<lambda>_ g.
       case send_server_notification workspace meth params_json g of (r, g') \<Rightarrow> (Inr (\<not> isl r), g')))"

definition empty_response :: server_request_response where
  "empty_response =
     \<lparr> ssr_result_json = [], ssr_error = None, ssr_timed_out = False, ssr_unknown_channel_stream = False,
       ssr_unsupported_method = False \<rparr>"

definition request_response :: "request_error + request_outcome \<Rightarrow> server_request_response" where
  "request_response r =
     (case r of
        Inr (Client_Result result_json) \<Rightarrow> empty_response\<lparr> ssr_result_json := result_json \<rparr>
      | Inr (Client_Error e) \<Rightarrow> empty_response\<lparr> ssr_error := Some e \<rparr>
      | Inl UnsupportedMethod \<Rightarrow> empty_response\<lparr> ssr_unsupported_method := True \<rparr>
      | Inl Timeout \<Rightarrow> empty_response\<lparr> ssr_timed_out := True \<rparr>
      | Inl _ \<Rightarrow> empty_response\<lparr> ssr_unknown_channel_stream := True \<rparr>)"

text \<open>
  \<^verbatim>\<open>send_server_request_and_await\<close>: an answer at once, or the waiter the call is parked
  on with the seconds it may wait; the answer is then \<^const>\<open>request_response\<close> of the
  waiter's result.
\<close>

definition int_send_server_request ::
  "int_env \<Rightarrow> string \<Rightarrow> string \<Rightarrow> string \<Rightarrow> nat
   \<Rightarrow> (gateway_state, status, server_request_response + nat \<times> nat) stm" where
  "int_send_server_request env request_id meth params_json timeout_seconds =
     bindS (liftS (verify_caller env)) (\<lambda>workspace.
     bindS (liftS (ensure (request_id \<noteq> [])
         (invalid_argument ''request_id required (notifications use SendServerNotification)''))) (\<lambda>_.
     bindS (liftS (ensure (meth \<noteq> []) (invalid_argument ''method required''))) (\<lambda>_ g.
       case send_server_request workspace request_id meth params_json g of
         (Inl e, g') \<Rightarrow> (Inr (Inl (request_response (Inl e))), g')
       | (Inr n, g') \<Rightarrow> (Inr (Inr (n, clamp_await_secs timeout_seconds)), g'))))"

definition deliver_to_workspace :: "string \<Rightarrow> outbound \<Rightarrow> (gateway_state, status, bool) stm" where
  "deliver_to_workspace workspace msg g =
     (case send_to_workspace workspace msg g of (delivered, g') \<Rightarrow> (Inr (delivered > 0), g'))"

definition int_deliver_reply :: "int_env \<Rightarrow> content_block list \<Rightarrow> string \<Rightarrow> (gateway_state, status, bool) stm" where
  "int_deliver_reply env blocks conversation_id =
     bindS (liftS (verify_caller env)) (\<lambda>workspace.
     deliver_to_workspace workspace (Some (Command_SendMessage blocks conversation_id)))"

text \<open>\<^verbatim>\<open>TurnState::try_from(..).unwrap_or(TurnState::Unspecified)\<close>.\<close>

definition turn_state_try_from :: "int \<Rightarrow> int" where
  "turn_state_try_from n = (if n \<in> {0, turn_idle, turn_working, turn_failed, turn_cancelled} then n else 0)"

definition record_delivered_state :: "string \<Rightarrow> turn_state_event \<Rightarrow> gateway_state \<Rightarrow> gateway_state" where
  "record_delivered_state subj ev g =
     (let state = turn_state_try_from (ts_state ev) in
      if state = turn_failed then
        record_turn_state subj (ts_conversation_id ev)
          \<lparr> tr_state = state, tr_reason = ts_reason ev, tr_code = ts_code ev \<rparr> g
      else if subj \<noteq> [] then
        record_turn_state subj (ts_conversation_id ev) \<lparr> tr_state = state, tr_reason = [], tr_code = [] \<rparr> g
      else g)"

definition int_deliver_turn_state ::
  "int_env \<Rightarrow> string \<Rightarrow> turn_state_event option \<Rightarrow> string \<Rightarrow> (gateway_state, status, bool) stm" where
  "int_deliver_turn_state env channel_stream_id turn_state req_subject =
     bindS (liftS (verify_caller env)) (\<lambda>workspace.
     bindS (liftS (ok_or (invalid_argument ''turn_state required'') turn_state)) (\<lambda>ev g.
       let subj = (if req_subject \<noteq> [] then req_subject
                   else (case channel_stream_binding channel_stream_id g of
                       Some (_, s, bound) \<Rightarrow> if bound = workspace then s else []
                     | None \<Rightarrow> []))
       in deliver_to_workspace workspace
            (turn_state_frame (ts_state ev) (ts_conversation_id ev) (ts_reason ev) (ts_code ev))
            (record_delivered_state subj ev g)))"

definition int_deliver_stream_item :: "int_env \<Rightarrow> stream_item option \<Rightarrow> (gateway_state, status, bool) stm" where
  "int_deliver_stream_item env item =
     bindS (liftS (verify_caller env)) (\<lambda>workspace.
     bindS (liftS (ok_or (invalid_argument ''item required'') item)) (\<lambda>it.
     deliver_to_workspace workspace (Some (Command_StreamItem it))))"

section \<open>Requests\<close>

datatype int_request = Subscribe | SendServerNotification string string
  | SendServerRequest string string string nat | DeliverReply "content_block list" string
  | DeliverTurnState string "turn_state_event option" string | DeliverStreamItem "stream_item option"

datatype int_response = IResp_Subscribed "string \<times> nat" | IResp_Delivered bool
  | IResp_Request "server_request_response + nat \<times> nat"

fun internal_step :: "int_env \<Rightarrow> int_request \<Rightarrow> (gateway_state, status, int_response) stm" where
  "internal_step env Subscribe = respond IResp_Subscribed (int_subscribe env)"
| "internal_step env (SendServerNotification m p) = respond IResp_Delivered (int_send_server_notification env m p)"
| "internal_step env (SendServerRequest i m p t) = respond IResp_Request (int_send_server_request env i m p t)"
| "internal_step env (DeliverReply blocks c) = respond IResp_Delivered (int_deliver_reply env blocks c)"
| "internal_step env (DeliverTurnState i ev s) = respond IResp_Delivered (int_deliver_turn_state env i ev s)"
| "internal_step env (DeliverStreamItem item) = respond IResp_Delivered (int_deliver_stream_item env item)"

section \<open>Confinement\<close>

text \<open>The streams a harness of workspace \<open>w\<close> has no business with.\<close>

definition streams_outside :: "string \<Rightarrow> gateway_state \<Rightarrow> (string \<times> channel_stream_entry) list" where
  "streams_outside w g = filter (\<lambda>(_, e). se_workspace e \<noteq> w) (channel_streams g)"

text \<open>
  What a call of the harness of \<open>w\<close> leaves alone: the streams, buses and pending requests
  of other workspaces, who every stream belongs to, and the relay's records of who owns
  conversations and calls.
\<close>

definition confined_to :: "string \<Rightarrow> gateway_state \<Rightarrow> gateway_state \<Rightarrow> bool" where
  "confined_to w g g' \<longleftrightarrow>
     streams_outside w g' = streams_outside w g \<and>
     (\<lambda>i. channel_stream_binding i g') = (\<lambda>i. channel_stream_binding i g) \<and>
     subscribers g' |` (- {w}) = subscribers g |` (- {w}) \<and>
     pending_server_requests g' |` {k. fst k \<noteq> w} = pending_server_requests g |` {k. fst k \<noteq> w} \<and>
     conversation_owners g' = conversation_owners g \<and> dispatched_calls g' = dispatched_calls g \<and>
     identity g' = identity g \<and> capabilities g' = capabilities g"

lemma confined_refl: "confined_to w g g"
  by (simp add: confined_to_def)

lemma confined_trans: "confined_to w a b \<Longrightarrow> confined_to w b c \<Longrightarrow> confined_to w a c"
  by (simp add: confined_to_def)

lemma tx_send_fields [simp]:
  "se_workspace (tx_send m e) = se_workspace e" "se_subject (tx_send m e) = se_subject e"
  "se_opener (tx_send m e) = se_opener e"
  by (simp_all add: tx_send_def)

lemma fan_out_confined: "confined_to w g (snd (fan_out P w m g))"
proof -
  have "filter (\<lambda>(_, e). se_workspace e \<noteq> w) (map (\<lambda>(i, e). (i, if se_workspace e = w \<and> P e then tx_send m e else e)) l)
      = filter (\<lambda>(_, e). se_workspace e \<noteq> w) l" for l :: "(string \<times> channel_stream_entry) list"
    by (induction l) (auto split: if_splits)
  moreover have "map_option (\<lambda>e. (se_opener e, se_subject e, se_workspace e))
        (map_of (map (\<lambda>(i, e). (i, if se_workspace e = w \<and> P e then tx_send m e else e)) l) i)
      = map_option (\<lambda>e. (se_opener e, se_subject e, se_workspace e)) (map_of l i)"
    for l :: "(string \<times> channel_stream_entry) list" and i
    by (induction l) auto
  ultimately show ?thesis
    by (simp add: confined_to_def fan_out_def Let_def streams_outside_def channel_stream_binding_def)
qed

lemma drop_sender_confined: "confined_to w g (drop_sender (w, i) g)"
  by (auto simp: drop_sender_def confined_to_def streams_outside_def channel_stream_binding_def restrict_map_def
      fun_eq_iff split: option.splits)

lemma send_server_request_confined: "confined_to w g (snd (send_server_request w i m p g))"
proof -
  obtain n g1 where g1: "park_waiter (w, i) g = (n, g1)" by fastforce
  let ?f = "fan_out (\<lambda>_. True) w (server_request_frame i m p) g1"
  have "confined_to w (drop_sender (w, i) g) g1"
    using g1 by (auto simp: park_waiter_def Let_def confined_to_def streams_outside_def
        channel_stream_binding_def restrict_map_def fun_eq_iff)
  then have 1: "confined_to w g (snd ?f)"
    using drop_sender_confined fan_out_confined confined_trans by metis
  moreover have "confined_to w (snd ?f) ((snd ?f)\<lparr> pending_server_requests :=
      (pending_server_requests (snd ?f))((w, i) := None), waiters := ws \<rparr>)" for ws
    by (auto simp: confined_to_def streams_outside_def channel_stream_binding_def restrict_map_def fun_eq_iff)
  ultimately show ?thesis
    using g1 confined_refl [of w g] confined_trans [OF 1]
    by (auto simp: send_server_request_def send_to_workspace_def split: prod.splits)
qed

lemma subscribe_confined: "confined_to w g (snd (subscribe_or_create w g))"
  by (auto simp: subscribe_or_create_def confined_to_def streams_outside_def channel_stream_binding_def
      restrict_map_def fun_eq_iff split: option.splits)

lemma notification_confined: "confined_to w g (snd (send_server_notification w m p g))"
  using fan_out_confined [of w g "supports m" "server_request_frame [] m p"] confined_refl [of w g]
  by (auto simp: send_server_notification_def split: prod.splits)

lemma deliver_confined: "confined_to w g (snd (deliver_to_workspace w m g))"
  using fan_out_confined [of w g "\<lambda>_. True" m]
  by (auto simp: deliver_to_workspace_def send_to_workspace_def split: prod.splits)

lemma record_delivered_confined: "confined_to w g (record_delivered_state s ev g)"
  by (simp add: record_delivered_state_def record_turn_state_def Let_def confined_to_def streams_outside_def
      channel_stream_binding_def)

lemmas int_defs = int_subscribe_def int_send_server_notification_def int_send_server_request_def
  int_deliver_reply_def int_deliver_turn_state_def int_deliver_stream_item_def

lemma unverified_step: "verify_caller env = Inl e \<Longrightarrow> internal_step env req g = (Inl e, g)"
  by (cases req) (simp_all add: int_defs respond_eq failS_def)

lemma verified_step:
  assumes "verify_caller env = Inr w" shows "confined_to w g (snd (internal_step env req g))"
proof (cases req)
  case Subscribe
  then show ?thesis using assms subscribe_confined [of w g] by (simp add: int_defs split_beta)
next
  case (SendServerNotification m p)
  then show ?thesis using assms notification_confined [of w g m p] confined_refl [of w g]
    by (simp add: int_defs ensure_def split_beta)
next
  case (SendServerRequest i m p t)
  then show ?thesis using assms send_server_request_confined [of w g i m p] confined_refl [of w g]
    by (cases "send_server_request w i m p g") (simp add: int_defs ensure_def split: sum.split)
next
  case (DeliverTurnState i ev s)
  then show ?thesis
    using assms confined_refl [of w g] confined_trans [OF record_delivered_confined deliver_confined, of w g]
    by (cases ev) (simp_all add: int_defs Let_def)
qed (use assms confined_refl [of w g] deliver_confined [of w g] in
    \<open>simp_all add: int_defs ok_or_def split: option.split\<close>)

text \<open>
  C18. A harness is confined to its workspace: a call whose token is not that of a
  workspace's ServiceAccount is refused and changes nothing, and a call of workspace \<open>w\<close>
  leaves the streams, buses and pending requests of every other workspace alone, re-binds
  no stream, and does not touch who owns conversations and calls.
\<close>

theorem harness_confined:
  "case verify_caller env of
     Inl e \<Rightarrow> internal_step env req g = (Inl e, g)
   | Inr w \<Rightarrow> confined_to w g (snd (internal_step env req g))"
  by (simp add: unverified_step verified_step split: sum.split)

section \<open>Requests\<close>

lemma record_delivered_requests: "requests (record_delivered_state s ev g) = requests g"
  by (simp add: record_delivered_state_def record_turn_state_def Let_def requests_def)

text \<open>Only a server request touches the requests, and it does so as \<^const>\<open>send_server_request\<close> does.\<close>

lemma internal_step_other:
  assumes "\<not> (\<exists>i m p t. req = SendServerRequest i m p t)" "internal_step env req g = (x, g')"
  shows "requests g' = requests g"
proof -
  have fan: "requests (snd (fan_out P w m g1)) = requests g1" for P w m g1
    using fan_out_requests [of P w m g1] by (cases "fan_out P w m g1") simp
  have deliver: "requests (snd (deliver_to_workspace w m g1)) = requests g1" for w m g1
    using fan by (simp add: deliver_to_workspace_def send_to_workspace_def split_beta)
  have g': "g' = snd (internal_step env req g)" using assms(2) by simp
  show ?thesis
  proof (cases "verify_caller env")
    case (Inl e)
    then show ?thesis unfolding g' by (cases req) (simp_all add: int_defs)
  next
    case (Inr w)
    show ?thesis
    proof (cases req)
      case (SendServerNotification m p)
      then show ?thesis unfolding g' using Inr fan
        by (simp add: int_defs ensure_def send_server_notification_def split_beta)
    qed (use assms(1) Inr deliver record_delivered_requests [of _ _ g] in
        \<open>simp_all add: g' int_defs ok_or_def Let_def split_beta subscribe_or_create_def requests_def split: option.split\<close>)
  qed
qed

lemma internal_step_send:
  assumes "internal_step env (SendServerRequest i m p t) g = (x, g')"
  obtains "g' = g" | w y where "send_server_request w i m p g = (y, g')"
proof (cases "verify_caller env")
  case (Inr w)
  obtain r g1 where "send_server_request w i m p g = (r, g1)" by fastforce
  then show ?thesis
    using assms Inr that
    by (cases r) (auto simp: int_defs respond_eq bindS_def liftS_def ensure_def split: if_splits)
qed (use assms that in \<open>auto simp: int_defs respond_eq failS_def\<close>)

lemma internal_step_requests:
  assumes "requests_wf g" "internal_step env req g = (x, g')"
  shows "requests_wf g' \<and> answers_kept g g'"
proof (cases "\<exists>i m p t. req = SendServerRequest i m p t")
  case True
  then obtain i m p t where "internal_step env (SendServerRequest i m p t) g = (x, g')" using assms(2) by blast
  then show ?thesis
    by (rule internal_step_send) (use assms(1) send_server_request_wf in \<open>auto simp: answers_kept_def\<close>)
next
  case False
  then show ?thesis
    using assms(1) internal_step_other [OF False assms(2)] requests_wf_cong [of g' g] answers_kept_cong by simp
qed

text \<open>The wait of a server request is positive and at most five minutes.\<close>

lemma clamp_await_secs_bounds: "0 < clamp_await_secs n" "clamp_await_secs n \<le> MAX_AWAIT_SECS"
  by (simp_all add: clamp_await_secs_def DEFAULT_AWAIT_SECS_def MAX_AWAIT_SECS_def)

end
