(* ===== verification/Relay.thy ===== *)
theory Relay
  imports Gateway Relay_Internal Harness_Service
begin

text \<open>
  The relay as a whole: every interleaving of client requests, calls of the harnesses,
  background tasks, configuration deliveries and the harnesses' own work. What holds of
  all of them, for any harness that keeps the contract of \<^verbatim>\<open>HarnessControl\<close>: the relay's
  idea of who owns a conversation agrees with the harnesses, and a pending server request
  can always be answered.
\<close>

section \<open>Runs\<close>

text \<open>
  The background of the relay: the end of a response stream, the unregistration after the
  drain, a heartbeat tick, the timeout or the loss of a waiting call, and deliveries of the
  watched tables.
\<close>

datatype background = Bg_StreamClosed string | Bg_Unregister string | Bg_Heartbeat string
  | Bg_Timeout nat | Bg_CallDropped nat | Bg_Identity identity_table | Bg_Capabilities capability_grants

fun relay_background :: "background \<Rightarrow> gateway_state \<Rightarrow> gateway_state" where
  "relay_background (Bg_StreamClosed i) g = with_stream i (\<lambda>e. e\<lparr> se_open := False \<rparr>) g"
| "relay_background (Bg_Unregister i) g = unregister_channel_stream i g"
| "relay_background (Bg_Heartbeat i) g = heartbeat_tick i g"
| "relay_background (Bg_Timeout n) g = waiter_timeout n g"
| "relay_background (Bg_CallDropped n) g = abandon_waiter n g"
| "relay_background (Bg_Identity t) g = g\<lparr> identity := t \<rparr>"
| "relay_background (Bg_Capabilities t) g = g\<lparr> capabilities := t \<rparr>"

text \<open>A UUID the call draws is new to the relay and to every harness.\<close>

definition fresh_uuid :: "('h \<Rightarrow> string \<rightharpoonup> string) \<Rightarrow> gw_env \<Rightarrow> 'h relay \<Rightarrow> bool" where
  "fresh_uuid owner env r \<longleftrightarrow>
     conversation_owners (rl_state r) (ci_uuid (ge_call env)) = None \<and>
     (\<forall>w. owner (rl_harness r w) (ci_uuid (ge_call env)) = None)"

definition owners_agree :: "('h \<Rightarrow> string \<rightharpoonup> string) \<Rightarrow> (string \<Rightarrow> 'h) \<Rightarrow> bool" where
  "owners_agree owner hs \<longleftrightarrow>
     (\<forall>w w' c s s'. owner (hs w) c = Some s \<longrightarrow> owner (hs w') c = Some s' \<longrightarrow> s = s')"

text \<open>
  A step of the system: a client's request, a call of a harness, background work of the
  relay; a harness that goes its own way or restarts, as long as it keeps its owners; and
  a restart of the relay, which starts from nothing.
\<close>

datatype relay_event = Ev_Request gw_env gw_request | Ev_Internal int_env int_request
  | Ev_Background background | Ev_Harness string | Ev_Restart

inductive relay_step ::
  "'h harness_control \<Rightarrow> ('h \<Rightarrow> bool) \<Rightarrow> ('h \<Rightarrow> string \<rightharpoonup> string) \<Rightarrow> (call_input \<Rightarrow> bool)
   \<Rightarrow> relay_event \<Rightarrow> 'h relay \<Rightarrow> 'h relay \<Rightarrow> bool"
  for hc ok owner sane where
  request: "\<lbrakk>sane (ge_call env); fresh_uuid owner env r; gateway_step hc env req r = (x, r')\<rbrakk> \<Longrightarrow>
    relay_step hc ok owner sane (Ev_Request env req) r r'"
| internal: "internal_step ienv ireq (rl_state r) = (y, g) \<Longrightarrow>
    relay_step hc ok owner sane (Ev_Internal ienv ireq) r (r\<lparr> rl_state := g \<rparr>)"
| background: "relay_step hc ok owner sane (Ev_Background b) r (r\<lparr> rl_state := relay_background b (rl_state r) \<rparr>)"
| harness: "\<lbrakk>ok h; owner h = owner (rl_harness r w)\<rbrakk> \<Longrightarrow>
    relay_step hc ok owner sane (Ev_Harness w) r (r\<lparr> rl_harness := (rl_harness r)(w := h) \<rparr>)"
| restart: "relay_step hc ok owner sane Ev_Restart r (r\<lparr> rl_state := gateway_new_with_idp kube ns iss aud ca \<rparr>)"

inductive relay_reach ::
  "'h harness_control \<Rightarrow> ('h \<Rightarrow> bool) \<Rightarrow> ('h \<Rightarrow> string \<rightharpoonup> string) \<Rightarrow> (call_input \<Rightarrow> bool) \<Rightarrow> 'h relay \<Rightarrow> bool"
  for hc ok owner sane where
  start: "\<lbrakk>\<forall>w. ok (hs w); owners_agree owner hs\<rbrakk> \<Longrightarrow>
    relay_reach hc ok owner sane \<lparr> rl_state = gateway_new_with_idp kube ns iss aud ca, rl_harness = hs \<rparr>"
| step: "relay_reach hc ok owner sane r \<Longrightarrow> relay_step hc ok owner sane ev r r' \<Longrightarrow> relay_reach hc ok owner sane r'"

section \<open>Pending requests over a run\<close>

text \<open>
  Most of what the relay does leaves the pending requests alone; an ingest may deliver an
  answer, at most once.
\<close>

definition quiet :: "'h relay \<Rightarrow> 'h relay \<Rightarrow> bool" where
  "quiet r r' \<longleftrightarrow> requests (rl_state r') = requests (rl_state r)"

definition answered :: "string \<Rightarrow> string \<Rightarrow> request_outcome \<Rightarrow> 'h relay \<Rightarrow> 'h relay \<Rightarrow> bool" where
  "answered w i out r r' \<longleftrightarrow> quiet r r' \<or>
     requests (rl_state r') = requests (snd (deliver_client_response w i out (rl_state r)))"

lemma deliver_cong:
  "requests g' = requests g \<Longrightarrow>
   requests (snd (deliver_client_response w i out g')) = requests (snd (deliver_client_response w i out g))"
  by (simp add: requests_def deliver_client_response_def Let_def split: option.split waiter.split)

lemma deliver_twice:
  "requests (snd (deliver_client_response w i out (snd (deliver_client_response w i out g)))) =
   requests (snd (deliver_client_response w i out g))"
  by (simp add: requests_def deliver_client_response_def Let_def split: option.split waiter.split)

lemma refl_trans_quiet: "refl_trans quiet"
  by (simp add: refl_trans_def quiet_def)

lemma refl_trans_answered: "refl_trans (answered w i out)"
  unfolding refl_trans_def answered_def quiet_def by (metis deliver_cong deliver_twice)

lemma quiet_answered: "runs_in quiet m \<Longrightarrow> runs_in (answered w i out) m"
  by (simp add: runs_in_def answered_def)

lemma requests_unchanged [simp]:
  "requests (with_stream i h g) = requests g"
  "requests (record_conversation_owner c s g) = requests g"
  "requests (record_dispatched_call k s w g) = requests g"
  "requests (set_and_broadcast_turn_state i s c st g) = requests g"
  "requests (mint_channel_stream i opener s w g) = requests g"
  "requests (replay_turn_state i g) = requests g"
  "requests (spawn_heartbeat i g) = requests g"
  "requests (update_supported_methods i ms g) = requests g"
  "requests (notify_subscriber w m g) = requests g"
  "requests (unregister_channel_stream i g) = requests g"
  "requests (heartbeat_tick i g) = requests g"
  by (simp_all add: with_stream_def record_conversation_owner_def record_dispatched_call_def record_turn_state_def
      set_and_broadcast_turn_state_def mint_channel_stream_def replay_turn_state_def spawn_heartbeat_def
      update_supported_methods_def notify_subscriber_def unregister_channel_stream_def heartbeat_tick_def requests_def split: option.split)

lemma updateS_quiet: "(\<And>g. requests (f g) = requests g) \<Longrightarrow> runs_in quiet (updateS f)"
  by (simp add: runs_in_def updateS_def quiet_def)

lemma on_harness_quiet: "runs_in quiet (on_harness w m)"
  by (auto simp: runs_in_def on_harness_def quiet_def split: prod.split)

lemma harness_quiet: "runs_in quiet (harness env w)"
  by (auto simp: runs_in_def harness_def pool_get_def Let_def quiet_def requests_def
      split: prod.splits option.splits sum.splits if_splits)

lemmas quiet_rules = runs_intros refl_trans_quiet on_harness_quiet harness_quiet updateS_quiet

lemma require_conversation_quiet: "runs_in quiet (require_conversation_subject hc env w subj c)"
  unfolding require_conversation_subject_def resolve_conversation_owner_def
  by (auto intro!: quiet_rules split: access_decision.split)

lemma mint_for_quiet: "runs_in quiet (mint_for hc env w subj)"
  unfolding mint_for_def by (auto intro!: quiet_rules)

lemma ingest_message_quiet: "runs_in quiet (ingest_user_message hc env q subj w m)"
  unfolding ingest_user_message_def by (auto intro!: quiet_rules mint_for_quiet)

lemma gateway_step_quiet: "(\<And>q. req \<noteq> ChannelStreamIngest q) \<Longrightarrow> runs_in quiet (gateway_step hc env req)"
  by (cases req)
    (auto intro!: quiet_rules require_conversation_quiet mint_for_quiet split: prod.split
      simp: discover_def list_workspaces_def list_grants_def mint_conversation_def list_conversations_def
      delete_conversation_def cancel_turn_def set_conversation_name_def get_conversation_history_def get_turn_state_def
      channel_stream_receive_def Let_def watch_tools_stream_def dispatch_tool_def await_tool_result_def cancel_tool_def)

lemma ingest_response_answered:
  "client_response_outcome cr = Inr out \<Longrightarrow> runs_in (answered w (cr_request_id cr) out) (ingest_client_response w cr)"
  by (simp add: runs_in_def ingest_client_response_def bindS_def updateS_def retS_def answered_def)

lemma ingest_response_refused: "isl (client_response_outcome cr) \<Longrightarrow> runs_in quiet (ingest_client_response w cr)"
  by (cases "client_response_outcome cr") (simp_all add: ingest_client_response_def runs_in_def quiet_def)

text \<open>The answer a request delivers, if it is one that delivers any.\<close>

definition delivers :: "gw_env \<Rightarrow> gw_request \<Rightarrow> gateway_state \<Rightarrow> string \<Rightarrow> string \<Rightarrow> request_outcome \<Rightarrow> bool" where
  "delivers env req g w i out \<longleftrightarrow> (\<exists>q s cr. req = ChannelStreamIngest q \<and>
     authorize_ingest env (ir_channel_stream_id q) g = Inr (s, w) \<and>
     ir_client_response q = Some cr \<and> cr_request_id cr = i \<and> client_response_outcome cr = Inr out)"

lemma gateway_step_answers:
  assumes "gateway_step hc env req r = (x, r')"
  shows "quiet r r' \<or> (\<exists>w i out. delivers env req (rl_state r) w i out \<and> answered w i out r r')"
proof (cases "\<exists>q. req = ChannelStreamIngest q")
  case False
  have "runs_in quiet (gateway_step hc env req)" by (rule gateway_step_quiet) (use False in blast)
  from runs_inD [OF this assms] show ?thesis ..
next
  case True
  then obtain q where q: "req = ChannelStreamIngest q" by blast
  have r': "r' = snd (channel_stream_ingest hc env q r)" using assms q by (metis gateway_step.simps(11) snd_conv snd_respond)
  show ?thesis
  proof (cases "authorize_ingest env (ir_channel_stream_id q) (rl_state r)")
    case (Inl e)
    then show ?thesis using r' by (simp add: channel_stream_ingest_def bind_checkS quiet_def)
  next
    case (Inr v)
    obtain s w where v: "v = (s, w)" by fastforce
    note steps = updateS_quiet require_conversation_quiet ingest_message_quiet
    let ?body = "bindS (require_conversation_subject hc env w s (ir_conversation_id q)) (\<lambda>_.
       bindS (updateS (\<lambda>g. if ir_supported_methods q = [] then g
         else update_supported_methods (ir_channel_stream_id q) (ir_supported_methods q) g)) (\<lambda>_.
       bindS (case (ir_user_message q, ir_client_response q) of
         (Some _, Some _) \<Rightarrow> failS (invalid_argument
           ''ChannelStreamIngestRequest must carry exactly one of user_message or client_response'')
       | (None, None) \<Rightarrow> failS (invalid_argument
           ''ChannelStreamIngestRequest must carry user_message or client_response'')
       | (Some m, None) \<Rightarrow> ingest_user_message hc env q s w m
       | (None, Some cr) \<Rightarrow> ingest_client_response w cr) (\<lambda>conversation_id.
       retS (ir_channel_stream_id q, conversation_id))))"
    have body: "r' = snd (?body r)" using r' Inr v unfolding channel_stream_ingest_def bind_checkS by simp
    have quiet: "quiet r r'" if "runs_in quiet ?body" using that body by (simp add: runs_in_def)
    show ?thesis
    proof (cases "\<exists>cr out. ir_client_response q = Some cr \<and> client_response_outcome cr = Inr out")
      case True
      then obtain cr out where cr: "ir_client_response q = Some cr" "client_response_outcome cr = Inr out" by blast
      have "runs_in (answered w (cr_request_id cr) out) ?body"
        using cr by (auto intro!: runs_intros refl_trans_answered steps [THEN quiet_answered] ingest_response_answered
            split: option.split)
      then have "answered w (cr_request_id cr) out r r'" using body by (simp add: runs_in_def)
      then show ?thesis using q Inr v cr by (auto simp: delivers_def)
    next
      case False
      then have none: "isl (client_response_outcome cr)" if "ir_client_response q = Some cr" for cr
        using that by (cases "client_response_outcome cr") auto
      have "runs_in quiet ?body"
        using none by (auto intro!: runs_intros refl_trans_quiet steps ingest_response_refused split: option.split)
      then show ?thesis using quiet by blast
    qed
  qed
qed

lemma answered_wf:
  assumes "requests_wf (rl_state r)" "answered w i out r r'"
  shows "requests_wf (rl_state r')"
proof -
  have "requests_wf (snd (deliver_client_response w i out (rl_state r)))"
    using deliver_client_response_wf [OF assms(1)] by (metis prod.collapse)
  then show ?thesis using assms requests_wf_cong unfolding answered_def quiet_def by blast
qed

lemma gateway_step_requests:
  "gateway_step hc env req r = (x, r') \<Longrightarrow> requests_wf (rl_state r) \<Longrightarrow> requests_wf (rl_state r')"
  using gateway_step_answers answered_wf requests_wf_cong unfolding quiet_def by metis

lemma relay_background_requests:
  "requests_wf g \<Longrightarrow> requests_wf (relay_background b g) \<and> answers_kept g (relay_background b g)"
  using waiter_timeout_wf abandon_waiter_wf
  by (cases b) (simp_all add: requests_wf_def answers_kept_def with_stream_def unregister_channel_stream_def heartbeat_tick_def)

lemma new_requests: "requests_wf (gateway_new_with_idp kube ns iss aud ca)"
  by (simp add: requests_wf_def gateway_new_with_idp_def)

lemma relay_step_requests:
  "relay_step hc ok owner sane ev r r' \<Longrightarrow> requests_wf (rl_state r) \<Longrightarrow> requests_wf (rl_state r')"
proof (induction rule: relay_step.induct)
  case (request env r req x r')
  then show ?case using gateway_step_requests by blast
next
  case (internal ienv ireq r y g)
  then show ?case using internal_step_requests [of "rl_state r" ienv ireq y g] by simp
next
  case (background b r)
  then show ?case using relay_background_requests [of "rl_state r" b] by simp
qed (simp_all add: new_requests)

lemma reach_requests: "relay_reach hc ok owner sane r \<Longrightarrow> requests_wf (rl_state r)"
  by (induction rule: relay_reach.induct) (auto simp: new_requests intro: relay_step_requests)

text \<open>
  What happens to a parked request in one step. Only a client's answer to that very
  request gives it a client's result.
\<close>

lemma answered_parked:
  assumes "requests_wf (rl_state r)" "waiters (rl_state r) n = Some (Parked (w, i))" "answered w' i' out r r'"
    and "waiters (rl_state r') n = Some (Answered (Inr o'))"
  shows "w' = w \<and> i' = i \<and> o' = out"
proof -
  let ?d = "snd (deliver_client_response w' i' out (rl_state r))"
  have "waiters (rl_state r') = waiters ?d"
    using assms(2-4) by (auto simp: answered_def quiet_def requests_def)
  moreover have "waiters ?d n = Some (Parked (w, i))" if "(w, i) \<noteq> (w', i')"
    using deliver_keeps_other [OF assms(1,2) that] .
  moreover have "waiters ?d n = Some (Answered (Inr out))" if "(w, i) = (w', i')"
    using deliver_answers_parked [OF assms(1), of n w' i' out] assms(2) that by simp
  ultimately show ?thesis using assms(4) by (cases "(w, i) = (w', i')") auto
qed

lemma background_no_answer:
  "waiters g n = Some (Parked k) \<Longrightarrow> waiters (relay_background b g) n \<noteq> Some (Answered (Inr out))"
  by (cases b) (auto simp: with_stream_def unregister_channel_stream_def heartbeat_tick_def waiter_timeout_def
      abandon_waiter_def split: option.splits waiter.splits)

lemma park_no_answer:
  "waiters g n = Some (Parked k) \<Longrightarrow> park_waiter k' g = (m, g') \<Longrightarrow> waiters g' n \<noteq> Some (Answered (Inr out))"
  by (auto simp: park_waiter_def drop_sender_def Let_def split: option.splits waiter.splits if_splits)

lemma send_no_answer:
  assumes "waiters g n = Some (Parked k)" "send_server_request w i m p g = (x, g')"
  shows "waiters g' n \<noteq> Some (Answered (Inr out))"
proof -
  obtain l g1 where g1: "park_waiter (w, i) g = (l, g1)" by fastforce
  obtain sent g2 where g2: "send_to_workspace w (server_request_frame i m p) g1 = (sent, g2)" by fastforce
  have "waiters g2 = waiters g1" using fan_out_requests g2 by (auto simp: send_to_workspace_def requests_def)
  then show ?thesis
    using assms park_no_answer [OF assms(1) g1, of out] g1 g2 by (auto simp: send_server_request_def split: if_splits)
qed

lemma internal_no_answer:
  assumes "waiters g n = Some (Parked k)" "internal_step env req g = (x, g')"
  shows "waiters g' n \<noteq> Some (Answered (Inr out))"
proof (cases "\<exists>i m p t. req = SendServerRequest i m p t")
  case True
  then obtain i m p t where req: "req = SendServerRequest i m p t" by auto
  show ?thesis
    using assms(2) unfolding req
    by (rule internal_step_send) (use assms(1) send_no_answer [OF assms(1)] in auto)
next
  case False
  then have "requests g' = requests g" using internal_step_other [OF False assms(2)] by blast
  then show ?thesis using assms(1) by (simp add: requests_def)
qed

lemma answer_delivered:
  assumes "requests_wf (rl_state r)" "relay_step hc ok owner sane ev r r'"
    and "waiters (rl_state r) n = Some (Parked (w, i))" "waiters (rl_state r') n = Some (Answered (Inr out))"
  shows "\<exists>env req. ev = Ev_Request env req \<and> delivers env req (rl_state r) w i out"
  using assms(2)
proof cases
  case (request env req x)
  then consider "quiet r r'" | w' i' out' where "delivers env req (rl_state r) w' i' out'" "answered w' i' out' r r'"
    using gateway_step_answers by blast
  then show ?thesis
  proof cases
    case 1
    then show ?thesis using assms(3,4) by (simp add: quiet_def requests_def)
  next
    case 2
    then show ?thesis using answered_parked [OF assms(1,3) 2(2) assms(4)] request by blast
  qed
next
  case (internal ienv ireq y g)
  then show ?thesis using internal_no_answer [OF assms(3)] assms(4) by auto
next
  case (background b)
  then show ?thesis using background_no_answer [OF assms(3)] assms(4) by auto
qed (use assms(3,4) in \<open>auto simp: gateway_new_with_idp_def\<close>)

section \<open>Owners\<close>

text \<open>
  The relay's cache and the harnesses agree: a conversation has one owner over all
  harnesses, and a cached owner is that one, unless the conversation is gone.
\<close>

definition owners_sound :: "('h \<Rightarrow> string \<rightharpoonup> string) \<Rightarrow> 'h relay \<Rightarrow> bool" where
  "owners_sound owner r \<longleftrightarrow>
     owners_agree owner (rl_harness r) \<and>
     (\<forall>w c s s'. conversation_owners (rl_state r) c = Some s \<longrightarrow> owner (rl_harness r w) c = Some s' \<longrightarrow> s' = s)"

lemma owners_soundD:
  assumes "owners_sound owner r"
  shows "owner (rl_harness r w) c = Some s \<Longrightarrow> owner (rl_harness r w') c = Some s' \<Longrightarrow> s = s'"
    and "conversation_owners (rl_state r) c = Some s \<Longrightarrow> owner (rl_harness r w) c = Some s' \<Longrightarrow> s' = s"
  using assms unfolding owners_sound_def owners_agree_def by metis+

lemma owners_unchanged [simp]:
  "conversation_owners (with_stream i h g) = conversation_owners g"
  "conversation_owners (record_dispatched_call k s w g) = conversation_owners g"
  "conversation_owners (set_and_broadcast_turn_state i s c st g) = conversation_owners g"
  "conversation_owners (mint_channel_stream i opener s w g) = conversation_owners g"
  "conversation_owners (replay_turn_state i g) = conversation_owners g"
  "conversation_owners (spawn_heartbeat i g) = conversation_owners g"
  "conversation_owners (update_supported_methods i ms g) = conversation_owners g"
  "conversation_owners (notify_subscriber w m g) = conversation_owners g"
  "conversation_owners (snd (deliver_client_response w i out g)) = conversation_owners g"
  by (simp_all add: with_stream_def record_dispatched_call_def record_turn_state_def
      set_and_broadcast_turn_state_def mint_channel_stream_def replay_turn_state_def spawn_heartbeat_def
      update_supported_methods_def notify_subscriber_def deliver_client_response_def Let_def
      split: option.split waiter.split)

lemma relay_background_owners: "conversation_owners (relay_background b g) = conversation_owners g"
  by (cases b) (simp_all add: unregister_channel_stream_def heartbeat_tick_def waiter_timeout_def abandon_waiter_def
      split: option.split waiter.split)

lemma internal_step_owners: "internal_step env req g = (y, g') \<Longrightarrow> conversation_owners g' = conversation_owners g"
  using unverified_step [of env _ req g] verified_step [of env _ g req]
  by (cases "verify_caller env") (auto simp: confined_to_def)

section \<open>Privacy of conversations\<close>

text \<open>The conversation a request acts on, and the subject it acts for.\<close>

fun names_conversation :: "gw_request \<Rightarrow> gateway_state \<Rightarrow> (string \<times> string) option" where
  "names_conversation (DeleteConversation w c) g = Some (w, c)"
| "names_conversation (CancelTurn w c) g = Some (w, c)"
| "names_conversation (SetConversationName w c n) g = Some (w, c)"
| "names_conversation (GetConversationHistory w c l) g = Some (w, c)"
| "names_conversation (DispatchTool w n i c) g = (if c = [] then None else Some (w, c))"
| "names_conversation (AwaitToolResult w k c) g = (if c = [] then None else Some (w, c))"
| "names_conversation (ChannelStreamIngest q) g =
     (if ir_conversation_id q = [] then None
      else map_option (\<lambda>(_, _, w). (w, ir_conversation_id q)) (channel_stream_binding (ir_channel_stream_id q) g))"
| "names_conversation _ g = None"

fun acts_for :: "gw_env \<Rightarrow> gw_request \<Rightarrow> gateway_state \<Rightarrow> string rpc" where
  "acts_for env (ChannelStreamIngest q) g = and_then (authorize_ingest env (ir_channel_stream_id q) g) (\<lambda>(s, _). Inr s)"
| "acts_for env _ g = person_subject env g"

text \<open>A call is refused without a trace: an error, and neither a harness nor a bus has changed.\<close>

definition refused :: "('h relay, status, 'a) stm \<Rightarrow> 'h relay \<Rightarrow> bool" where
  "refused m r \<longleftrightarrow> (\<exists>e g. m r = (Inl e, r\<lparr> rl_state := g \<rparr>) \<and> subscribers g = subscribers (rl_state r))"

lemma refused_bind: "refused m r \<Longrightarrow> refused (bindS m f) r"
  by (auto simp: refused_def bindS_def)

lemma refused_fail: "refused (failS e) r"
  by (auto simp: refused_def failS_def intro: exI [of _ "rl_state r"])

lemma refused_respond: "refused m r \<Longrightarrow> refused (respond f m) r"
  unfolding respond_def by (rule refused_bind)

lemma refused_check: "(\<And>v. a (rl_state r) = Inr v \<Longrightarrow> refused (k v) r) \<Longrightarrow> refused (bindS (checkS a) k) r"
  by (cases "a (rl_state r)") (auto simp: refused_def bind_checkS intro: exI [of _ "rl_state r"])

lemma refused_lift: "(\<And>v. x = Inr v \<Longrightarrow> refused (k v) r) \<Longrightarrow> refused (bindS (liftS x) k) r"
  using refused_fail by (cases x) simp_all

lemmas refused_rules = refused_respond refused_check refused_lift

text \<open>Everything but an ingest leaves the buses alone.\<close>

definition keeps_bus :: "'h relay \<Rightarrow> 'h relay \<Rightarrow> bool" where
  "keeps_bus r r' \<longleftrightarrow> subscribers (rl_state r') = subscribers (rl_state r)"

lemma refl_trans_keeps_bus: "refl_trans keeps_bus"
  by (simp add: refl_trans_def keeps_bus_def)

lemma updateS_bus: "(\<And>g. subscribers (f g) = subscribers g) \<Longrightarrow> runs_in keeps_bus (updateS f)"
  by (simp add: runs_in_def updateS_def keeps_bus_def)

lemma on_harness_bus: "runs_in keeps_bus (on_harness w m)"
  by (auto simp: runs_in_def on_harness_def keeps_bus_def split: prod.splits)

lemma harness_bus: "runs_in keeps_bus (harness env w)"
  by (auto simp: runs_in_def harness_def pool_get_def keeps_bus_def Let_def
      split: prod.splits option.splits sum.splits if_splits)

lemmas bus_rules = runs_intros refl_trans_keeps_bus updateS_bus on_harness_bus harness_bus

lemma require_bus: "runs_in keeps_bus (require_conversation_subject hc env w s c)"
  unfolding require_conversation_subject_def resolve_conversation_owner_def
  by (auto intro!: bus_rules split: access_decision.split)

lemma mint_for_bus: "runs_in keeps_bus (mint_for hc env w s)"
  unfolding mint_for_def by (auto intro!: bus_rules)

lemma gateway_step_bus: "(\<And>q. req \<noteq> ChannelStreamIngest q) \<Longrightarrow> runs_in keeps_bus (gateway_step hc env req)"
  by (cases req)
    (auto intro!: bus_rules require_bus mint_for_bus split: prod.split
      simp: discover_def list_workspaces_def list_grants_def mint_conversation_def list_conversations_def
      delete_conversation_def cancel_turn_def set_conversation_name_def get_conversation_history_def get_turn_state_def
      channel_stream_receive_def Let_def watch_tools_stream_def dispatch_tool_def await_tool_result_def cancel_tool_def)

lemma ingest_response_bus: "runs_in keeps_bus (ingest_client_response w cr)"
  unfolding ingest_client_response_def by (auto intro!: bus_rules)

lemma relay_background_bus: "subscribers (relay_background b g) = subscribers g"
  by (cases b) (simp_all add: unregister_channel_stream_def heartbeat_tick_def waiter_timeout_def abandon_waiter_def
      split: option.split waiter.split)

lemma fan_out_bus: "subscribers (snd (fan_out P w m g)) = subscribers g"
  by (simp add: fan_out_def Let_def)

lemma send_server_request_bus: "subscribers (snd (send_server_request w i m p g)) = subscribers g"
proof -
  obtain n g1 where g1: "park_waiter (w, i) g = (n, g1)" by fastforce
  then have "subscribers g1 = subscribers g"
    by (auto simp: park_waiter_def drop_sender_def Let_def split: option.splits)
  then show ?thesis using fan_out_bus [of "\<lambda>_. True" w "server_request_frame i m p" g1]
    by (simp add: send_server_request_def g1 send_to_workspace_def split_beta)
qed

lemma internal_step_bus:
  assumes "internal_step env req g = (x, g')" "subscribers g w = Some sent" shows "subscribers g' w = Some sent"
proof -
  have g': "g' = snd (internal_step env req g)" using assms(1) by simp
  have deliver: "subscribers (snd (deliver_to_workspace w0 m g1)) = subscribers g1" for w0 m g1
    by (simp add: deliver_to_workspace_def send_to_workspace_def split_beta fan_out_bus)
  show ?thesis
  proof (cases "verify_caller env")
    case (Inl e)
    then show ?thesis using assms(2) unfolding g' by (cases req) (simp_all add: int_defs)
  next
    case (Inr w0)
    show ?thesis
    proof (cases req)
      case (SendServerRequest i m p t)
      then show ?thesis unfolding g' using Inr assms(2) send_server_request_bus [of w0 i m p g]
        by (cases "send_server_request w0 i m p g") (simp add: int_defs ensure_def split: sum.split)
    qed (use Inr assms(2) deliver in \<open>auto simp: g' int_defs ok_or_def Let_def split_beta subscribe_or_create_def
        ensure_def send_server_notification_def fan_out_bus record_delivered_state_def split: option.split\<close>)
  qed
qed

text \<open>The state a composition ends in, past a step that succeeds.\<close>

lemma bind_snd: "m r = (Inr v, r') \<Longrightarrow> snd (bindS m f r) = snd (f v r')"
  by (simp add: bindS_def)

lemma snd_bind_updateS: "snd (bindS (updateS f) k r) = snd (k () (r\<lparr> rl_state := f (rl_state r) \<rparr>))"
  by (simp add: bindS_def updateS_def)

lemma snd_bind_ret: "snd (bindS m (\<lambda>c. retS (h c)) r) = snd (m r)"
  by (simp add: bindS_def retS_def split: prod.split sum.split)

lemma notify_subscriber_at:
  "subscribers (notify_subscriber w m g) w' \<noteq> subscribers g w' \<Longrightarrow>
   w' = w \<and> (\<exists>sent. subscribers g w = Some sent \<and> subscribers (notify_subscriber w m g) w = Some (sent @ [m]))"
  by (auto simp: notify_subscriber_def split: option.splits if_splits)

context harness_contract
begin

definition sound :: "'h relay \<Rightarrow> bool" where
  "sound r \<longleftrightarrow> (\<forall>w. ok (rl_harness r w)) \<and> owners_sound owner r"

text \<open>Soundness together with the freshness of a call's UUID, which every step but the mint keeps.\<close>

definition keeps :: "gw_env \<Rightarrow> 'h relay \<Rightarrow> 'h relay \<Rightarrow> bool" where
  "keeps env r r' \<longleftrightarrow> (sound r \<and> fresh_uuid owner env r \<longrightarrow> sound r' \<and> fresh_uuid owner env r')"

lemma refl_trans_keeps: "refl_trans (keeps env)"
  by (simp add: refl_trans_def keeps_def)

lemma same_owners:
  "rl_harness r' = rl_harness r \<Longrightarrow> conversation_owners (rl_state r') = conversation_owners (rl_state r) \<Longrightarrow>
   sound r' = sound r \<and> fresh_uuid owner env r' = fresh_uuid owner env r"
  by (simp add: sound_def owners_sound_def fresh_uuid_def)

lemma updateS_keeps:
  assumes "\<And>g. conversation_owners (f g) = conversation_owners g"
  shows "runs_in (keeps env) (updateS f)"
proof -
  have "keeps env r (r\<lparr> rl_state := f (rl_state r) \<rparr>)" for r
    using same_owners [of "r\<lparr> rl_state := f (rl_state r) \<rparr>" r env] assms by (simp add: keeps_def)
  then show ?thesis by (simp add: runs_in_def updateS_def)
qed

lemma harness_keeps: "runs_in (keeps env) (harness env w)"
proof -
  have "conversation_owners (snd (pool_get d w g)) = conversation_owners g" for d g
    by (simp add: pool_get_def Let_def split: option.split sum.split)
  then have "keeps env r (r\<lparr> rl_state := snd (pool_get (ge_dial env) w (rl_state r)) \<rparr>)" for r
    using same_owners [of "r\<lparr> rl_state := snd (pool_get (ge_dial env) w (rl_state r)) \<rparr>" r env] by (simp add: keeps_def)
  then show ?thesis by (simp add: runs_in_def harness_def split_beta)
qed

text \<open>A harness call after which no conversation has a new owner.\<close>

lemma sound_shrink:
  assumes "sound r" "ok h" "owner h \<subseteq>\<^sub>m owner (rl_harness r w)"
  shows "sound (r\<lparr> rl_harness := (rl_harness r)(w := h) \<rparr>)"
proof -
  have old: "owner (rl_harness r v) c = Some s" if "owner (((rl_harness r)(w := h)) v) c = Some s" for v c s
    using that assms(3) by (cases "v = w") (auto simp: map_le_def dom_def)
  note D = owners_soundD [of owner r]
  have os: "owners_sound owner r" using assms(1) by (simp add: sound_def)
  have "owners_agree owner ((rl_harness r)(w := h))"
    unfolding owners_agree_def using D(1) [OF os] old by blast
  moreover have "s' = s" if "conversation_owners (rl_state r) c = Some s" "owner (((rl_harness r)(w := h)) v) c = Some s'" for v c s s'
    using D(2) [OF os that(1)] old that(2) by blast
  ultimately show ?thesis using assms(1,2) by (simp add: sound_def owners_sound_def)
qed

lemma fresh_shrink:
  assumes "fresh_uuid owner env r" "owner h \<subseteq>\<^sub>m owner (rl_harness r w)"
  shows "fresh_uuid owner env (r\<lparr> rl_harness := (rl_harness r)(w := h) \<rparr>)"
  using assms unfolding fresh_uuid_def map_le_def dom_def by (auto simp: fun_upd_def)

lemma on_harness_keeps:
  assumes "\<And>h x h'. ok h \<Longrightarrow> m h = (x, h') \<Longrightarrow> ok h' \<and> owner h' \<subseteq>\<^sub>m owner h"
  shows "runs_in (keeps env) (on_harness w m)"
  unfolding runs_in_def
proof
  fix r :: "'h relay"
  obtain x h where m: "m (rl_harness r w) = (x, h)" by fastforce
  have "keeps env r (r\<lparr> rl_harness := (rl_harness r)(w := h) \<rparr>)"
    using assms [OF _ m] sound_shrink [of r h w] fresh_shrink [of env r h w] by (auto simp: keeps_def sound_def)
  then show "keeps env r (snd (on_harness w m r))" by (simp add: on_harness_def m)
qed

lemma delete_shrink:
  "ok h \<Longrightarrow> sane i \<Longrightarrow> hc_delete_conversation hc i c h = (x, h') \<Longrightarrow> ok h' \<and> owner h' \<subseteq>\<^sub>m owner h"
  using delete_law [of h i c x h'] by (cases x) (auto simp: map_le_def)

lemma list_shrink: "ok h \<Longrightarrow> hc_list_conversations hc s h = (x, h') \<Longrightarrow> ok h' \<and> owner h' \<subseteq>\<^sub>m owner h"
  using list_law [of h s x h'] by simp

lemma set_name_shrink:
  "ok h \<Longrightarrow> hc_set_conversation_name hc i c n h = (x, h') \<Longrightarrow> ok h' \<and> owner h' \<subseteq>\<^sub>m owner h"
  using set_name_law [of h i c n x h'] by simp

lemma cancel_turn_shrink: "ok h \<Longrightarrow> hc_cancel_turn hc c h = (x, h') \<Longrightarrow> ok h' \<and> owner h' \<subseteq>\<^sub>m owner h"
  using cancel_turn_law [of h c x h'] by simp

lemma history_shrink:
  "ok h \<Longrightarrow> hc_get_conversation_history hc i c s l h = (x, h') \<Longrightarrow> ok h' \<and> owner h' \<subseteq>\<^sub>m owner h"
  using history_law [of h i c s l x h'] by simp

lemma dispatch_shrink:
  "ok h \<Longrightarrow> hc_dispatch_tool hc i n inp c h = (x, h') \<Longrightarrow> ok h' \<and> owner h' \<subseteq>\<^sub>m owner h"
  using dispatch_law [of h i n inp c x h'] by simp

lemma await_shrink:
  "ok h \<Longrightarrow> hc_await_tool_result hc i k c h = (x, h') \<Longrightarrow> ok h' \<and> owner h' \<subseteq>\<^sub>m owner h"
  using await_law [of h i k c x h'] by simp

lemma cancel_tool_shrink: "ok h \<Longrightarrow> hc_cancel_tool hc i k h = (x, h') \<Longrightarrow> ok h' \<and> owner h' \<subseteq>\<^sub>m owner h"
  using cancel_tool_law [of h i k x h'] by simp

lemma calls_keep:
  "runs_in (keeps env) (on_harness w (hc_list_conversations hc s))"
  "runs_in (keeps env) (on_harness w (hc_set_conversation_name hc i c n))"
  "runs_in (keeps env) (on_harness w (hc_cancel_turn hc c))"
  "runs_in (keeps env) (on_harness w (hc_get_conversation_history hc i c s l))"
  "runs_in (keeps env) (on_harness w (hc_dispatch_tool hc i n inp c))"
  "runs_in (keeps env) (on_harness w (hc_await_tool_result hc i k c))"
  "runs_in (keeps env) (on_harness w (hc_cancel_tool hc i k))"
  by (rule on_harness_keeps, erule (1) list_shrink set_name_shrink cancel_turn_shrink history_shrink dispatch_shrink
      await_shrink cancel_tool_shrink)+

lemma delete_keeps: "sane i \<Longrightarrow> runs_in (keeps env) (on_harness w (hc_delete_conversation hc i c))"
  using delete_shrink by (intro on_harness_keeps)

text \<open>Caching the answer of a harness keeps the cache sound.\<close>

lemma sound_record:
  assumes "sound r" "owner (rl_harness r w) c = Some s"
  shows "sound (r\<lparr> rl_state := record_conversation_owner c s (rl_state r) \<rparr>)"
proof -
  have os: "owners_sound owner r" using assms(1) by (simp add: sound_def)
  have "s'' = s'" if "((conversation_owners (rl_state r))(c \<mapsto> s)) d = Some s'" "owner (rl_harness r v) d = Some s''" for v d s' s''
  proof (cases "d = c")
    case True
    then show ?thesis using that owners_soundD(1) [OF os assms(2), of v s''] by simp
  next
    case False
    then show ?thesis using that owners_soundD(2) [OF os, of d s' v s''] by simp
  qed
  then have "owners_sound owner (r\<lparr> rl_state := record_conversation_owner c s (rl_state r) \<rparr>)"
    using os unfolding owners_sound_def record_conversation_owner_def by (simp del: fun_upd_apply)
  then show ?thesis using assms(1) by (simp add: sound_def)
qed

lemma resolve_keeps: "runs_in (keeps env) (resolve_conversation_owner hc env w s c)"
proof -
  have "keeps env r (snd (bindS (on_harness w (hc_list_conversations hc s)) (\<lambda>listed.
     if list_ex (\<lambda>d. cv_conversation_id d = c) listed then updateS (record_conversation_owner c s)
     else failS denied_conversation) r))" for r
  proof -
    obtain x h where l: "hc_list_conversations hc s (rl_harness r w) = (x, h)" by fastforce
    show ?thesis
    proof (cases "sound r \<and> fresh_uuid owner env r")
      case True
      then have ok: "ok (rl_harness r w)" by (simp add: sound_def)
      have h: "h = rl_harness r w" using list_law [OF ok l] by blast
      show ?thesis
      proof (cases x)
        case (Inr listed)
        have "owner (rl_harness r w) c = Some s" if "list_ex (\<lambda>d. cv_conversation_id d = c) listed"
          using listed_iff_owner [OF ok, of s listed h c] l Inr that by (auto simp: list_ex_iff)
        moreover have "fresh_uuid owner env (r\<lparr> rl_state := record_conversation_owner c s (rl_state r) \<rparr>)"
          if "owner (rl_harness r w) c = Some s"
          using True that by (auto simp: fresh_uuid_def record_conversation_owner_def)
        ultimately show ?thesis
          using True sound_record [of r w c s] Inr
          by (auto simp: bindS_def on_harness_def l h updateS_def failS_def keeps_def)
      qed (use True in \<open>simp add: bindS_def on_harness_def l h keeps_def\<close>)
    qed (auto simp: keeps_def)
  qed
  then have "runs_in (keeps env) (bindS (on_harness w (hc_list_conversations hc s)) (\<lambda>listed.
     if list_ex (\<lambda>d. cv_conversation_id d = c) listed then updateS (record_conversation_owner c s)
     else failS denied_conversation))" by (simp add: runs_in_def)
  then show ?thesis
    unfolding resolve_conversation_owner_def by (rule runs_in_bindS [OF refl_trans_keeps harness_keeps])
qed

lemma require_keeps: "runs_in (keeps env) (require_conversation_subject hc env w s c)"
  unfolding require_conversation_subject_def
  by (auto intro!: runs_intros refl_trans_keeps resolve_keeps split: access_decision.split)

lemmas keeps_rules = runs_intros refl_trans_keeps harness_keeps calls_keep delete_keeps require_keeps updateS_keeps

text \<open>What may mint: from a sound state in which the UUID is fresh, a sound state.\<close>

definition ends_sound :: "gw_env \<Rightarrow> ('h relay, status, 'a) stm \<Rightarrow> bool" where
  "ends_sound env m \<longleftrightarrow> (\<forall>r. sound r \<and> fresh_uuid owner env r \<longrightarrow> sound (snd (m r)))"

lemma keeps_ends: "runs_in (keeps env) m \<Longrightarrow> ends_sound env m"
  by (simp add: runs_in_def keeps_def ends_sound_def)

lemma ends_bind_keeps:
  assumes "runs_in (keeps env) m" "\<And>v. ends_sound env (f v)"
  shows "ends_sound env (bindS m f)"
  unfolding ends_sound_def
proof (intro allI impI)
  fix r :: "'h relay"
  assume r: "sound r \<and> fresh_uuid owner env r"
  obtain x r1 where m: "m r = (x, r1)" by fastforce
  have "sound r1 \<and> fresh_uuid owner env r1" using runs_inD [OF assms(1) m] r by (simp add: keeps_def)
  then show "sound (snd (bindS m f r))" using assms(2) m by (cases x) (auto simp: bindS_def ends_sound_def)
qed

lemma ends_bind_updates:
  assumes "ends_sound env m" "\<And>v r. sound r \<Longrightarrow> sound (snd (f v r))"
  shows "ends_sound env (bindS m f)"
  using assms unfolding ends_sound_def bindS_def by (auto split: prod.splits sum.splits)

lemma mint_for_sound:
  assumes "sound r" "fresh_uuid owner env r" "mint_for hc env w s r = (x, r')"
  shows "sound r'" "x = Inr c \<Longrightarrow> owner (rl_harness r' w) c = Some s"
proof -
  obtain p r1 where p: "harness env w r = (p, r1)" by fastforce
  have r1: "sound r1" "fresh_uuid owner env r1" using runs_inD [OF harness_keeps p] assms(1,2) by (auto simp: keeps_def)
  obtain m h where m: "hc_mint_conversation hc (ge_call env) s (rl_harness r1 w) = (m, h)" by fastforce
  have ok: "ok (rl_harness r1 w)" using r1(1) by (simp add: sound_def)
  note law = mint_law [OF ok m]
  let ?u = "ci_uuid (ge_call env)" and ?r2 = "r1\<lparr> rl_harness := (rl_harness r1)(w := h) \<rparr>"
  have failed: "sound ?r2" if "owner h = owner (rl_harness r1 w)"
    using sound_shrink [OF r1(1), of h w] law that by simp
  have minted: "sound (?r2\<lparr> rl_state := record_conversation_owner ?u s (rl_state r1) \<rparr>)"
    if o: "owner h = (owner (rl_harness r1 w))(?u \<mapsto> s)"
  proof -
    have os: "owners_sound owner r1" using r1(1) by (simp add: sound_def)
    have own: "owner (((rl_harness r1)(w := h)) v) c =
        (if v = w \<and> c = ?u then Some s else owner (rl_harness r1 v) c)" for v c
      using o by simp
    have new: "owner (rl_harness r1 v) ?u = None" for v using r1(2) by (simp add: fresh_uuid_def)
    have "owners_agree owner ((rl_harness r1)(w := h))"
      unfolding owners_agree_def own using owners_soundD(1) [OF os] new by (auto split: if_splits)
    moreover have "s2 = s1" if "((conversation_owners (rl_state r1))(?u \<mapsto> s)) c = Some s1"
      "owner (((rl_harness r1)(w := h)) v) c = Some s2" for v c s1 s2
    proof (cases "c = ?u")
      case True
      then show ?thesis using that new [of v] unfolding own by (auto split: if_splits)
    next
      case False
      then show ?thesis using that owners_soundD(2) [OF os, of c s1 v s2] unfolding own by simp
    qed
    ultimately have "owners_sound owner (?r2\<lparr> rl_state := record_conversation_owner ?u s (rl_state r1) \<rparr>)"
      unfolding owners_sound_def record_conversation_owner_def by (simp del: fun_upd_apply)
    then show ?thesis using r1(1) law by (auto simp: sound_def)
  qed
  have run: "(x, r') = (case p of Inl e \<Rightarrow> (Inl e, r1)
      | Inr _ \<Rightarrow> (case m of Inl e \<Rightarrow> (Inl e, ?r2)
          | Inr i \<Rightarrow> (Inr i, ?r2\<lparr> rl_state := record_conversation_owner i s (rl_state r1) \<rparr>)))"
    using assms(3) p m by (auto simp: mint_for_def bindS_def on_harness_def updateS_def retS_def split: sum.splits)
  show "sound r'" using run r1(1) failed minted law by (auto split: sum.splits)
  show "x = Inr c \<Longrightarrow> owner (rl_harness r' w) c = Some s"
    using run law by (auto split: sum.splits)
qed

lemma mint_for_ends: "ends_sound env (mint_for hc env w s)"
  unfolding ends_sound_def using mint_for_sound(1) by (metis prod.collapse)

lemma ingest_message_ends: "ends_sound env (ingest_user_message hc env q s w m)"
  unfolding ingest_user_message_def
proof (rule ends_bind_updates)
  show "ends_sound env (if ir_conversation_id q = [] then mint_for hc env w s else retS (ir_conversation_id q))"
    by (simp add: mint_for_ends keeps_ends [OF runs_in_pure(1) [OF refl_trans_keeps]])
qed (simp add: bindS_def updateS_def retS_def sound_def owners_sound_def)

lemma ingest_response_keeps: "runs_in (keeps env) (ingest_client_response w cr)"
  unfolding ingest_client_response_def by (auto intro!: keeps_rules)

lemma ingest_ends: "ends_sound env (channel_stream_ingest hc env q)"
  unfolding channel_stream_ingest_def
proof (rule ends_bind_keeps)
  fix v :: "string \<times> string"
  obtain s w where v: "v = (s, w)" by (cases v)
  show "ends_sound env (case v of (subj, workspace) \<Rightarrow>
     bindS (require_conversation_subject hc env workspace subj (ir_conversation_id q)) (\<lambda>_.
     bindS (updateS (\<lambda>g. if ir_supported_methods q = [] then g
         else update_supported_methods (ir_channel_stream_id q) (ir_supported_methods q) g)) (\<lambda>_.
     bindS (case (ir_user_message q, ir_client_response q) of
         (Some _, Some _) \<Rightarrow> failS (invalid_argument
           ''ChannelStreamIngestRequest must carry exactly one of user_message or client_response'')
       | (None, None) \<Rightarrow> failS (invalid_argument
           ''ChannelStreamIngestRequest must carry user_message or client_response'')
       | (Some m, None) \<Rightarrow> ingest_user_message hc env q subj workspace m
       | (None, Some cr) \<Rightarrow> ingest_client_response workspace cr) (\<lambda>c.
     retS (ir_channel_stream_id q, c)))))"
    unfolding v prod.case
    by (rule ends_bind_keeps [OF require_keeps], rule ends_bind_keeps [OF updateS_keeps], simp, rule ends_bind_updates)
      (auto simp: retS_def ingest_message_ends keeps_ends ingest_response_keeps runs_in_pure(2) [OF refl_trans_keeps]
        split: option.split)
qed (intro keeps_rules)

lemma gateway_step_sound:
  assumes "sound r" "fresh_uuid owner env r" "sane (ge_call env)" "gateway_step hc env req r = (x, r')"
  shows "sound r'"
proof -
  have "ends_sound env (gateway_step hc env req)"
  proof (cases req)
    case (MintConversation w)
    show ?thesis
      unfolding MintConversation gateway_step.simps respond_def mint_conversation_def
      by (intro ends_bind_updates ends_bind_keeps mint_for_ends) (auto simp: retS_def intro!: keeps_rules)
  next
    case (ChannelStreamIngest q)
    then show ?thesis by (auto simp: respond_def retS_def intro!: ends_bind_updates ingest_ends)
  qed (use assms(3) in \<open>auto intro!: keeps_ends keeps_rules split: prod.split
      simp: discover_def list_workspaces_def list_grants_def list_conversations_def
      delete_conversation_def cancel_turn_def set_conversation_name_def get_conversation_history_def get_turn_state_def
      channel_stream_receive_def Let_def watch_tools_stream_def dispatch_tool_def await_tool_result_def cancel_tool_def\<close>)
  then show ?thesis using assms by (auto simp: ends_sound_def)
qed

lemma step_sound: "relay_step hc ok owner sane ev r r' \<Longrightarrow> sound r \<Longrightarrow> sound r'"
proof (induction rule: relay_step.induct)
  case (request env r req x r')
  then show ?case using gateway_step_sound by blast
next
  case (internal ienv ireq r y g)
  then show ?case using internal_step_owners same_owners [of "r\<lparr> rl_state := g \<rparr>" r] by simp
next
  case (background b r)
  then show ?case
    using relay_background_owners same_owners [of "r\<lparr> rl_state := relay_background b (rl_state r) \<rparr>" r] by simp
next
  case (harness h r w)
  then show ?case using sound_shrink [of r h w] by simp
next
  case (restart r kube ns iss aud ca)
  then show ?case by (simp add: sound_def owners_sound_def gateway_new_with_idp_def)
qed

lemma reach_sound: "relay_reach hc ok owner sane r \<Longrightarrow> sound r"
proof (induction rule: relay_reach.induct)
  case (start hs kube ns iss aud ca)
  then show ?case by (simp add: sound_def owners_sound_def gateway_new_with_idp_def)
qed (rule step_sound)

lemma require_foreign:
  assumes "sound r" "owner (rl_harness r w) c = Some s'" "s' \<noteq> s" "c \<noteq> []"
  shows "refused (require_conversation_subject hc env w s c) r"
proof (cases "conversation_owners (rl_state r) c")
  case (Some t)
  then have "t = s'" using owners_soundD(2) [of owner r c t w s'] assms(1,2) by (simp add: sound_def)
  then show ?thesis using Some assms(3,4)
    by (auto simp: refused_def require_conversation_subject_def bindS_def getS_def conversation_access_def failS_def
        intro: exI [of _ "rl_state r"])
next
  case None
  obtain p g where p: "pool_get (ge_dial env) w (rl_state r) = (p, g)" by fastforce
  then have g: "subscribers g = subscribers (rl_state r)"
    by (auto simp: pool_get_def Let_def split: if_splits option.splits sum.splits)
  obtain x h where l: "hc_list_conversations hc s (rl_harness r w) = (x, h)" by fastforce
  have ok: "ok (rl_harness r w)" using assms(1) by (simp add: sound_def)
  have h: "h = rl_harness r w" using list_law [OF ok l] by blast
  have "\<not> list_ex (\<lambda>d. cv_conversation_id d = c) listed" if "x = Inr listed" for listed
    using listed_iff_owner [OF ok, of s listed h c] l that assms(2,3) by (auto simp: list_ex_iff)
  then show ?thesis using None assms(4) g
    by (cases p; cases x)
      (auto simp: refused_def require_conversation_subject_def bindS_def getS_def conversation_access_def failS_def
        resolve_conversation_owner_def harness_def p on_harness_def l h intro!: exI [of _ g])
qed

lemma history_foreign:
  assumes "sound r" "owner (rl_harness r w) c = Some s'" "s' \<noteq> s"
  shows "refused (bindS (harness env w) (\<lambda>_. on_harness w (hc_get_conversation_history hc i c s l))) r"
proof -
  obtain p g where p: "pool_get (ge_dial env) w (rl_state r) = (p, g)" by fastforce
  then have g: "subscribers g = subscribers (rl_state r)"
    by (auto simp: pool_get_def Let_def split: if_splits option.splits sum.splits)
  obtain x h where x: "hc_get_conversation_history hc i c s l (rl_harness r w) = (x, h)" by fastforce
  have ok: "ok (rl_harness r w)" using assms(1) by (simp add: sound_def)
  have "isl x" "h = rl_harness r w" using history_law [OF ok x] assms(2,3) by auto
  then show ?thesis using g x
    by (cases p; cases x) (auto simp: refused_def bindS_def harness_def p on_harness_def intro!: exI [of _ g])
qed

lemma foreign_refused:
  assumes "sound r" "names_conversation req (rl_state r) = Some (w, c)" "owner (rl_harness r w) c = Some s'"
    and "acts_for env req (rl_state r) \<noteq> Inr s'"
  shows "refused (gateway_step hc env req) r"
proof -
  note foreign = require_foreign [OF assms(1,3)] history_foreign [OF assms(1,3)]
  have auth: "authorize_workspace env w (rl_state r) = Inr s \<Longrightarrow> person_subject env (rl_state r) = Inr s" for s
    by (auto simp: authorize_workspace_def result_simps)
  show ?thesis
  proof (cases req)
    case (ChannelStreamIngest q)
    have binding: "c = ir_conversation_id q" "c \<noteq> []"
      "\<exists>opener t. channel_stream_binding (ir_channel_stream_id q) (rl_state r) = Some (opener, t, w)"
      using assms(2) ChannelStreamIngest by (auto split: if_splits)
    have "t \<noteq> s' \<and> v = w" if "authorize_ingest env (ir_channel_stream_id q) (rl_state r) = Inr (t, v)" for t v
      using that assms(4) ChannelStreamIngest authorize_ingest_vouched(3) [OF that] binding(3) by auto
    then show ?thesis
      unfolding ChannelStreamIngest gateway_step.simps channel_stream_ingest_def
      using foreign(1) binding(1,2) by (intro refused_respond refused_check) (auto intro!: refused_bind split: prod.split)
  next
    case (GetConversationHistory w0 c0 l)
    show ?thesis
      unfolding GetConversationHistory gateway_step.simps get_conversation_history_def
      by (intro refused_rules) (use assms(2,4) foreign(2) auth GetConversationHistory in auto)
  next
    case (DeleteConversation w0 c0)
    show ?thesis
      unfolding DeleteConversation gateway_step.simps delete_conversation_def
      by (intro refused_rules, rule refused_bind)
        (use assms(2,4) foreign(1) auth DeleteConversation in \<open>auto simp: result_simps\<close>)
  next
    case (CancelTurn w0 c0)
    show ?thesis
      unfolding CancelTurn gateway_step.simps cancel_turn_def
      by (intro refused_rules, rule refused_bind)
        (use assms(2,4) foreign(1) auth CancelTurn in \<open>auto simp: result_simps\<close>)
  next
    case (SetConversationName w0 c0 n)
    show ?thesis
      unfolding SetConversationName gateway_step.simps set_conversation_name_def
      by (intro refused_rules, rule refused_bind)
        (use assms(2,4) foreign(1) auth SetConversationName in \<open>auto simp: result_simps\<close>)
  next
    case (DispatchTool w0 n i c0)
    show ?thesis
      unfolding DispatchTool gateway_step.simps dispatch_tool_def
      by (intro refused_rules, rule refused_bind)
        (use assms(2,4) foreign(1) auth DispatchTool in \<open>auto split: if_splits\<close>)
  next
    case (AwaitToolResult w0 k c0)
    show ?thesis
      unfolding AwaitToolResult gateway_step.simps await_tool_result_def
      by (intro refused_rules, rule refused_bind)
        (use assms(2,4) foreign(1) auth AwaitToolResult in \<open>auto split: if_splits\<close>)
  qed (use assms(2) in auto)
qed

lemma require_harness:
  assumes "sound r" shows "rl_harness (snd (require_conversation_subject hc env w s c r)) = rl_harness r"
proof -
  obtain p g where p: "pool_get (ge_dial env) w (rl_state r) = (p, g)" by fastforce
  obtain x h where l: "hc_list_conversations hc s (rl_harness r w) = (x, h)" by fastforce
  have "h = rl_harness r w" using list_law [OF _ l] assms by (simp add: sound_def)
  then show ?thesis
    by (cases p; cases x)
      (auto simp: require_conversation_subject_def resolve_conversation_owner_def bindS_def getS_def retS_def failS_def
        harness_def p on_harness_def l updateS_def split: access_decision.split)
qed

lemma require_owner:
  assumes "sound r" "require_conversation_subject hc env w s c r = (Inr u, r')" "c \<noteq> []"
  shows "owner (rl_harness r' w) c \<in> {None, Some s}"
proof -
  have "owner (rl_harness r w) c \<in> {None, Some s}"
  proof (cases "owner (rl_harness r w) c")
    case (Some s')
    then have "\<not> refused (require_conversation_subject hc env w s c) r \<Longrightarrow> s' = s"
      using require_foreign [OF assms(1) Some _ assms(3), of s env] by blast
    moreover have "\<not> refused (require_conversation_subject hc env w s c) r" using assms(2) by (simp add: refused_def)
    ultimately show ?thesis using Some by simp
  qed simp
  moreover have "rl_harness r' = rl_harness r" using require_harness [OF assms(1), of env w s c] assms(2) by simp
  ultimately show ?thesis by simp
qed

text \<open>The user message an ingest puts on the bus: its conversation is the subject's own.\<close>

lemma ingest_user_message_owner:
  assumes "sound r" "fresh_uuid owner env r" "ingest_user_message hc env q s w m r = (x, r')"
    and "ir_conversation_id q \<noteq> [] \<Longrightarrow> owner (rl_harness r w) (ir_conversation_id q) \<in> {None, Some s}"
    and "subscribers (rl_state r') w' \<noteq> subscribers (rl_state r) w'"
  shows "w' = w \<and> (\<exists>m' sent. subscribers (rl_state r) w = Some sent \<and> subscribers (rl_state r') w = Some (sent @ [m']) \<and>
    owner (rl_harness r' w) (um_conversation_id m') \<in> {None, Some s})"
proof -
  let ?m = "if ir_conversation_id q = [] then mint_for hc env w s else retS (ir_conversation_id q)"
  obtain y r1 where y: "?m r = (y, r1)" by fastforce
  have bus: "subscribers (rl_state r1) = subscribers (rl_state r)"
    using y runs_inD [OF mint_for_bus, of hc env w s r y r1] by (auto simp: keeps_bus_def retS_def split: if_splits)
  obtain c where c: "y = Inr c" using assms(3,5) y bus by (cases y) (auto simp: ingest_user_message_def bindS_def)
  have own: "owner (rl_harness r1 w) c \<in> {None, Some s}"
    using y c mint_for_sound(2) [OF assms(1,2), of w s y r1 c] assms(4) by (auto simp: retS_def split: if_splits)
  let ?n = "\<lparr> um_content = um_content m, um_sender = um_sender m,
      um_reply_channel_stream = Some (ir_channel_stream_id q), um_conversation_id = c, um_grants = um_grants m \<rparr>"
  have r': "subscribers (rl_state r') = subscribers (notify_subscriber w ?n (rl_state r1))" "rl_harness r' = rl_harness r1"
    using assms(3) y c by (auto simp: ingest_user_message_def bindS_def updateS_def retS_def)
  have "w' = w \<and> (\<exists>sent. subscribers (rl_state r1) w = Some sent \<and>
      subscribers (notify_subscriber w ?n (rl_state r1)) w = Some (sent @ [?n]))"
    using notify_subscriber_at [of w ?n "rl_state r1" w'] assms(5) r'(1) bus by simp
  then show ?thesis using r' own bus by auto
qed

lemma message_from_owner:
  assumes "sound r" "fresh_uuid owner env r" "gateway_step hc env req r = (x, r')"
    and "subscribers (rl_state r') w \<noteq> subscribers (rl_state r) w"
  shows "\<exists>q s m sent. req = ChannelStreamIngest q \<and>
    authorize_ingest env (ir_channel_stream_id q) (rl_state r) = Inr (s, w) \<and>
    subscribers (rl_state r) w = Some sent \<and> subscribers (rl_state r') w = Some (sent @ [m]) \<and>
    owner (rl_harness r' w) (um_conversation_id m) \<in> {None, Some s}"
proof -
  have "\<exists>q. req = ChannelStreamIngest q"
    using runs_inD [OF gateway_step_bus assms(3)] assms(4) unfolding keeps_bus_def by metis
  then obtain q where q: "req = ChannelStreamIngest q" by blast
  have r': "r' = snd (channel_stream_ingest hc env q r)" using assms(3) q by (metis gateway_step.simps(11) snd_conv snd_respond)
  obtain s w1 where a: "authorize_ingest env (ir_channel_stream_id q) (rl_state r) = Inr (s, w1)"
    using r' assms(4) by (cases "authorize_ingest env (ir_channel_stream_id q) (rl_state r)")
      (auto simp: channel_stream_ingest_def bind_checkS)
  let ?u = "\<lambda>g. if ir_supported_methods q = [] then g
         else update_supported_methods (ir_channel_stream_id q) (ir_supported_methods q) g"
  obtain y r1 where y: "require_conversation_subject hc env w1 s (ir_conversation_id q) r = (y, r1)" by fastforce
  have bus1: "subscribers (rl_state r1) = subscribers (rl_state r)" using runs_inD [OF require_bus y] by (simp add: keeps_bus_def)
  have s1: "sound r1" "fresh_uuid owner env r1" using runs_inD [OF require_keeps y] assms(1,2) by (auto simp: keeps_def)
  let ?r2 = "r1\<lparr> rl_state := ?u (rl_state r1) \<rparr>"
  have s2: "sound ?r2" "fresh_uuid owner env ?r2" using s1 same_owners [of ?r2 r1 env] by auto
  have bus2: "subscribers (rl_state ?r2) = subscribers (rl_state r)" using bus1 by simp
  obtain u where u: "y = Inr u"
  proof (cases y)
    case (Inl e)
    have "r' = r1"
      using r' unfolding channel_stream_ingest_def bind_checkS a sum.case prod.case by (simp add: bindS_def y Inl)
    then show ?thesis using assms(4) bus1 by simp
  qed
  have own: "owner (rl_harness ?r2 w1) (ir_conversation_id q) \<in> {None, Some s}" if "ir_conversation_id q \<noteq> []"
    using require_owner [OF assms(1)] y u that by simp
  have run: "r' = snd ((case (ir_user_message q, ir_client_response q) of
         (Some _, Some _) \<Rightarrow> failS (invalid_argument
           ''ChannelStreamIngestRequest must carry exactly one of user_message or client_response'')
       | (None, None) \<Rightarrow> failS (invalid_argument
           ''ChannelStreamIngestRequest must carry user_message or client_response'')
       | (Some m, None) \<Rightarrow> ingest_user_message hc env q s w1 m
       | (None, Some cr) \<Rightarrow> ingest_client_response w1 cr) ?r2)"
    using r' unfolding channel_stream_ingest_def bind_checkS a sum.case prod.case
    by (simp only: bind_snd [where m = "require_conversation_subject hc env w1 s (ir_conversation_id q)", OF y [unfolded u]]
      snd_bind_updateS snd_bind_ret)
  have "subscribers (rl_state (snd (ingest_client_response w1 cr ?r2))) = subscribers (rl_state ?r2)" for cr
    using runs_inD [OF ingest_response_bus] by (metis keeps_bus_def prod.collapse)
  then have "\<exists>m. r' = snd (ingest_user_message hc env q s w1 m ?r2)"
    using run assms(4) bus2 by (cases "ir_user_message q"; cases "ir_client_response q") auto
  then obtain m where "r' = snd (ingest_user_message hc env q s w1 m ?r2)" by blast
  then obtain z where z: "ingest_user_message hc env q s w1 m ?r2 = (z, r')" by (metis prod.collapse)
  have "w = w1 \<and> (\<exists>m' sent. subscribers (rl_state ?r2) w1 = Some sent \<and> subscribers (rl_state r') w1 = Some (sent @ [m']) \<and>
    owner (rl_harness r' w1) (um_conversation_id m') \<in> {None, Some s})"
    using ingest_user_message_owner [OF s2 z own, of w] assms(4) bus2 by simp
  then show ?thesis using q a bus2 authorize_ingest_vouched(3) [OF a] by auto
qed

lemma step_message_from_owner:
  assumes "sound r" "relay_step hc ok owner sane ev r r'"
    and "subscribers (rl_state r) w = Some sent" "subscribers (rl_state r') w = Some sent'" "sent' \<noteq> sent"
  shows "\<exists>env q s m. ev = Ev_Request env (ChannelStreamIngest q) \<and>
    authorize_ingest env (ir_channel_stream_id q) (rl_state r) = Inr (s, w) \<and>
    sent' = sent @ [m] \<and> owner (rl_harness r' w) (um_conversation_id m) \<in> {None, Some s}"
  using assms(2)
proof cases
  case (request env req x)
  then show ?thesis using message_from_owner [of r env req x r' w] assms by auto
next
  case (internal ienv ireq y g)
  then show ?thesis using internal_step_bus [of ienv ireq "rl_state r" y g w sent] assms(3-5) by simp
next
  case (background b)
  then show ?thesis using relay_background_bus [of b "rl_state r"] assms(3-5) by simp
qed (use assms(3-5) in \<open>auto simp: gateway_new_with_idp_def\<close>)

end

end
