(* ===== verification/Sample_Run.thy ===== *)
theory Sample_Run
  imports Relay
begin

text \<open>
  A run of the relay with the harness of this repository, on which the properties of the
  whole system are shown to say something: alice has a conversation in the workspace
  \<^verbatim>\<open>notes\<close>, opens a channel stream and writes; the harness asks a question over the stream,
  and alice answers it.
\<close>

abbreviation service_ok :: "libs \<Rightarrow> harness_state \<Rightarrow> bool" where
  "service_ok lib \<equiv> (\<lambda>hs. meta_codec lib \<and> registry_wf lib (hs_registry hs))"

abbreviation service_owner :: "harness_state \<Rightarrow> string \<rightharpoonup> string" where
  "service_owner \<equiv> (\<lambda>hs c. owner_of c (hs_registry hs))"

abbreviation untorn :: "call_input \<Rightarrow> bool" where
  "untorn \<equiv> (\<lambda>i. \<forall>n e. ci_io i \<noteq> Io_torn n e)"

section \<open>The run\<close>

definition sample_service :: "harness_state harness_control" where
  "sample_service = harness_service unary_libs (\<lambda>_. Inr (JObject [])) (\<lambda>_ _ _. Inl ''no toolset'') False"

definition sample_harness :: "string \<Rightarrow> harness_state" where
  "sample_harness w =
     \<lparr> hs_registry = (if w = ''notes'' then foldl (harness_step unary_libs) (registry_new []) [Op_Mint Io_ok ''c1'' 5 ''alice'']
                      else registry_new []),
       hs_router = \<lparr> rt_workspace = w, rt_tools = [], rt_scope = [], rt_grants = Map.empty, rt_calls = Map.empty,
                     rt_dispatch = False \<rparr> \<rparr>"

definition harness_env :: int_env where
  "harness_env =
     \<lparr> ie_verifier = Some (\<lambda>rev. Inr (rev\<lparr> tr_status := Some \<lparr> authenticated = Some True,
         audiences = trs_audiences (tr_spec rev), user = Some (trs_token (tr_spec rev)) \<rparr> \<rparr>)),
       ie_authorization = Some ''Bearer system:serviceaccount:ns:ws-notes'', ie_to_str = Some \<rparr>"

definition sample_start :: "harness_state relay" where
  "sample_start = \<lparr> rl_state = gateway_new_with_idp True ''ns'' [] [] [], rl_harness = sample_harness \<rparr>"

definition sample_subscribed :: "harness_state relay" where
  "sample_subscribed = sample_start\<lparr> rl_state := snd (internal_step harness_env Subscribe (rl_state sample_start)) \<rparr>"

definition sample_opened :: "harness_state relay" where
  "sample_opened = snd (gateway_step sample_service (person_env ''alice'' ''c2'') (ChannelStreamReceive ''notes'' []) sample_subscribed)"

definition sample_message :: gw_request where
  "sample_message = ChannelStreamIngest
     \<lparr> ir_channel_stream_id = ''stc2'', ir_user_message = Some \<lparr> um_content = [], um_sender = [], um_reply_channel_stream = None,
         um_conversation_id = [], um_grants = [] \<rparr>,
       ir_client_response = None, ir_supported_methods = [''approve''], ir_conversation_id = ''c1'' \<rparr>"

definition sample_written :: "harness_state relay" where
  "sample_written = snd (gateway_step sample_service (person_env ''alice'' ''c3'') sample_message sample_opened)"

definition sample_asked :: "harness_state relay" where
  "sample_asked = sample_written\<lparr> rl_state := snd (internal_step harness_env (SendServerRequest ''q1'' ''approve'' [] 60)
     (rl_state sample_written)) \<rparr>"

definition sample_answer :: ingest_request where
  "sample_answer =
     \<lparr> ir_channel_stream_id = ''stc2'', ir_user_message = None,
       ir_client_response = Some \<lparr> cr_request_id = ''q1'', cr_result_json = ''yes'', cr_error = None \<rparr>,
       ir_supported_methods = [], ir_conversation_id = [] \<rparr>"

definition sample_answered :: "harness_state relay" where
  "sample_answered = snd (gateway_step sample_service (person_env ''alice'' ''c4'') (ChannelStreamIngest sample_answer) sample_asked)"

section \<open>Its states\<close>

lemma verify_caller_sample: "verify_caller harness_env = Inr ''notes''"
  by code_simp

lemma subscribed_state:
  "rl_state sample_subscribed = (gateway_new_with_idp True ''ns'' [] [] [])\<lparr> subscribers := [''notes'' \<mapsto> []] \<rparr>"
  "rl_harness sample_subscribed = sample_harness"
  by (simp_all add: sample_subscribed_def sample_start_def int_subscribe_def verify_caller_sample subscribe_or_create_def
      gateway_new_with_idp_def)

definition sample_stream :: "outbound list \<Rightarrow> int \<Rightarrow> string list \<Rightarrow> channel_stream_entry" where
  "sample_stream frames state methods =
     \<lparr> se_opener = Opener_Person, se_subject = ''alice'', se_workspace = ''notes'', se_tx = frames, se_open = True,
       se_current_state = state, se_supported_methods = methods, se_heartbeat = True \<rparr>"

lemma person_env_fields [simp]:
  "token_check (person_env subj uuid) = Inr \<lparr> tk_token = subj, tk_audience = None \<rparr>"
  "ge_uuid (person_env subj uuid) = ''st'' @ uuid" "ge_dial (person_env subj uuid) = (\<lambda>_. Some (Inr ()))"
  "ge_call (person_env subj uuid) =
     \<lparr> ci_io = Io_ok, ci_uuid = uuid, ci_now_ms = 7, ci_read_error = None, ci_live = [] \<rparr>"
  by (simp_all add: token_check_def) (simp_all add: person_env_def)

lemmas stream_defs = mint_channel_stream_def with_stream_def replay_turn_state_def spawn_heartbeat_def tx_send_def
  update_supported_methods_def set_and_broadcast_turn_state_def record_turn_state_def sample_stream_def

lemma opened_state:
  "sample_opened = sample_subscribed\<lparr> rl_state := (rl_state sample_subscribed)\<lparr> channel_streams :=
     [(''stc2'', sample_stream [Some (Command_Ack ''stc2''), turn_state_frame turn_idle [] [] []] turn_idle [])] \<rparr> \<rparr>"
proof -
  have auth: "authorize_receive (person_env ''alice'' ''c2'') ''notes'' [] (rl_state sample_subscribed) = Inr (Opener_Person, ''alice'')"
    by (simp add: authorize_receive_def subscribed_state gateway_new_with_idp_def require_workspace_def)
  show ?thesis
    by (simp add: sample_opened_def channel_stream_receive_def bind_checkS auth Let_def)
      (simp add: bindS_def updateS_def checkS_def retS_def stream_defs subscribed_state gateway_new_with_idp_def kube_client_def)
qed

lemma sample_ingest:
  assumes "kube_configured g" "namespace g = ''ns''" "map_of (channel_streams g) ''stc2'' = Some (sample_stream frames st ms)"
  shows "authorize_ingest (person_env ''alice'' u) ''stc2'' g = Inr (''alice'', ''notes'')"
  using assms by (simp add: authorize_ingest_def channel_stream_binding_def opened_by_caller_def sample_stream_def)

lemma sample_ok: "service_ok unary_libs (sample_harness w)"
proof -
  have "registry_wf unary_libs (registry_new [])"
    by (simp add: registry_wf_def registry_new_def directory_def disk_directory_def sidecar_def read_meta_def fun_eq_iff)
  then show ?thesis
    using unary_codec harness_steps_wf [of unary_libs "registry_new []" "[Op_Mint Io_ok ''c1'' 5 ''alice'']"]
    by (simp add: sample_harness_def del: foldl.simps)
qed

lemma sample_owner: "service_owner (sample_harness w) c = (if w = ''notes'' \<and> c = ''c1'' then Some ''alice'' else None)"
  by (simp add: sample_harness_def svc_mint_conversation_def on_store_def write_meta_def stm_defs map_errS_def
      registry_new_def mint_def put_dir_def with_meta_def owner_of_def unary_libs_def sample_libs_def Let_def)

lemma sample_listed:
  obtains l where "hc_list_conversations sample_service ''alice'' (sample_harness ''notes'') = (Inr l, sample_harness ''notes'')"
    "list_ex (\<lambda>d. cv_conversation_id d = ''c1'') l"
proof -
  obtain x h where x: "hc_list_conversations sample_service ''alice'' (sample_harness ''notes'') = (x, h)" by fastforce
  moreover have h: "h = sample_harness ''notes''"
    using service.list_law [OF sample_ok x [unfolded sample_service_def]] by blast
  moreover obtain l where l: "x = Inr l"
    using x by (auto simp: sample_service_def harness_service_def on_registry_def svc_list_conversations_def getS_def
        split: prod.splits)
  moreover have "list_ex (\<lambda>d. cv_conversation_id d = ''c1'') l"
    using service.listed_iff_owner [OF sample_ok x [unfolded sample_service_def l], of "''c1''"] sample_owner
    by (simp add: list_ex_iff image_iff) metis
  ultimately show ?thesis using that by blast
qed

definition sample_user_message :: user_message where
  "sample_user_message = \<lparr> um_content = [], um_sender = [], um_reply_channel_stream = Some ''stc2'',
     um_conversation_id = ''c1'', um_grants = [] \<rparr>"

lemma written_state:
  "sample_written = sample_opened\<lparr> rl_state := (rl_state sample_opened)\<lparr> pool_clients := [''notes''],
     conversation_owners := [''c1'' \<mapsto> ''alice''], subscribers := [''notes'' \<mapsto> [sample_user_message]],
     last_turn_state := [(''alice'', ''c1'') \<mapsto> \<lparr> tr_state = turn_working, tr_reason = [], tr_code = [] \<rparr>],
     channel_streams := [(''stc2'', sample_stream [Some (Command_Ack ''stc2''), turn_state_frame turn_idle [] [] [],
       turn_state_frame turn_working ''c1'' [] []] turn_working [''approve''])] \<rparr> \<rparr>"
proof -
  obtain l where l: "hc_list_conversations sample_service ''alice'' (sample_harness ''notes'') = (Inr l, sample_harness ''notes'')"
    "list_ex (\<lambda>d. cv_conversation_id d = ''c1'') l" by (rule sample_listed)
  have auth: "authorize_ingest (person_env ''alice'' ''c3'') ''stc2'' (rl_state sample_opened) = Inr (''alice'', ''notes'')"
    by (rule sample_ingest) (simp_all add: opened_state subscribed_state gateway_new_with_idp_def)
  have require: "require_conversation_subject sample_service (person_env ''alice'' ''c3'') ''notes'' ''alice'' ''c1'' sample_opened =
      (Inr (), sample_opened\<lparr> rl_state := (rl_state sample_opened)\<lparr> pool_clients := [''notes''],
         conversation_owners := [''c1'' \<mapsto> ''alice''] \<rparr> \<rparr>)"
    by (simp add: require_conversation_subject_def resolve_conversation_owner_def bindS_def getS_def conversation_access_def
        harness_def pool_get_def on_harness_def updateS_def record_conversation_owner_def l opened_state subscribed_state
        gateway_new_with_idp_def)
  show ?thesis
    by (simp add: sample_written_def sample_message_def channel_stream_ingest_def bind_checkS auth)
      (simp add: bindS_def require updateS_def ingest_user_message_def retS_def,
        simp add: notify_subscriber_def stream_defs opened_state subscribed_state gateway_new_with_idp_def sample_user_message_def)
qed

lemma asked_state:
  "waiters (rl_state sample_asked) = [0 \<mapsto> Parked (''notes'', ''q1'')]"
  "rl_harness sample_asked = sample_harness"
  "kube_configured (rl_state sample_asked)" "namespace (rl_state sample_asked) = ''ns''"
  "\<exists>frames. map_of (channel_streams (rl_state sample_asked)) ''stc2'' = Some (sample_stream frames turn_working [''approve''])"
  "conversation_owners (rl_state sample_asked) = [''c1'' \<mapsto> ''alice'']"
  by (simp_all add: sample_asked_def int_send_server_request_def verify_caller_sample written_state opened_state subscribed_state
      gateway_new_with_idp_def ensure_def send_server_request_def workspace_streams_def supports_def park_waiter_def
      drop_sender_def send_to_workspace_def fan_out_def tx_send_def sample_stream_def Let_def)

section \<open>Its states are reachable\<close>

abbreviation sample_reach :: "harness_state relay \<Rightarrow> bool" where
  "sample_reach \<equiv> relay_reach sample_service (service_ok unary_libs) service_owner untorn"

lemma sample_fresh:
  "conversation_owners (rl_state r) u = None \<Longrightarrow> rl_harness r = sample_harness \<Longrightarrow> u \<noteq> ''c1'' \<Longrightarrow>
   fresh_uuid service_owner (person_env s u) r"
  using sample_owner by (simp add: fresh_uuid_def)

lemma start_reach: "sample_reach sample_start"
  unfolding sample_start_def
  by (rule relay_reach.start) (use sample_ok sample_owner in \<open>auto simp: owners_agree_def\<close>)

lemma request_reach:
  assumes "sample_reach r" "conversation_owners (rl_state r) u = None" "rl_harness r = sample_harness" "u \<noteq> ''c1''"
  shows "sample_reach (snd (gateway_step sample_service (person_env s u) req r))"
  by (rule relay_reach.step [OF assms(1) relay_step.request [OF _ sample_fresh [OF assms(2-4)] prod.collapse [symmetric]]]) simp

lemma internal_reach:
  "sample_reach r \<Longrightarrow> sample_reach (r\<lparr> rl_state := snd (internal_step env req (rl_state r)) \<rparr>)"
  by (rule relay_reach.step [OF _ relay_step.internal [OF prod.collapse [symmetric]]])

lemma sample_reached: "sample_reach sample_subscribed" "sample_reach sample_opened" "sample_reach sample_written" "sample_reach sample_asked"
proof -
  show 1: "sample_reach sample_subscribed" unfolding sample_subscribed_def by (rule internal_reach [OF start_reach])
  show 2: "sample_reach sample_opened" unfolding sample_opened_def
    by (rule request_reach [OF 1]) (simp_all add: subscribed_state gateway_new_with_idp_def)
  show 3: "sample_reach sample_written" unfolding sample_written_def
    by (rule request_reach [OF 2]) (simp_all add: opened_state subscribed_state gateway_new_with_idp_def)
  show "sample_reach sample_asked" unfolding sample_asked_def by (rule internal_reach [OF 3])
qed

end
