(* ===== verification/Utf8.thy ===== *)
theory Utf8
  imports Rust_Str
begin

text \<open>
  UTF-8 as the standard library reads it: \<^verbatim>\<open>String::from_utf8_lossy\<close> and the check of
  \<^verbatim>\<open>String::from_utf8\<close>, over byte lists. Both runtimes decode what they read from a socket,
  a pipe or a file with them.
\<close>

section \<open>Text from bytes\<close>

text \<open>
  \<^verbatim>\<open>String::from_utf8_lossy\<close>. The head of a byte sequence is a character, or a longest
  prefix of one that cannot be continued: whether it is whole, and its length.
\<close>

definition byte :: "char \<Rightarrow> nat" where
  "byte c = of_char c"

definition cont :: "nat \<Rightarrow> bool" where
  "cont n \<longleftrightarrow> 128 \<le> n \<and> n < 192"

definition second_of_3 :: "nat \<Rightarrow> nat \<Rightarrow> bool" where
  "second_of_3 b n \<longleftrightarrow>
     (if b = 224 then 160 \<le> n \<and> n \<le> 191 else if b = 237 then 128 \<le> n \<and> n \<le> 159 else 128 \<le> n \<and> n \<le> 191)"

definition second_of_4 :: "nat \<Rightarrow> nat \<Rightarrow> bool" where
  "second_of_4 b n \<longleftrightarrow>
     (if b = 240 then 144 \<le> n \<and> n \<le> 191 else if b = 244 then 128 \<le> n \<and> n \<le> 143 else 128 \<le> n \<and> n \<le> 191)"

definition utf8_head :: "char \<Rightarrow> string \<Rightarrow> bool \<times> nat" where
  "utf8_head c rest =
     (let b = byte c; at = (\<lambda>i. if i < length rest then byte (rest ! i) else 0) in
      if b < 128 then (True, 1)
      else if 194 \<le> b \<and> b \<le> 223 then (if cont (at 0) then (True, 2) else (False, 1))
      else if 224 \<le> b \<and> b \<le> 239 then
        (if \<not> second_of_3 b (at 0) then (False, 1) else if cont (at 1) then (True, 3) else (False, 2))
      else if 240 \<le> b \<and> b \<le> 244 then
        (if \<not> second_of_4 b (at 0) then (False, 1) else if \<not> cont (at 1) then (False, 2)
         else if cont (at 2) then (True, 4) else (False, 3))
      else (False, 1))"

definition replacement_character :: string where
  "replacement_character = [CHR 0xEF, CHR 0xBF, CHR 0xBD]"

lemma utf8_head_pos: "utf8_head c rest = (whole, n) \<Longrightarrow> 0 < n"
  by (auto simp: utf8_head_def Let_def split: if_splits)

function utf8_lossy :: "string \<Rightarrow> string" where
  "utf8_lossy [] = []"
| "utf8_lossy (c # rest) =
     (case utf8_head c rest of (whole, n) \<Rightarrow>
        (if whole then take n (c # rest) else replacement_character) @ utf8_lossy (drop n (c # rest)))"
  by pat_completeness auto
termination
  by (relation "measure length") (auto dest: utf8_head_pos [OF sym])

function utf8_valid :: "string \<Rightarrow> bool" where
  "utf8_valid [] = True"
| "utf8_valid (c # rest) =
     (case utf8_head c rest of (whole, n) \<Rightarrow> whole \<and> utf8_valid (drop n (c # rest)))"
  by pat_completeness auto
termination
  by (relation "measure length") (auto dest: utf8_head_pos [OF sym])

lemma utf8_lossy_valid: "utf8_valid s \<Longrightarrow> utf8_lossy s = s"
  by (induction s rule: utf8_valid.induct) (auto split: prod.splits)

end
