(* ===== verification/Pod.thy ===== *)
theory Pod
  imports Utf8
begin

text \<open>
  What the two capability pods, \<^verbatim>\<open>inference-runtime\<close> and \<^verbatim>\<open>toolset-runtime\<close>, have in
  common: the held stream on which the harness sends the assignment and a possible cancel,
  the pod's file system, and the staging of credentials before a pod serves. A path names
  a file; the faults of the operating system are an argument, one answer per operation.
\<close>

section \<open>The command stream\<close>

text \<open>
  \<^verbatim>\<open>RunToolCommand\<close> and \<^verbatim>\<open>RunInferenceCommand\<close>: an inbound message is a transport error
  or a command, which may be absent.
\<close>

datatype 'a run_command = Command_Assignment 'a | Command_Cancel

type_synonym 'a inbound = "(string + 'a run_command option) list"

definition read_assignment :: "string \<Rightarrow> 'a inbound \<Rightarrow> ('a \<times> 'a inbound) rpc" where
  "read_assignment not_assignment messages =
     (case messages of
        [] \<Rightarrow> Inl (invalid_argument ''the harness must send an assignment before any command'')
      | Inl e # _ \<Rightarrow> Inl (internal (''assignment stream error: '' @ e))
      | Inr (Some (Command_Assignment a)) # later \<Rightarrow> Inr (a, later)
      | Inr _ # _ \<Rightarrow> Inl (invalid_argument not_assignment))"

text \<open>The task that watches the rest of the stream: does it fire the token?\<close>

fun watch_cancel :: "'a inbound \<Rightarrow> bool" where
  "watch_cancel (Inr c # later) = (c = Some Command_Cancel \<or> watch_cancel later)"
| "watch_cancel _ = False"

lemma watch_cancel_iff:
  "watch_cancel ms \<longleftrightarrow> (\<exists>a b. ms = map Inr a @ Inr (Some Command_Cancel) # b)"
proof
  show "watch_cancel ms \<Longrightarrow> \<exists>a b. ms = map Inr a @ Inr (Some Command_Cancel) # b"
  proof (induction ms rule: watch_cancel.induct)
    case (1 c later)
    show ?case
    proof (cases "c = Some Command_Cancel")
      case True
      then show ?thesis by (intro exI [of _ "[]"] exI [of _ later]) simp
    next
      case False
      with 1 obtain a b where "later = map Inr a @ Inr (Some Command_Cancel) # b" by auto
      then show ?thesis by (intro exI [of _ "c # a"] exI [of _ b]) simp
    qed
  qed simp_all
next
  have "watch_cancel (map Inr a @ Inr (Some Command_Cancel) # b)" for a :: "'a run_command option list" and b
    by (induction a) auto
  then show "\<exists>a b. ms = map Inr a @ Inr (Some Command_Cancel) # b \<Longrightarrow> watch_cancel ms" by blast
qed

section \<open>Paths\<close>

text \<open>
  \<^verbatim>\<open>std::path::Path\<close>: the components, \<^verbatim>\<open>file_name\<close> and \<^verbatim>\<open>parent\<close>. Repeated and trailing
  separators and \<^verbatim>\<open>.\<close> are no components. The parent is given by its components, which
  names the same directory as the text the code passes on.
\<close>

definition path_components :: "string \<Rightarrow> string list" where
  "path_components p = filter (\<lambda>c. c \<noteq> [] \<and> c \<noteq> ''.'') (split_char CHR ''/'' p)"

definition file_name :: "string \<Rightarrow> string option" where
  "file_name p =
     (let cs = path_components p in if cs = [] \<or> last cs = ''..'' then None else Some (last cs))"

definition path_parent :: "string \<Rightarrow> string option" where
  "path_parent p =
     (let cs = path_components p in
      if cs = [] then (if p = [] \<or> starts_with p ''/'' then None else Some [])
      else Some ((if starts_with p ''/'' then ''/'' else []) @ join ''/'' (butlast cs)))"

lemma file_name_no_slash: "file_name p = Some n \<Longrightarrow> CHR ''/'' \<notin> set n"
proof -
  assume "file_name p = Some n"
  then have "n \<in> set (path_components p)"
    by (auto simp: file_name_def Let_def split: if_splits)
  then show ?thesis by (auto simp: path_components_def dest: split_char_pieces)
qed

section \<open>Files\<close>

datatype io_error = Io_NotFound string | Io_Other string

primrec io_text :: "io_error \<Rightarrow> string" where
  "io_text (Io_NotFound e) = e"
| "io_text (Io_Other e) = e"

record pod_fs =
  fs_files :: "string \<Rightarrow> string option"
  fs_mode :: "string \<Rightarrow> nat option"

text \<open>
  A refused write changes nothing. A write that fails on the way has truncated the file
  and written so many bytes.
\<close>

datatype write_fault = Refused string | Torn string nat

record fs_faults =
  ff_absent :: string
  ff_stat :: "string \<Rightarrow> io_error option"
  ff_read :: "string \<Rightarrow> io_error option"
  ff_mkdir :: "string \<Rightarrow> string option"
  ff_write :: "string \<Rightarrow> write_fault option"
  ff_remove :: "string \<Rightarrow> bool"
  ff_chmod :: "string \<Rightarrow> string option"

definition no_faults :: fs_faults where
  "no_faults = \<lparr> ff_absent = ''No such file or directory (os error 2)'', ff_stat = (\<lambda>_. None),
     ff_read = (\<lambda>_. None), ff_mkdir = (\<lambda>_. None), ff_write = (\<lambda>_. None),
     ff_remove = (\<lambda>_. False), ff_chmod = (\<lambda>_. None) \<rparr>"

definition fs_stat :: "fs_faults \<Rightarrow> string \<Rightarrow> pod_fs \<Rightarrow> io_error + nat" where
  "fs_stat io p fs =
     (case ff_stat io p of Some e \<Rightarrow> Inl e
      | None \<Rightarrow> (case fs_files fs p of None \<Rightarrow> Inl (Io_NotFound (ff_absent io)) | Some c \<Rightarrow> Inr (length c)))"

definition fs_read :: "fs_faults \<Rightarrow> string \<Rightarrow> pod_fs \<Rightarrow> io_error + string" where
  "fs_read io p fs =
     (case ff_read io p of Some e \<Rightarrow> Inl e
      | None \<Rightarrow> (case fs_files fs p of None \<Rightarrow> Inl (Io_NotFound (ff_absent io)) | Some c \<Rightarrow> Inr c))"

text \<open>\<^verbatim>\<open>read_to_string\<close> also refuses bytes that are not UTF-8.\<close>

definition read_to_string :: "fs_faults \<Rightarrow> string \<Rightarrow> pod_fs \<Rightarrow> io_error + string" where
  "read_to_string io p fs =
     and_then (fs_read io p fs) (\<lambda>c.
       if utf8_valid c then Inr c else Inl (Io_Other ''stream did not contain valid UTF-8''))"

definition put_file :: "string \<Rightarrow> string \<Rightarrow> pod_fs \<Rightarrow> pod_fs" where
  "put_file p c fs = fs\<lparr> fs_files := (fs_files fs)(p \<mapsto> c) \<rparr>"

definition fs_write :: "fs_faults \<Rightarrow> string \<Rightarrow> string \<Rightarrow> (pod_fs, string, unit) stm" where
  "fs_write io p c fs =
     (case ff_write io p of
        None \<Rightarrow> (Inr (), put_file p c fs)
      | Some (Refused e) \<Rightarrow> (Inl e, fs)
      | Some (Torn e n) \<Rightarrow> (Inl e, put_file p (take n c) fs))"

definition remove_file :: "fs_faults \<Rightarrow> string \<Rightarrow> pod_fs \<Rightarrow> pod_fs" where
  "remove_file io p fs = (if ff_remove io p then fs else fs\<lparr> fs_files := (fs_files fs)(p := None), fs_mode := (fs_mode fs)(p := None) \<rparr>)"

definition create_dir_all :: "fs_faults \<Rightarrow> string \<Rightarrow> string + unit" where
  "create_dir_all io p =
     (if p = [] then Inr () else case ff_mkdir io p of Some e \<Rightarrow> Inl e | None \<Rightarrow> Inr ())"

text \<open>\<^verbatim>\<open>std::fs::copy\<close> copies the permission bits too. A file copied onto itself is truncated first.\<close>

definition fs_copy :: "fs_faults \<Rightarrow> string \<Rightarrow> string \<Rightarrow> (pod_fs, string, unit) stm" where
  "fs_copy io src dst fs =
     (case fs_read io src fs of
        Inl e \<Rightarrow> (Inl (io_text e), fs)
      | Inr c \<Rightarrow>
          (case fs_write io dst (if src = dst then [] else c) fs of
             (Inl e, fs1) \<Rightarrow> (Inl e, fs1)
           | (Inr _, fs1) \<Rightarrow> (Inr (), fs1\<lparr> fs_mode := (fs_mode fs1)(dst := fs_mode fs src) \<rparr>)))"

definition set_permissions :: "fs_faults \<Rightarrow> string \<Rightarrow> nat \<Rightarrow> (pod_fs, string, unit) stm" where
  "set_permissions io p mode fs =
     (case ff_chmod io p of
        Some e \<Rightarrow> (Inl e, fs)
      | None \<Rightarrow> (Inr (), fs\<lparr> fs_mode := (fs_mode fs)(p \<mapsto> mode) \<rparr>))"

section \<open>Credentials\<close>

text \<open>
  \<^verbatim>\<open>stage_credentials\<close> of both binaries. The environment and the reading of the JSON map
  are arguments.
\<close>

record credential_map_entry =
  ce_staging :: string
  ce_target :: string

definition credential_failed :: "string \<Rightarrow> string \<Rightarrow> string \<Rightarrow> string" where
  "credential_failed target what e = ''credential target '' @ target @ '': '' @ what @ e"

definition stage_entry :: "fs_faults \<Rightarrow> credential_map_entry \<Rightarrow> (pod_fs, string, unit) stm" where
  "stage_entry io entry =
     (let target = ce_target entry; failed = credential_failed target in
      bindS (case path_parent target of
          Some parent \<Rightarrow> liftS (map_err (failed ''cannot create parent directory: '') (create_dir_all io parent))
        | None \<Rightarrow> retS ()) (\<lambda>_.
      bindS (map_errS (failed ''copy failed: '') (fs_copy io (ce_staging entry) target)) (\<lambda>_.
      map_errS (failed ''cannot restrict to 0600: '') (set_permissions io target 384))))"

fun stage_entries :: "fs_faults \<Rightarrow> credential_map_entry list \<Rightarrow> (pod_fs, string, unit) stm" where
  "stage_entries io [] = retS ()"
| "stage_entries io (e # es) = bindS (stage_entry io e) (\<lambda>_. stage_entries io es)"

definition stage_credentials ::
  "(string \<Rightarrow> string option) \<Rightarrow> (string \<Rightarrow> string + credential_map_entry list) \<Rightarrow> fs_faults
   \<Rightarrow> (pod_fs, string, unit) stm" where
  "stage_credentials env parse io =
     (case env ''TOOLSET_CREDENTIAL_MAP'' of
        Some json \<Rightarrow>
          if json = [] then retS ()
          else bindS (liftS (map_err ((@) ''failed to parse TOOLSET_CREDENTIAL_MAP: '') (parse json))) (stage_entries io)
      | None \<Rightarrow> retS ())"

lemma fs_write_Inr [result_simps]: "fs_write io p c fs = (Inr u, fs') \<longleftrightarrow> ff_write io p = None \<and> fs' = put_file p c fs"
  by (auto simp: fs_write_def split: option.splits write_fault.splits)

lemma fs_read_Inr [result_simps]: "fs_read io p fs = Inr c \<longleftrightarrow> ff_read io p = None \<and> fs_files fs p = Some c"
  by (auto simp: fs_read_def split: option.splits)

lemma fs_copy_Inr [result_simps]:
  "fs_copy io src dst fs = (Inr u, fs') \<longleftrightarrow>
   (\<exists>c. ff_read io src = None \<and> fs_files fs src = Some c \<and> ff_write io dst = None \<and>
     fs' = put_file dst (if src = dst then [] else c) fs\<lparr> fs_mode := (fs_mode fs)(dst := fs_mode fs src) \<rparr>)"
proof (cases "fs_read io src fs")
  case (Inl e)
  then show ?thesis by (auto simp: fs_copy_def fs_read_def split: option.splits)
next
  case (Inr c)
  show ?thesis
  proof (cases "ff_write io dst")
    case None
    with Inr fs_read_Inr [of io src fs c] show ?thesis by (auto simp: fs_copy_def fs_write_def put_file_def)
  next
    case (Some f)
    with Inr show ?thesis by (cases f) (auto simp: fs_copy_def fs_write_def)
  qed
qed

lemma set_permissions_Inr [result_simps]:
  "set_permissions io p m fs = (Inr u, fs') \<longleftrightarrow>
   ff_chmod io p = None \<and> fs' = fs\<lparr> fs_mode := (fs_mode fs)(p \<mapsto> m) \<rparr>"
  by (auto simp: set_permissions_def split: option.splits)

lemma stage_entry_Inr:
  assumes "stage_entry io e fs = (Inr (), fs')"
  obtains c where "fs_files fs (ce_staging e) = Some c"
    and "fs' = fs\<lparr> fs_files := (fs_files fs)(ce_target e \<mapsto> if ce_staging e = ce_target e then [] else c),
                   fs_mode := (fs_mode fs)(ce_target e \<mapsto> 384) \<rparr>"
proof -
  from assms obtain u where "bindS (map_errS (credential_failed (ce_target e) ''copy failed: '') (fs_copy io (ce_staging e) (ce_target e)))
      (\<lambda>_. map_errS (credential_failed (ce_target e) ''cannot restrict to 0600: '') (set_permissions io (ce_target e) 384)) fs = (Inr (), fs')"
    by (auto simp: stage_entry_def Let_def result_simps split: option.splits)
  then show ?thesis by (auto simp: result_simps put_file_def intro: that)
qed

lemma stage_entry_lands:
  assumes "stage_entry io e fs = (Inr (), fs')"
  shows "fs_files fs (ce_staging e) \<noteq> None"
    and "ce_staging e \<noteq> ce_target e \<Longrightarrow> fs_files fs' (ce_target e) = fs_files fs (ce_staging e)"
    and "fs_mode fs' (ce_target e) = Some 384"
    and "p \<noteq> ce_target e \<Longrightarrow> fs_files fs' p = fs_files fs p \<and> fs_mode fs' p = fs_mode fs p"
  using assms by (auto elim!: stage_entry_Inr)

text \<open>
  Staging that succeeds has put every credential in its place with mode 0600, and touched
  nothing else.
\<close>

lemma stage_entries_land:
  assumes "stage_entries io es fs = (Inr (), fs')" "distinct (map ce_target es)"
    and "ce_target ` set es \<inter> ce_staging ` set es = {}"
  shows "(e \<in> set es \<longrightarrow> fs_files fs (ce_staging e) \<noteq> None \<and> fs_files fs' (ce_target e) = fs_files fs (ce_staging e) \<and>
      fs_mode fs' (ce_target e) = Some 384) \<and>
    (p \<notin> ce_target ` set es \<longrightarrow> fs_files fs' p = fs_files fs p \<and> fs_mode fs' p = fs_mode fs p)"
  using assms
proof (induction es arbitrary: fs e p)
  case Nil
  then show ?case by (simp add: retS_def)
next
  case (Cons a es)
  from Cons.prems(1) obtain fs1 where a: "stage_entry io a fs = (Inr (), fs1)"
    and es: "stage_entries io es fs1 = (Inr (), fs')"
    by (auto simp: bindS_def split: prod.splits sum.splits)
  have IH: "(e \<in> set es \<longrightarrow> fs_files fs1 (ce_staging e) \<noteq> None \<and> fs_files fs' (ce_target e) = fs_files fs1 (ce_staging e) \<and>
      fs_mode fs' (ce_target e) = Some 384) \<and>
    (p \<notin> ce_target ` set es \<longrightarrow> fs_files fs' p = fs_files fs1 p \<and> fs_mode fs' p = fs_mode fs1 p)" for e p
    using Cons.IH [OF es] Cons.prems(2,3) by auto
  note landed = stage_entry_lands [OF a]
  have own: "ce_staging a \<noteq> ce_target a" "ce_target a \<notin> ce_target ` set es"
    and other: "ce_target a \<notin> ce_staging ` set es"
    using Cons.prems(2,3) by auto
  have head: "fs_files fs (ce_staging a) \<noteq> None \<and> fs_files fs' (ce_target a) = fs_files fs (ce_staging a) \<and>
      fs_mode fs' (ce_target a) = Some 384"
    using IH [of a "ce_target a"] landed(1-3) own by auto
  have tail: "fs_files fs (ce_staging e) \<noteq> None \<and> fs_files fs' (ce_target e) = fs_files fs (ce_staging e) \<and>
      fs_mode fs' (ce_target e) = Some 384" if "e \<in> set es"
  proof -
    have "ce_staging e \<noteq> ce_target a" using other imageI [OF that, of ce_staging] by auto
    then show ?thesis using IH [of e p] landed(4) [of "ce_staging e"] that by auto
  qed
  show ?case using head tail IH [of e p] landed(4) [of p] by auto
qed

text \<open>
  A pod that starts has its credentials. When staging succeeds, every entry of the map
  whose target is its own has been copied: the target holds exactly the bytes that were
  staged, readable and writable by the owner only, and no other file has changed. An entry
  whose staged file is missing makes staging fail.
\<close>

theorem credentials_staged:
  assumes "env ''TOOLSET_CREDENTIAL_MAP'' = Some json" "json \<noteq> []" "parse json = Inr es"
    and "distinct (map ce_target es)" "ce_target ` set es \<inter> ce_staging ` set es = {}"
    and "stage_credentials env parse io fs = (Inr (), fs')"
  shows "(\<forall>e\<in>set es. \<exists>c. fs_files fs (ce_staging e) = Some c \<and> fs_files fs' (ce_target e) = Some c \<and>
      fs_mode fs' (ce_target e) = Some 384) \<and>
    (\<forall>p. p \<notin> ce_target ` set es \<longrightarrow> fs_files fs' p = fs_files fs p \<and> fs_mode fs' p = fs_mode fs p)"
proof -
  have run: "stage_entries io es fs = (Inr (), fs')"
    using assms by (simp add: stage_credentials_def bindS_def liftS_def)
  show ?thesis using stage_entries_land [OF run assms(4,5)] by fastforce
qed

theorem credentials_staged_witness:
  "let es = [\<lparr> ce_staging = ''/staging/a'', ce_target = ''/home/a'' \<rparr>, \<lparr> ce_staging = ''/staging/b'', ce_target = ''/home/b'' \<rparr>];
       fs = \<lparr> fs_files = [''/staging/a'' \<mapsto> ''k1'', ''/staging/b'' \<mapsto> ''k2''], fs_mode = Map.empty \<rparr>;
       run = stage_credentials [''TOOLSET_CREDENTIAL_MAP'' \<mapsto> ''x''] (\<lambda>_. Inr es) no_faults fs
   in fst run = Inr () \<and> fs_files (snd run) ''/home/b'' = Some ''k2'' \<and> fs_mode (snd run) ''/home/b'' = Some 384"
proof -
  let ?es = "[\<lparr> ce_staging = ''/staging/a'', ce_target = ''/home/a'' \<rparr>, \<lparr> ce_staging = ''/staging/b'', ce_target = ''/home/b'' \<rparr>]"
  let ?fs = "\<lparr> fs_files = [''/staging/a'' \<mapsto> ''k1'', ''/staging/b'' \<mapsto> ''k2''], fs_mode = Map.empty \<rparr>"
  let ?run = "stage_credentials [''TOOLSET_CREDENTIAL_MAP'' \<mapsto> ''x''] (\<lambda>_. Inr ?es) no_faults ?fs"
  have "fst ?run = Inr ()" by code_simp
  then have "?run = (Inr (), snd ?run)" by (metis prod.collapse)
  from credentials_staged [OF _ _ _ _ _ this, of "''x''" ?es]
  have "fs_files (snd ?run) ''/home/b'' = Some ''k2'' \<and> fs_mode (snd ?run) ''/home/b'' = Some 384" by auto
  then show ?thesis using \<open>fst ?run = Inr ()\<close> by (simp add: Let_def)
qed

end
