(* ===== verification/Inference_Runtime.thy ===== *)
theory Inference_Runtime
  imports Model_Provider Pod Watcher
begin

text \<open>
  The pod that calls the model, \<^verbatim>\<open>inference-runtime\<close>: its configuration, and the call it
  runs for a turn, from the provider's stream to the frames the harness reads. The
  provider of \<^verbatim>\<open>model-provider\<close> is an argument, \<open>None\<close> being a panic inside it. The
  theorems follow a call to the turn result the harness takes from its frames.
\<close>

section \<open>Configuration\<close>

definition DEFAULT_API_KEY_FILE :: string where
  "DEFAULT_API_KEY_FILE = ''/run/secrets/provider/credential''"

text \<open>\<open>de_format\<close> reads a JSON string as a \<^verbatim>\<open>Format\<close>.\<close>

definition load_config ::
  "(string \<Rightarrow> string option) \<Rightarrow> (string \<Rightarrow> string + wire_format) \<Rightarrow> fs_faults \<Rightarrow> pod_fs
   \<Rightarrow> string + wire_format \<times> string \<times> provider_config" where
  "load_config env de_format io fs =
     and_then (ok_or ''INFERENCE_FORMAT must be set'' (env ''INFERENCE_FORMAT'')) (\<lambda>format_str.
     let quoted = [CHR 0x22] @ format_str @ [CHR 0x22] in
     and_then (map_err (\<lambda>e. ''invalid format '' @ quoted @ '': '' @ e) (de_format quoted)) (\<lambda>format.
     and_then (ok_or ''INFERENCE_MODEL must be set'' (env ''INFERENCE_MODEL'')) (\<lambda>model.
     and_then (ok_or ''INFERENCE_BASE_URL must be set'' (env ''INFERENCE_BASE_URL'')) (\<lambda>base_url.
     let file = (case env ''INFERENCE_API_KEY_FILE'' of Some f \<Rightarrow> f | None \<Rightarrow> DEFAULT_API_KEY_FILE) in
     and_then (case read_to_string io file fs of
         Inr text \<Rightarrow> if trim text = [] then Inl (''provider credential '' @ file @ '' is empty'') else Inr (trim text)
       | Inl (Io_NotFound _) \<Rightarrow> Inr []
       | Inl (Io_Other e) \<Rightarrow> Inl (''provider credential '' @ file @ '' unreadable: '' @ e)) (\<lambda>api_key.
     Inr (format, base_url, \<lparr> pc_model = model, pc_api_key = api_key \<rparr>))))))"

text \<open>A pod that starts without a key had no credential file: a blank or unreadable one is fatal.\<close>

lemma load_config_key:
  assumes "load_config env de_format io fs = Inr (format, base_url, config)"
  defines "file \<equiv> (case env ''INFERENCE_API_KEY_FILE'' of Some f \<Rightarrow> f | None \<Rightarrow> DEFAULT_API_KEY_FILE)"
  shows "(pc_api_key config = [] \<longrightarrow> (\<exists>e. read_to_string io file fs = Inl (Io_NotFound e))) \<and>
    (\<forall>text. read_to_string io file fs = Inr text \<longrightarrow> pc_api_key config = trim text \<and> trim text \<noteq> [])"
  using assms unfolding file_def
  by (auto simp: load_config_def Let_def result_simps split: sum.splits io_error.splits if_splits)

section \<open>A model call\<close>

text \<open>
  \<open>room\<close> is how many frames the receiver still takes, if it is going to leave; \<open>cancel\<close> is
  after how many events the token has fired, if it fires.
\<close>

definition tick :: "nat option \<Rightarrow> nat option" where
  "tick n = map_option (\<lambda>k. k - 1) n"

definition send_last :: "nat option \<Rightarrow> 'a \<Rightarrow> 'a list" where
  "send_last room f = (if room = Some 0 then [] else [f])"

fun model_loop ::
  "scrub_set \<Rightarrow> stream_event list \<Rightarrow> nat option \<Rightarrow> nat option \<Rightarrow> (string + stream_event) list \<Rightarrow> turn_event list" where
  "model_loop scrub events cancel room [] =
     (if cancel = Some 0 then []
      else send_last room (scrub_turn_event scrub (error_turn_event ''model stream ended without completion'')))"
| "model_loop scrub events cancel room (Inl e # items) =
     (if cancel = Some 0 then []
      else send_last room (scrub_turn_event scrub (error_turn_event (''model stream error: '' @ e))))"
| "model_loop scrub events cancel room (Inr event # items) =
     (if cancel = Some 0 then []
      else
        let events1 = events @ [event] in
        case event of
          Done stop_reason \<Rightarrow> send_last room (scrub_turn_event scrub (assemble_turn_complete events1 stop_reason))
        | _ \<Rightarrow>
            (case stream_event_to_turn_event event of
               Some frame \<Rightarrow>
                 if room = Some 0 then []
                 else scrub_turn_event scrub frame # model_loop scrub events1 (tick cancel) (tick room) items
             | None \<Rightarrow> model_loop scrub events1 (tick cancel) room items))"

record turn_assignment =
  ta_messages :: "message list"
  ta_system :: "string option"
  ta_tools :: "tool_definition list"
  ta_conversation_id :: string

type_synonym llm_provider =
  "message list \<Rightarrow> string option \<Rightarrow> tool_definition list \<Rightarrow> (string \<times> json) list option \<Rightarrow> provider_config
   \<Rightarrow> (string + (string + stream_event) list) option"

definition run_model_call ::
  "llm_provider \<Rightarrow> provider_config \<Rightarrow> scrub_set \<Rightarrow> turn_assignment \<Rightarrow> nat option \<Rightarrow> nat option
   \<Rightarrow> turn_event list option" where
  "run_model_call provider config scrub assignment cancel room =
     map_option (\<lambda>opened. case opened of
         Inr items \<Rightarrow> model_loop scrub [] cancel room items
       | Inl e \<Rightarrow> send_last room (scrub_turn_event scrub (error_turn_event (''model call failed: '' @ e))))
       (provider (ta_messages assignment) (ta_system assignment) (ta_tools assignment) None config)"

text \<open>
  The handler: the assignment, the cancel watch and the counters. The two times are the
  clock when the call starts and when it ends; \<open>cancel_at\<close> is when the token, if it
  fires, is seen. A panic ends the task before the counters move.
\<close>

definition run_inference ::
  "llm_provider \<Rightarrow> provider_config \<Rightarrow> scrub_set \<Rightarrow> nat \<times> nat \<Rightarrow> nat \<Rightarrow> nat option \<Rightarrow> turn_assignment inbound
   \<Rightarrow> (activity, status, turn_event list) stm" where
  "run_inference provider config scrub clock cancel_at room messages =
     bindS (liftS (read_assignment ''the first RunInferenceCommand must be the model-call assignment'' messages))
       (\<lambda>(assignment, later) act.
         let cancel = (if watch_cancel later then Some cancel_at else None);
             act1 = call_started (fst clock) act in
         case run_model_call provider config scrub assignment cancel room of
           Some frames \<Rightarrow> (Inr frames, call_finished (snd clock) act1)
         | None \<Rightarrow> (Inr [], act1))"

section \<open>The frames of a call\<close>

text \<open>What a stream says before it ends, and how it ends.\<close>

definition running :: "string + stream_event \<Rightarrow> bool" where
  "running item \<longleftrightarrow> (case item of Inr (Done _) \<Rightarrow> False | Inr _ \<Rightarrow> True | Inl _ \<Rightarrow> False)"

definition body_events :: "(string + stream_event) list \<Rightarrow> stream_event list" where
  "body_events items = map projr (takeWhile running items)"

fun stream_end :: "(string + stream_event) list \<Rightarrow> (string + string) option" where
  "stream_end [] = None"
| "stream_end (Inl e # _) = Some (Inl e)"
| "stream_end (Inr (Done r) # _) = Some (Inr r)"
| "stream_end (_ # items) = stream_end items"

definition end_frame :: "stream_event list \<Rightarrow> (string + string) option \<Rightarrow> turn_event" where
  "end_frame events fin =
     (case fin of
        Some (Inr r) \<Rightarrow> assemble_turn_complete (events @ [Done r]) r
      | Some (Inl e) \<Rightarrow> error_turn_event (''model stream error: '' @ e)
      | None \<Rightarrow> error_turn_event ''model stream ended without completion'')"

definition body_frames :: "(string + stream_event) list \<Rightarrow> turn_event list" where
  "body_frames items = List.map_filter stream_event_to_turn_event (body_events items)"

lemma running_simps [simp]:
  "running (Inl e) = False" "running (Inr (Done r)) = False"
  "running (Inr (ContentDelta t))" "running (Inr (ThinkingDelta t))" "running (Inr (ToolUseStart i n))"
  "running (Inr (ToolUseInput j))" "running (Inr (Warning f w))"
  by (simp_all add: running_def)

lemma body_simps [simp]:
  "body_events [] = []" "running i \<Longrightarrow> body_events (i # is) = projr i # body_events is"
  "\<not> running i \<Longrightarrow> body_events (i # is) = []"
  by (simp_all add: body_events_def)

lemma end_frame_Done: "end_frame events (Some (Inr r)) = assemble_turn_complete (events @ [Done r]) r"
  by (simp add: end_frame_def)

lemma model_loop_frames:
  "model_loop scrub events None None items =
   map (scrub_turn_event scrub) (body_frames items) @ [scrub_turn_event scrub (end_frame (events @ body_events items) (stream_end items))]"
proof (induction items arbitrary: events)
  case Nil
  then show ?case by (simp add: send_last_def body_frames_def end_frame_def List.map_filter_def)
next
  case (Cons item items)
  show ?case
  proof (cases item)
    case (Inl e)
    then show ?thesis by (simp add: send_last_def body_frames_def end_frame_def List.map_filter_def)
  next
    case (Inr ev)
    with Cons.IH show ?thesis
      by (cases ev) (simp_all add: send_last_def tick_def body_frames_def end_frame_Done List.map_filter_def)
  qed
qed

text \<open>A cancel or a receiver that leaves cuts the frames short.\<close>

lemma model_loop_prefix: "prefix (model_loop scrub events cancel room items) (model_loop scrub events None None items)"
proof (induction items arbitrary: events cancel room)
  case Nil
  then show ?case by (simp add: send_last_def)
next
  case (Cons item items)
  show ?case
  proof (cases item)
    case (Inl e)
    then show ?thesis by (simp add: send_last_def)
  next
    case (Inr ev)
    with Cons.IH show ?thesis by (cases ev) (auto simp: send_last_def tick_def Let_def)
  qed
qed

lemma model_loop_cancelled:
  "k \<le> length (body_events items) \<Longrightarrow>
   prefix (model_loop scrub events (Some k) room items) (map (scrub_turn_event scrub) (body_frames items))"
proof (induction items arbitrary: events k room)
  case Nil
  then show ?case by (simp add: send_last_def)
next
  case (Cons item items)
  show ?case
  proof (cases "running item")
    case False
    with Cons.prems have "k = 0" by simp
    then show ?thesis by (cases item) simp_all
  next
    case True
    then obtain ev where item: "item = Inr ev" by (cases item) auto
    with True Cons.prems have "k - 1 \<le> length (body_events items)" by simp
    from Cons.IH [OF this] show ?thesis using True item
      by (cases ev) (auto simp: tick_def body_frames_def List.map_filter_def Let_def)
  qed
qed

lemma forwarded_not_terminal:
  "stream_event_to_turn_event ev = Some f \<Longrightarrow> process_turn_event (scrub_turn_event scrub f) = Inr None"
  by (cases ev) (auto simp: process_turn_event_def scrub_turn_event_def)

lemma body_frames_not_terminal:
  "f \<in> set (body_frames items) \<Longrightarrow> process_turn_event (scrub_turn_event scrub f) = Inr None"
  by (auto simp: body_frames_def List.map_filter_def intro: forwarded_not_terminal)

lemma consume_not_terminal:
  assumes "\<And>f. f \<in> set fs \<Longrightarrow> process_turn_event f = Inr None" "process_turn_event t = r" "r \<noteq> Inr None"
  shows "fst (consume_turn_stream_cancellable uuid gap hscrub (map Wait_Event (fs @ [t])) st) =
    (case r of Inl e \<Rightarrow> Inl (Abort_Ended e) | Inr res \<Rightarrow> Inr (the res))"
  using assms
proof (induction fs arbitrary: st)
  case Nil
  then show ?case by (auto split: prod.splits sum.splits option.splits)
next
  case (Cons f fs)
  have "process_turn_event f = Inr None" using Cons.prems(1) by simp
  with Cons show ?case by (auto simp: Let_def split: prod.splits) (metis fst_conv)+
qed

lemma int_string_0: "int_string 0 = ''0''"
  by code_simp

lemma end_frame_result:
  "process_turn_event (scrub_turn_event scrub (end_frame events fin)) =
     (case fin of
        Some (Inr r) \<Rightarrow> Inr (Some \<lparr>
          tr_stop_reason = (if r = ''tool_use'' then stop_tool_use else if r = ''max_tokens'' then stop_max_tokens else stop_end_turn),
          tr_content = (let text = concat (map event_text events) in
            if text = [] then [] else [text_block (apply_scrub scrub text)]),
          tr_tool_calls = map (scrub_call scrub) (collect_tool_calls (events @ [Done r])) \<rparr>)
      | Some (Inl e) \<Rightarrow> Inl (''turn error 0: '' @ apply_scrub scrub (''model stream error: '' @ e))
      | None \<Rightarrow> Inl (''turn error 0: '' @ apply_scrub scrub ''model stream ended without completion''))"
  by (auto simp: end_frame_def process_turn_event_def scrub_turn_event_def error_turn_event_def int_string_0
      assemble_turn_complete_def stop_reason_try_from_def collect_text_def event_text_def scrub_block_def text_block_def
      Let_def split: option.splits sum.splits)

text \<open>
  C22. A turn's result is what the model said. Take any stream of the provider that says
  so and so much and then is done. The harness, reading the frames of the pod to the end,
  takes as the turn's result the text of all content deltas in order, scrubbed as a whole,
  the tool calls assembled from the deltas, scrubbed, and the stop reason. When the stream
  breaks or ends early the turn aborts with the reason instead. And if the call is
  cancelled before the model is done, or the reader leaves, the pod sends a part of the
  same frames and, on a cancel, no result.
\<close>

theorem model_call_result:
  assumes "provider (ta_messages a) (ta_system a) (ta_tools a) None config = Some (Inr items)"
  shows "\<exists>frames. run_model_call provider config scrub a None None = Some frames \<and>
    fst (consume_turn_stream_cancellable uuid gap hscrub (map Wait_Event frames) st) =
      (case stream_end items of
         Some (Inr r) \<Rightarrow> Inr \<lparr>
           tr_stop_reason = (if r = ''tool_use'' then stop_tool_use else if r = ''max_tokens'' then stop_max_tokens else stop_end_turn),
           tr_content = (let text = concat (map event_text (body_events items)) in
             if text = [] then [] else [text_block (apply_scrub scrub text)]),
           tr_tool_calls = map (scrub_call scrub) (collect_tool_calls (body_events items @ [Done r])) \<rparr>
       | Some (Inl e) \<Rightarrow> Inl (Abort_Ended (''turn error 0: '' @ apply_scrub scrub (''model stream error: '' @ e)))
       | None \<Rightarrow> Inl (Abort_Ended (''turn error 0: '' @ apply_scrub scrub ''model stream ended without completion''))) \<and>
    (\<forall>cancel room. \<exists>sent. run_model_call provider config scrub a cancel room = Some sent \<and> prefix sent frames) \<and>
    (\<forall>k room. k \<le> length (body_events items) \<longrightarrow>
       (\<exists>sent. run_model_call provider config scrub a (Some k) room = Some sent \<and>
          list_all (\<lambda>f. process_turn_event f = Inr None) sent))"
proof -
  let ?last = "scrub_turn_event scrub (end_frame (body_events items) (stream_end items))"
  let ?frames = "map (scrub_turn_event scrub) (body_frames items) @ [?last]"
  have parts: "run_model_call provider config scrub a cancel room = Some (model_loop scrub [] cancel room items)" for cancel room
    by (simp add: run_model_call_def assms)
  have frames: "model_loop scrub [] None None items = ?frames" using model_loop_frames [of scrub "[]" items] by simp
  have body: "\<And>f. f \<in> set (map (scrub_turn_event scrub) (body_frames items)) \<Longrightarrow> process_turn_event f = Inr None"
    by (auto dest: body_frames_not_terminal)
  have cut: "list_all (\<lambda>f. process_turn_event f = Inr None) (model_loop scrub [] (Some k) room items)"
    if "k \<le> length (body_events items)" for k room
    using set_mono_prefix [OF model_loop_cancelled [OF that, of scrub "[]" room]] body by (auto simp: list_all_iff)
  have result: "fst (consume_turn_stream_cancellable uuid gap hscrub (map Wait_Event ?frames) st) =
      (case process_turn_event ?last of Inl e \<Rightarrow> Inl (Abort_Ended e) | Inr res \<Rightarrow> Inr (the res))"
    by (rule consume_not_terminal [OF body refl]) (auto simp: end_frame_result split: option.splits sum.splits)
  show ?thesis
    using result model_loop_prefix [of scrub "[]" _ _ items] cut
    by (auto simp: parts frames end_frame_result split: option.splits sum.splits)
qed

text \<open>A stream that ends early aborts the turn; one that completes gives its text in one block.\<close>

theorem model_call_result_witness:
  "\<exists>frames. run_model_call (\<lambda>_ _ _ _ _. Some (Inr [Inr (ContentDelta ''he''), Inr (ContentDelta ''llo''), Inr (Done ''end_turn'')]))
     \<lparr> pc_model = ''m'', pc_api_key = [] \<rparr> \<lparr> replacements = [(''hello'', ''[X]'')] \<rparr>
     \<lparr> ta_messages = [], ta_system = None, ta_tools = [], ta_conversation_id = ''c'' \<rparr> None None = Some frames \<and>
   fst (consume_turn_stream_cancellable (\<lambda>_. []) 60 \<lparr> replacements = [] \<rparr> (map Wait_Event frames) (emit_new ''c'')) =
     Inr \<lparr> tr_stop_reason = 1, tr_content = [text_block ''[X]''], tr_tool_calls = [] \<rparr>"
proof -
  let ?items = "[Inr (ContentDelta ''he''), Inr (ContentDelta ''llo''), Inr (Done ''end_turn'')] :: (string + stream_event) list"
  have "apply_scrub \<lparr> replacements = [(''hello'', ''[X]'')] \<rparr> ''hello'' = ''[X]''" by code_simp
  then show ?thesis
    using model_call_result [of "\<lambda>_ _ _ _ _. Some (Inr ?items)" "\<lparr> ta_messages = [], ta_system = None, ta_tools = [], ta_conversation_id = ''c'' \<rparr>"
        "\<lparr> pc_model = ''m'', pc_api_key = [] \<rparr>" ?items "\<lparr> replacements = [(''hello'', ''[X]'')] \<rparr>"
        "\<lambda>_. []" 60 "\<lparr> replacements = [] \<rparr>" "emit_new ''c''"]
    by (auto simp: event_text_def collect_tool_calls_def collect_step_def)
qed

text \<open>
  The counters. After a call the pod is idle as before and has one more call behind it; a
  provider that panics leaves the call in flight, and the pod never stops by itself.
\<close>

lemma run_inference_activity:
  assumes "run_inference provider config scrub clock cancel_at room messages act = (Inr frames, act')"
  shows "in_flight act' = in_flight act \<and> completed act' = completed act + 1 \<and> last_activity act' = snd clock \<or>
    in_flight act' = in_flight act + 1 \<and> frames = [] \<and> completed act' = completed act"
  using assms
  by (auto simp: run_inference_def bindS_def liftS_def call_started_def call_finished_def activity_touch_def Let_def
      split: sum.splits prod.splits option.splits)

lemma panic_keeps_pod:
  assumes "\<And>ms sys ts. provider ms sys ts None config = None" "0 \<le> in_flight act"
    and "run_inference provider config scrub clock cancel_at room messages act = (Inr frames, act')"
    and "\<And>now a. (now, a) \<in> set polls \<Longrightarrow> in_flight a \<ge> in_flight act'"
  shows "shutdown_wait keepalive idle polls = None"
proof -
  have "in_flight act' > 0" using assms(1-3)
    by (auto simp: run_inference_def run_model_call_def bindS_def liftS_def call_started_def activity_touch_def Let_def
        split: sum.splits prod.splits)
  with assms(4) show ?thesis
    by (cases "shutdown_wait keepalive idle polls") (fastforce dest: shutdown_wait_sound)+
qed

end
