(* ===== verification/Toolset_Exec.thy ===== *)
theory Toolset_Exec
  imports Scrub Pod
begin

text \<open>
  How a tool's output becomes typed frames, \<^verbatim>\<open>toolset-runtime/src/parts.rs\<close> and
  \<^verbatim>\<open>execute.rs\<close>: image markers, scrubbed lines, the buffered and the streaming producer,
  and the supervision of a child process. A child is what it would do: the text on its
  pipes, when it would exit, and when its pipes close, for each time at which it may be
  killed. The streaming loop is a sequence of the moments its \<^verbatim>\<open>select!\<close> resolves to.
\<close>

section \<open>Frames for lines\<close>

definition MAX_IMAGE_BYTES :: nat where
  "MAX_IMAGE_BYTES = 3670016"

definition FIELD_SEP :: char where
  "FIELD_SEP = CHR 0x1F"

definition MARKER_PREFIX :: string where
  "MARKER_PREFIX = [FIELD_SEP] @ ''TOOLSET-IMAGE'' @ [FIELD_SEP]"

record image_marker =
  im_media_type :: string
  im_path :: string

definition parse_image_marker :: "string \<Rightarrow> image_marker option" where
  "parse_image_marker line =
     Option.bind (strip_prefix MARKER_PREFIX line) (\<lambda>rest.
     Option.bind (split_once FIELD_SEP rest) (\<lambda>(media_type, path).
       if media_type = [] \<or> path = [] then None
       else Some \<lparr> im_media_type = media_type, im_path = path \<rparr>))"

definition read_scratch_image :: "fs_faults \<Rightarrow> string \<Rightarrow> pod_fs \<Rightarrow> (string + string) \<times> pod_fs" where
  "read_scratch_image io path fs =
     (case fs_read io path fs of
        Inl e \<Rightarrow> (Inl (io_text e), fs)
      | Inr bytes \<Rightarrow> (Inr bytes, remove_file io path fs))"

definition oversize_text :: "nat \<Rightarrow> string" where
  "oversize_text len =
     ''image result is '' @ nat_string len @ '' bytes, over the '' @ nat_string MAX_IMAGE_BYTES @ ''-byte (3.5 MiB) cap''"

definition image_part_or_oversize_error :: "string \<Rightarrow> string \<Rightarrow> nat + block" where
  "image_part_or_oversize_error media_type bytes =
     (if length bytes > MAX_IMAGE_BYTES then Inl (length bytes) else Inr (Block_Image media_type bytes))"

text \<open>The frame of a line of standard output, and whether an image could not be delivered.\<close>

definition stdout_line_frame ::
  "fs_faults \<Rightarrow> scrub_set \<Rightarrow> string \<Rightarrow> pod_fs \<Rightarrow> (tool_result_frame option \<times> bool) \<times> pod_fs" where
  "stdout_line_frame io scrub line fs =
     (case parse_image_marker line of
        Some marker \<Rightarrow>
          (case read_scratch_image io (im_path marker) fs of
             (Inr bytes, fs1) \<Rightarrow>
               ((case image_part_or_oversize_error (im_media_type marker) bytes of
                   Inr (Block_Image media data) \<Rightarrow> (Some (Some (Frame_Image media data)), False)
                 | Inr _ \<Rightarrow> (None, False)
                 | Inl len \<Rightarrow> (Some (Some (Frame_Stdout (apply_scrub scrub (oversize_text len)))), True)), fs1)
           | (Inl e, fs1) \<Rightarrow>
               ((Some (Some (Frame_Stdout (apply_scrub scrub (''image result unavailable: '' @ e)))), True), fs1))
      | None \<Rightarrow> ((Some (Some (Frame_Stdout (apply_scrub scrub line))), False), fs))"

definition stderr_line_frame :: "scrub_set \<Rightarrow> string \<Rightarrow> tool_result_frame" where
  "stderr_line_frame scrub line = Some (Frame_Stderr (apply_scrub scrub line))"

definition complete_frame :: "int \<Rightarrow> int \<Rightarrow> tool_result_frame" where
  "complete_frame outcome exit_code = Some (Frame_Complete outcome exit_code)"

fun stdout_frames ::
  "fs_faults \<Rightarrow> scrub_set \<Rightarrow> string list \<Rightarrow> pod_fs \<Rightarrow> (tool_result_frame list \<times> bool) \<times> pod_fs" where
  "stdout_frames io scrub [] fs = (([], False), fs)"
| "stdout_frames io scrub (line # ls) fs =
     (case stdout_line_frame io scrub line fs of ((frame, err), fs1) \<Rightarrow>
      case stdout_frames io scrub ls fs1 of ((frames, image_error), fs2) \<Rightarrow>
        (((case frame of Some f \<Rightarrow> [f] | None \<Rightarrow> []) @ frames, err \<or> image_error), fs2))"

definition frames_for ::
  "fs_faults \<Rightarrow> scrub_set \<Rightarrow> string \<Rightarrow> string \<Rightarrow> int \<Rightarrow> pod_fs \<Rightarrow> tool_result_frame list \<times> pod_fs" where
  "frames_for io scrub stdout stderr exit_code fs =
     (case stdout_frames io scrub (split_terminated newline stdout) fs of ((frames, image_error), fs1) \<Rightarrow>
        (frames @ map (stderr_line_frame scrub) (split_terminated newline stderr)
          @ [complete_frame (if exit_code \<noteq> 0 \<or> image_error then outcome_failed else outcome_done) exit_code], fs1))"

section \<open>Child processes\<close>

record command =
  cmd_program :: string
  cmd_args :: "string list"
  cmd_env :: "string \<Rightarrow> string option"
  cmd_dir :: "string option"

definition TOOLSET_DISPATCH :: string where
  "TOOLSET_DISPATCH = ''/etc/toolset/dispatch''"

definition compose_dispatch_command :: "string \<Rightarrow> (string \<Rightarrow> string option) \<Rightarrow> string \<Rightarrow> command" where
  "compose_dispatch_command tool_name args working_dir =
     \<lparr> cmd_program = TOOLSET_DISPATCH, cmd_args = [tool_name], cmd_env = args, cmd_dir = Some working_dir \<rparr>"

record exit_status =
  es_code :: "int option"
  es_signal :: "int option"

text \<open>
  A child: when it exits by itself and with what; and, given when it is killed, if it is,
  the bytes on its pipes, when both pipes have closed (a descendant may hold them open for
  ever), what it does to the files, and what reaping it gives.
\<close>

record child =
  ch_exit_at :: "nat option"
  ch_status :: "string + exit_status"
  ch_stdout :: "nat option \<Rightarrow> string"
  ch_stderr :: "nat option \<Rightarrow> string"
  ch_eof :: "nat option \<Rightarrow> nat option"
  ch_effect :: "nat option \<Rightarrow> pod_fs \<Rightarrow> pod_fs"
  ch_reaped :: "exit_status option"

record command_result =
  cr_stdout :: string
  cr_stderr :: string
  cr_exit_code :: int
  cr_signal :: "int option"

text \<open>The biased race of the token, the deadline and the exit: the earliest, in that order when tied.\<close>

datatype race = Cancel_Won nat | Deadline_Won nat | Exit_Won | Nothing_Wins

fun no_later :: "nat option \<Rightarrow> nat option \<Rightarrow> bool" where
  "no_later (Some a) (Some b) = (a \<le> b)"
| "no_later (Some a) None = True"
| "no_later None _ = False"

definition race_of :: "nat option \<Rightarrow> nat option \<Rightarrow> nat option \<Rightarrow> race" where
  "race_of cancel deadline exit =
     (if no_later cancel deadline \<and> no_later cancel exit then Cancel_Won (the cancel)
      else if no_later deadline exit then Deadline_Won (the deadline)
      else if exit \<noteq> None then Exit_Won else Nothing_Wins)"

definition timed_out_text :: "nat option \<Rightarrow> string" where
  "timed_out_text timeout =
     ''command timed out after '' @ nat_string (case timeout of Some d \<Rightarrow> d | None \<Rightarrow> 0) @ ''s''"

text \<open>\<open>None\<close>: the call does not return, because nothing ends the child or its pipes stay open.\<close>

definition run_supervised_child ::
  "(command \<Rightarrow> string + child) \<Rightarrow> command \<Rightarrow> nat option \<Rightarrow> nat option \<Rightarrow> pod_fs
   \<Rightarrow> ((string + command_result) \<times> pod_fs) option" where
  "run_supervised_child spawn cmd cancel timeout fs =
     (case spawn cmd of
        Inl e \<Rightarrow> Some (Inl e, fs)
      | Inr c \<Rightarrow>
          let ended = (\<lambda>killed r. if ch_eof c killed = None then None else Some (Inr r, ch_effect c killed fs));
              out = (\<lambda>killed. utf8_lossy (ch_stdout c killed));
              err = (\<lambda>killed. utf8_lossy (ch_stderr c killed))
          in case race_of cancel timeout (ch_exit_at c) of
               Cancel_Won t \<Rightarrow>
                 ended (Some t) \<lparr> cr_stdout = out (Some t), cr_stderr = err (Some t), cr_exit_code = -1,
                   cr_signal = (case Option.bind (ch_reaped c) es_signal of Some s \<Rightarrow> Some s | None \<Rightarrow> Some 9) \<rparr>
             | Deadline_Won t \<Rightarrow>
                 ended (Some t) \<lparr> cr_stdout = [], cr_stderr = timed_out_text timeout, cr_exit_code = -1, cr_signal = None \<rparr>
             | Exit_Won \<Rightarrow>
                 (case ch_status c of
                    Inl e \<Rightarrow> Some (Inl e, ch_effect c None fs)
                  | Inr status \<Rightarrow>
                      ended None \<lparr> cr_stdout = out None, cr_stderr = err None,
                        cr_exit_code = (case es_code status of Some code \<Rightarrow> code | None \<Rightarrow> -1),
                        cr_signal = es_signal status \<rparr>)
             | Nothing_Wins \<Rightarrow> None)"

section \<open>The streaming producer\<close>

text \<open>
  One resolution of the \<^verbatim>\<open>select!\<close> of \<^verbatim>\<open>stream_frames\<close>. A line that is absent is the end
  of its pipe, or a read error such as bytes that are not UTF-8. Between two resolutions the
  child may change files.
\<close>

datatype pump = Pump_Cancel | Pump_Deadline | Pump_Out "string option" | Pump_Err "string option"
  | Pump_Files "pod_fs \<Rightarrow> pod_fs"

record pump_state =
  ps_stdout_open :: bool
  ps_stderr_open :: bool
  ps_image_error :: bool
  ps_aborted :: bool
  ps_timed_out :: bool
  ps_sent :: "tool_result_frame list"
  ps_room :: "nat option"
  ps_gone :: bool
  ps_fs :: pod_fs

definition pump_send :: "tool_result_frame \<Rightarrow> pump_state \<Rightarrow> pump_state" where
  "pump_send f st =
     (if ps_room st = Some 0 then st\<lparr> ps_gone := True \<rparr>
      else st\<lparr> ps_sent := ps_sent st @ [f], ps_room := map_option (\<lambda>n. n - 1) (ps_room st) \<rparr>)"

text \<open>A branch whose guard does not hold is never chosen.\<close>

fun pump_step :: "fs_faults \<Rightarrow> scrub_set \<Rightarrow> nat option \<Rightarrow> pump \<Rightarrow> pump_state \<Rightarrow> pump_state" where
  "pump_step io scrub timeout Pump_Cancel st =
     (if ps_aborted st then st else st\<lparr> ps_aborted := True \<rparr>)"
| "pump_step io scrub timeout Pump_Deadline st =
     (if ps_aborted st \<or> timeout = None then st else st\<lparr> ps_aborted := True, ps_timed_out := True \<rparr>)"
| "pump_step io scrub timeout (Pump_Out None) st = st\<lparr> ps_stdout_open := False \<rparr>"
| "pump_step io scrub timeout (Pump_Out (Some l)) st =
     (if ps_stdout_open st then
        (case stdout_line_frame io scrub l (ps_fs st) of ((frame, err), fs1) \<Rightarrow>
           let st1 = st\<lparr> ps_fs := fs1, ps_image_error := ps_image_error st \<or> err \<rparr> in
           case frame of Some f \<Rightarrow> pump_send f st1 | None \<Rightarrow> st1)
      else st)"
| "pump_step io scrub timeout (Pump_Err None) st = st\<lparr> ps_stderr_open := False \<rparr>"
| "pump_step io scrub timeout (Pump_Err (Some l)) st =
     (if ps_stderr_open st then pump_send (stderr_line_frame scrub l) st else st)"
| "pump_step io scrub timeout (Pump_Files g) st = st\<lparr> ps_fs := g (ps_fs st) \<rparr>"

text \<open>The loop. \<open>None\<close>: it is still waiting when the moments run out.\<close>

definition pump_over :: "pump_state \<Rightarrow> bool" where
  "pump_over st \<longleftrightarrow> ps_gone st \<or> \<not> ps_stdout_open st \<and> \<not> ps_stderr_open st"

fun pump_loop :: "fs_faults \<Rightarrow> scrub_set \<Rightarrow> nat option \<Rightarrow> pump list \<Rightarrow> pump_state \<Rightarrow> pump_state option" where
  "pump_loop io scrub timeout [] st = (if pump_over st then Some st else None)"
| "pump_loop io scrub timeout (m # ms) st =
     (if pump_over st then Some st else pump_loop io scrub timeout ms (pump_step io scrub timeout m st))"

definition pump_init :: "nat option \<Rightarrow> pod_fs \<Rightarrow> pump_state" where
  "pump_init room fs =
     \<lparr> ps_stdout_open = True, ps_stderr_open = True, ps_image_error = False, ps_aborted = False,
       ps_timed_out = False, ps_sent = [], ps_room = room, ps_gone = False, ps_fs = fs \<rparr>"

definition pump_outcome :: "pump_state \<Rightarrow> int \<Rightarrow> int" where
  "pump_outcome st exit_code =
     (if ps_aborted st \<and> \<not> ps_timed_out st then outcome_canceled
      else if ps_timed_out st \<or> exit_code \<noteq> 0 \<or> ps_image_error st then outcome_failed
      else outcome_done)"

definition pump_finish :: "scrub_set \<Rightarrow> nat option \<Rightarrow> exit_status option \<Rightarrow> pump_state \<Rightarrow> pump_state" where
  "pump_finish scrub timeout status st =
     (let exit_code = (if ps_aborted st then -1
                       else case Option.bind status es_code of Some code \<Rightarrow> code | None \<Rightarrow> -1);
          st1 = (if ps_timed_out st then pump_send (stderr_line_frame scrub (timed_out_text timeout)) st else st)
      in pump_send (complete_frame (pump_outcome st exit_code) exit_code) st1)"

text \<open>
  \<open>spawned\<close> is the spawn error, or the moments of the run and the status the child is
  reaped with. The result is the frames the receiver got.
\<close>

definition stream_frames ::
  "fs_faults \<Rightarrow> scrub_set \<Rightarrow> nat option \<Rightarrow> nat option \<Rightarrow> string + pump list \<times> exit_status option \<Rightarrow> pod_fs
   \<Rightarrow> (tool_result_frame list \<times> pod_fs) option" where
  "stream_frames io scrub timeout room spawned fs =
     (case spawned of
        Inl e \<Rightarrow>
          let st = pump_send (complete_frame outcome_failed (-1))
                (pump_send (Some (Frame_Stdout (apply_scrub scrub (''execution error: '' @ e)))) (pump_init room fs))
          in Some (ps_sent st, ps_fs st)
      | Inr (moments, status) \<Rightarrow>
          map_option (\<lambda>st.
              let st1 = (if ps_gone st then st else pump_finish scrub timeout status st)
              in (ps_sent st1, ps_fs st1))
            (pump_loop io scrub timeout moments (pump_init room fs)))"

section \<open>What the moments of a run say\<close>

text \<open>The lines of each pipe up to its end, and the moments the loop takes.\<close>

fun out_lines :: "pump list \<Rightarrow> string list" where
  "out_lines [] = []"
| "out_lines (Pump_Out (Some l) # ms) = l # out_lines ms"
| "out_lines (Pump_Out None # ms) = []"
| "out_lines (_ # ms) = out_lines ms"

fun err_lines :: "pump list \<Rightarrow> string list" where
  "err_lines [] = []"
| "err_lines (Pump_Err (Some l) # ms) = l # err_lines ms"
| "err_lines (Pump_Err None # ms) = []"
| "err_lines (_ # ms) = err_lines ms"

definition ends_out :: "pump \<Rightarrow> bool" where
  "ends_out m \<longleftrightarrow> (case m of Pump_Out None \<Rightarrow> True | _ \<Rightarrow> False)"

definition ends_err :: "pump \<Rightarrow> bool" where
  "ends_err m \<longleftrightarrow> (case m of Pump_Err None \<Rightarrow> True | _ \<Rightarrow> False)"

fun live_moments :: "bool \<Rightarrow> bool \<Rightarrow> pump list \<Rightarrow> pump list" where
  "live_moments out err [] = []"
| "live_moments out err (m # ms) =
     (if out \<or> err then m # live_moments (out \<and> \<not> ends_out m) (err \<and> \<not> ends_err m) ms else [])"

datatype abort = Aborted_Cancel | Aborted_Deadline

fun abort_of :: "nat option \<Rightarrow> pump list \<Rightarrow> abort option" where
  "abort_of timeout [] = None"
| "abort_of timeout (Pump_Cancel # ms) = Some Aborted_Cancel"
| "abort_of timeout (Pump_Deadline # ms) = (if timeout = None then abort_of timeout ms else Some Aborted_Deadline)"
| "abort_of timeout (_ # ms) = abort_of timeout ms"

text \<open>A frame the producers make from output: a scrubbed line, or an image under the cap.\<close>

definition produced :: "scrub_set \<Rightarrow> tool_result_frame \<Rightarrow> bool" where
  "produced scrub f \<longleftrightarrow>
     (case f of
        Some (Frame_Stdout t) \<Rightarrow> t \<in> range (apply_scrub scrub)
      | Some (Frame_Stderr t) \<Rightarrow> t \<in> range (apply_scrub scrub)
      | Some (Frame_Image media data) \<Rightarrow> length data \<le> MAX_IMAGE_BYTES
      | _ \<Rightarrow> False)"

definition on_stderr :: "tool_result_frame \<Rightarrow> bool" where
  "on_stderr f \<longleftrightarrow> (case f of Some (Frame_Stderr _) \<Rightarrow> True | _ \<Rightarrow> False)"

definition on_stdout :: "tool_result_frame \<Rightarrow> bool" where
  "on_stdout f \<longleftrightarrow> (case f of Some (Frame_Stdout _) \<Rightarrow> True | Some (Frame_Image _ _) \<Rightarrow> True | _ \<Rightarrow> False)"

lemma stdout_line_frame_produced:
  assumes "stdout_line_frame io scrub l fs = ((frame, err), fs')"
  obtains f where "frame = Some f" "produced scrub f" "on_stdout f" "\<not> on_stderr f"
  using assms that
  by (auto simp: stdout_line_frame_def image_part_or_oversize_error_def produced_def on_stdout_def on_stderr_def
      split: option.splits prod.splits sum.splits if_splits)

lemma stderr_line_frame_produced [simp]:
  "produced scrub (stderr_line_frame scrub l)" "on_stderr (stderr_line_frame scrub l)" "\<not> on_stdout (stderr_line_frame scrub l)"
  by (simp_all add: stderr_line_frame_def produced_def on_stderr_def on_stdout_def)

lemma complete_frame_side [simp]: "\<not> on_stderr (complete_frame oc c)" "\<not> on_stdout (complete_frame oc c)"
  by (simp_all add: complete_frame_def on_stderr_def on_stdout_def)

lemma stdout_frames_produced:
  "stdout_frames io scrub ls fs = ((frames, img), fs') \<Longrightarrow>
   list_all (produced scrub) frames \<and> list_all on_stdout frames \<and> list_all (\<lambda>f. \<not> on_stderr f) frames"
proof (induction io scrub ls fs arbitrary: frames img fs' rule: stdout_frames.induct)
  case (2 io scrub line ls fs)
  obtain frame err fs1 where a: "stdout_line_frame io scrub line fs = ((frame, err), fs1)"
    by (metis prod.collapse)
  obtain rest img2 fs2 where b: "stdout_frames io scrub ls fs1 = ((rest, img2), fs2)"
    by (metis prod.collapse)
  from stdout_line_frame_produced [OF a] obtain f where f: "frame = Some f" "produced scrub f" "on_stdout f" "\<not> on_stderr f"
    by blast
  show ?case using 2(1) [OF a [symmetric] refl b] 2(2) f by (clarsimp simp: a b)
qed simp

section \<open>The streaming loop\<close>

text \<open>With a receiver that stays, one moment sends at most one frame.\<close>

definition steady :: "pump_state \<Rightarrow> bool" where
  "steady st \<longleftrightarrow> ps_room st = None \<and> \<not> ps_gone st"

lemma pump_send_steady [simp]:
  "steady st \<Longrightarrow> pump_send f st = st\<lparr> ps_sent := ps_sent st @ [f] \<rparr>"
  by (simp add: steady_def pump_send_def)

lemma steady_upd [simp]:
  "steady (st\<lparr> ps_sent := x \<rparr>) = steady st" "steady (st\<lparr> ps_fs := y \<rparr>) = steady st"
  "steady (st\<lparr> ps_image_error := b \<rparr>) = steady st" "steady (st\<lparr> ps_aborted := b \<rparr>) = steady st"
  "steady (st\<lparr> ps_timed_out := b \<rparr>) = steady st" "steady (st\<lparr> ps_stdout_open := b \<rparr>) = steady st"
  "steady (st\<lparr> ps_stderr_open := b \<rparr>) = steady st" "steady (pump_init None fs)"
  by (simp_all add: steady_def pump_init_def)

lemma pump_init_simps [simp]:
  "ps_sent (pump_init room fs) = []" "ps_stdout_open (pump_init room fs)" "ps_stderr_open (pump_init room fs)"
  "\<not> ps_aborted (pump_init room fs)" "\<not> ps_timed_out (pump_init room fs)" "\<not> ps_image_error (pump_init room fs)"
  "ps_fs (pump_init room fs) = fs"
  by (simp_all add: pump_init_def)

lemma pump_over_steady [simp]: "steady st \<Longrightarrow> pump_over st \<longleftrightarrow> \<not> ps_stdout_open st \<and> \<not> ps_stderr_open st"
  by (simp add: pump_over_def steady_def)

lemma ends_simps [simp]:
  "ends_out (Pump_Out None)" "\<not> ends_out (Pump_Out (Some l))" "\<not> ends_out (Pump_Err x)" "\<not> ends_out Pump_Cancel"
  "\<not> ends_out Pump_Deadline" "\<not> ends_out (Pump_Files g)"
  "ends_err (Pump_Err None)" "\<not> ends_err (Pump_Err (Some l))" "\<not> ends_err (Pump_Out x)" "\<not> ends_err Pump_Cancel"
  "\<not> ends_err Pump_Deadline" "\<not> ends_err (Pump_Files g)"
  by (simp_all add: ends_out_def ends_err_def)

lemma pump_step_out:
  assumes "steady st" "ps_stdout_open st" "stdout_line_frame io scrub l (ps_fs st) = ((Some f, err), fs1)"
  shows "pump_step io scrub timeout (Pump_Out (Some l)) st =
    st\<lparr> ps_fs := fs1, ps_image_error := ps_image_error st \<or> err, ps_sent := ps_sent st @ [f] \<rparr>"
  using assms by (simp add: Let_def)

lemma pump_step_steady:
  assumes "steady st"
  shows "steady (pump_step io scrub timeout m st) \<and>
    ps_stdout_open (pump_step io scrub timeout m st) = (ps_stdout_open st \<and> \<not> ends_out m) \<and>
    ps_stderr_open (pump_step io scrub timeout m st) = (ps_stderr_open st \<and> \<not> ends_err m)"
proof (cases m)
  case (Pump_Out x)
  show ?thesis
  proof (cases x)
    case None
    with Pump_Out assms show ?thesis by simp
  next
    case (Some l)
    obtain frame err fs1 where a: "stdout_line_frame io scrub l (ps_fs st) = ((frame, err), fs1)"
      by (metis prod.collapse)
    with Some Pump_Out assms show ?thesis by (cases "ps_stdout_open st"; cases frame) (simp_all add: Let_def)
  qed
next
  case (Pump_Err x)
  with assms show ?thesis by (cases x) auto
qed (use assms in auto)

text \<open>The loop returns exactly when both pipes end.\<close>

lemma pump_loop_returns:
  "steady st \<Longrightarrow> pump_loop io scrub timeout ms st \<noteq> None \<longleftrightarrow>
   (ps_stdout_open st \<longrightarrow> list_ex ends_out ms) \<and> (ps_stderr_open st \<longrightarrow> list_ex ends_err ms)"
proof (induction ms arbitrary: st)
  case (Cons m ms)
  with pump_step_steady [OF Cons.prems, of io scrub timeout m] show ?case by auto
qed auto

lemma pump_loop_steady: "pump_loop io scrub timeout ms st = Some st' \<Longrightarrow> steady st \<Longrightarrow> steady st'"
proof (induction ms arbitrary: st)
  case (Cons m ms)
  with pump_step_steady [OF Cons.prems(2), of io scrub timeout m] show ?case by (auto split: if_splits)
qed (auto split: if_splits)

text \<open>Every frame it sends is a scrubbed line or an image; standard error is forwarded in order.\<close>

lemma pump_step_sent:
  assumes "steady st"
  obtains body where "ps_sent (pump_step io scrub timeout m st) = ps_sent st @ body" "list_all (produced scrub) body"
    and "\<And>ms. map (stderr_line_frame scrub) (if ps_stderr_open st then err_lines (m # ms) else []) =
      filter on_stderr body @ map (stderr_line_frame scrub) (if ps_stderr_open st \<and> \<not> ends_err m then err_lines ms else [])"
proof (cases m)
  case (Pump_Out x)
  show ?thesis
  proof (cases x)
    case None
    with Pump_Out assms show ?thesis by (intro that [of "[]"]) simp_all
  next
    case (Some l)
    obtain frame err fs1 where a: "stdout_line_frame io scrub l (ps_fs st) = ((frame, err), fs1)"
      by (metis prod.collapse)
    from stdout_line_frame_produced [OF a] obtain f where f: "frame = Some f" "produced scrub f" "\<not> on_stderr f" by blast
    show ?thesis
    proof (cases "ps_stdout_open st")
      case True
      with pump_step_out [OF assms True a [unfolded f]] f Some Pump_Out show ?thesis by (intro that [of "[f]"]) simp_all
    next
      case False
      with Some Pump_Out show ?thesis by (intro that [of "[]"]) simp_all
    qed
  qed
next
  case (Pump_Err x)
  show ?thesis
  proof (cases x)
    case None
    with Pump_Err assms show ?thesis by (intro that [of "[]"]) simp_all
  next
    case (Some l)
    with Pump_Err assms show ?thesis
      by (intro that [of "if ps_stderr_open st then [stderr_line_frame scrub l] else []"]) simp_all
  qed
qed (intro that [of "[]"]; use assms in simp)+

lemma pump_loop_sent:
  assumes "pump_loop io scrub timeout ms st = Some st'" "steady st"
  shows "\<exists>body. ps_sent st' = ps_sent st @ body \<and> list_all (produced scrub) body \<and>
    filter on_stderr body = map (stderr_line_frame scrub) (if ps_stderr_open st then err_lines ms else [])"
  using assms
proof (induction ms arbitrary: st)
  case Nil
  then show ?case by (auto split: if_splits)
next
  case (Cons m ms)
  show ?case
  proof (cases "pump_over st")
    case True
    with Cons.prems show ?thesis by auto
  next
    case False
    note step = pump_step_steady [OF Cons.prems(2), of io scrub timeout m]
    from False Cons.prems(1) have "pump_loop io scrub timeout ms (pump_step io scrub timeout m st) = Some st'" by simp
    from Cons.IH [OF this] step obtain later where later: "ps_sent st' = ps_sent (pump_step io scrub timeout m st) @ later"
      "list_all (produced scrub) later"
      "filter on_stderr later = map (stderr_line_frame scrub) (if ps_stderr_open st \<and> \<not> ends_err m then err_lines ms else [])"
      by auto
    from pump_step_sent [OF Cons.prems(2), of io scrub timeout m] obtain body where body:
      "ps_sent (pump_step io scrub timeout m st) = ps_sent st @ body" "list_all (produced scrub) body"
      "\<And>ms. map (stderr_line_frame scrub) (if ps_stderr_open st then err_lines (m # ms) else []) =
        filter on_stderr body @ map (stderr_line_frame scrub) (if ps_stderr_open st \<and> \<not> ends_err m then err_lines ms else [])"
      by blast
    show ?thesis using later body by (intro exI [of _ "body @ later"]) (simp del: err_lines.simps)
  qed
qed

text \<open>The first of the token and the deadline aborts the run.\<close>

lemma pump_step_abort:
  assumes "steady st"
  shows "ps_aborted (pump_step io scrub timeout m st) = (ps_aborted st \<or> abort_of timeout [m] \<noteq> None) \<and>
    ps_timed_out (pump_step io scrub timeout m st) =
      (ps_timed_out st \<or> \<not> ps_aborted st \<and> abort_of timeout [m] = Some Aborted_Deadline)"
proof (cases m)
  case (Pump_Out x)
  show ?thesis
  proof (cases x)
    case (Some l)
    obtain frame err fs1 where a: "stdout_line_frame io scrub l (ps_fs st) = ((frame, err), fs1)"
      by (metis prod.collapse)
    with Some Pump_Out assms show ?thesis by (cases "ps_stdout_open st"; cases frame) (simp_all add: Let_def)
  qed (use Pump_Out in simp)
next
  case (Pump_Err x)
  with assms show ?thesis by (cases x) auto
qed auto

lemma abort_of_Cons: "abort_of timeout (m # ms) = (case abort_of timeout [m] of Some a \<Rightarrow> Some a | None \<Rightarrow> abort_of timeout ms)"
  by (cases m) auto

lemma pump_loop_abort:
  assumes "pump_loop io scrub timeout ms st = Some st'" "steady st"
  defines "a \<equiv> abort_of timeout (live_moments (ps_stdout_open st) (ps_stderr_open st) ms)"
  shows "ps_aborted st' = (ps_aborted st \<or> a \<noteq> None) \<and>
    ps_timed_out st' = (ps_timed_out st \<or> \<not> ps_aborted st \<and> a = Some Aborted_Deadline)"
  using assms(1,2) unfolding a_def
proof (induction ms arbitrary: st)
  case Nil
  then show ?case by (auto split: if_splits)
next
  case (Cons m ms)
  show ?case
  proof (cases "pump_over st")
    case True
    with Cons.prems show ?thesis by auto
  next
    case False
    note step = pump_step_steady [OF Cons.prems(2), of io scrub timeout m] pump_step_abort [OF Cons.prems(2), of io scrub timeout m]
    from False Cons.prems(1) have "pump_loop io scrub timeout ms (pump_step io scrub timeout m st) = Some st'" by simp
    note IH = Cons.IH [OF this conjunct1 [OF step(1)]]
    have live: "live_moments (ps_stdout_open st) (ps_stderr_open st) (m # ms) =
        m # live_moments (ps_stdout_open (pump_step io scrub timeout m st)) (ps_stderr_open (pump_step io scrub timeout m st)) ms"
      using False Cons.prems(2) step(1) by simp
    show ?thesis
      using IH step(2) abort_of_Cons [of timeout m "live_moments (ps_stdout_open (pump_step io scrub timeout m st))
        (ps_stderr_open (pump_step io scrub timeout m st)) ms"] unfolding live
      by (cases "abort_of timeout [m]"; cases "ps_aborted st") simp_all
  qed
qed

text \<open>Standard output is the frames of its lines, when the child leaves the files alone.\<close>

definition keeps_files :: "pump \<Rightarrow> bool" where
  "keeps_files m \<longleftrightarrow> (case m of Pump_Files _ \<Rightarrow> False | _ \<Rightarrow> True)"

lemma pump_step_other:
  assumes "steady st" "keeps_files m" "\<And>x. m \<noteq> Pump_Out x"
  shows "out_lines (m # ms) = out_lines ms \<and> \<not> ends_out m \<and>
    filter on_stdout (ps_sent (pump_step io scrub timeout m st)) = filter on_stdout (ps_sent st) \<and>
    ps_image_error (pump_step io scrub timeout m st) = ps_image_error st \<and>
    ps_fs (pump_step io scrub timeout m st) = ps_fs st"
proof (cases m)
  case (Pump_Err x)
  with assms show ?thesis by (cases x) simp_all
qed (use assms in \<open>simp_all add: keeps_files_def\<close>)

lemma pump_loop_stdout:
  assumes "pump_loop io scrub timeout ms st = Some st'" "steady st" "list_all keeps_files ms"
    and "stdout_frames io scrub (if ps_stdout_open st then out_lines ms else []) (ps_fs st) = ((frames, img), fs1)"
  shows "filter on_stdout (ps_sent st') = filter on_stdout (ps_sent st) @ frames \<and>
    ps_image_error st' = (ps_image_error st \<or> img) \<and> ps_fs st' = fs1"
  using assms
proof (induction ms arbitrary: st frames img)
  case Nil
  then show ?case by (auto split: if_splits)
next
  case (Cons m ms)
  show ?case
  proof (cases "pump_over st")
    case True
    with Cons.prems show ?thesis by auto
  next
    case False
    let ?st = "pump_step io scrub timeout m st"
    from False Cons.prems(1) have run: "pump_loop io scrub timeout ms ?st = Some st'" by simp
    note step = pump_step_steady [OF Cons.prems(2), of io scrub timeout m]
    have keeps: "list_all keeps_files ms" "keeps_files m" using Cons.prems(3) by simp_all
    note IH = Cons.IH [OF run _ keeps(1)]
    show ?thesis
    proof (cases m)
      case (Pump_Out x)
      show ?thesis
      proof (cases x)
        case None
        with Pump_Out Cons.prems(2,4) IH step show ?thesis by (cases "ps_stdout_open st") auto
      next
        case (Some l)
        show ?thesis
        proof (cases "ps_stdout_open st")
          case False
          with Some Pump_Out Cons.prems(2,4) IH show ?thesis by simp
        next
          case True
          obtain frame err fs2 where a: "stdout_line_frame io scrub l (ps_fs st) = ((frame, err), fs2)"
            by (metis prod.collapse)
          from stdout_line_frame_produced [OF a] obtain f where f: "frame = Some f" "on_stdout f" by blast
          obtain rest img2 fs3 where b: "stdout_frames io scrub (out_lines ms) fs2 = ((rest, img2), fs3)"
            by (metis prod.collapse)
          note out = pump_step_out [OF Cons.prems(2) True a [unfolded f], where timeout = timeout]
          have "frames = f # rest" "img = (err \<or> img2)" "fs1 = fs3"
            using Cons.prems(4) True Some Pump_Out a b f by auto
          with IH [of rest img2] step out b True Some Pump_Out f show ?thesis by auto
        qed
      qed
    qed (use pump_step_other [OF Cons.prems(2) keeps(2), of ms io scrub timeout] Cons.prems(4) IH step in \<open>simp_all add: split: if_splits\<close>)
  qed
qed

section \<open>The two producers\<close>

lemma stream_frames_run:
  assumes "pump_loop io scrub timeout ms (pump_init None fs) = Some st"
  shows "steady st"
    and "stream_frames io scrub timeout None (Inr (ms, status)) fs =
      Some (ps_sent (pump_finish scrub timeout status st), ps_fs (pump_finish scrub timeout status st))"
proof -
  show "steady st" using pump_loop_steady [OF assms] by simp
  then show "stream_frames io scrub timeout None (Inr (ms, status)) fs =
      Some (ps_sent (pump_finish scrub timeout status st), ps_fs (pump_finish scrub timeout status st))"
    by (simp add: stream_frames_def assms steady_def Let_def)
qed


definition unlines :: "string list \<Rightarrow> string" where
  "unlines ls = concat (map (\<lambda>l. l @ [newline]) ls)"

lemma split_unlines: "list_all (\<lambda>l. newline \<notin> set l) ls \<Longrightarrow> split_char newline (unlines ls) = ls @ [[]]"
  by (induction ls) (simp_all add: unlines_def split_char_append_sep)

lemma split_terminated_unlines: "list_all (\<lambda>l. newline \<notin> set l) ls \<Longrightarrow> split_terminated newline (unlines ls) = ls"
  by (simp add: split_terminated_def split_unlines)



section \<open>Supervision\<close>

text \<open>
  The buffered supervisor returns when its pipes close. With a deadline or a token the
  child itself is dead by then, and the result says which of the three ended it.
\<close>

lemma supervised_result:
  assumes "run_supervised_child spawn cmd cancel timeout fs = Some (Inr r, fs')"
  obtains c where "spawn cmd = Inr c"
    and "case race_of cancel timeout (ch_exit_at c) of
        Cancel_Won t \<Rightarrow> ch_eof c (Some t) \<noteq> None \<and> cr_exit_code r = -1 \<and> cr_signal r \<noteq> None \<and>
          cr_stdout r = utf8_lossy (ch_stdout c (Some t))
      | Deadline_Won t \<Rightarrow> ch_eof c (Some t) \<noteq> None \<and> cr_exit_code r = -1 \<and> cr_signal r = None \<and>
          cr_stdout r = [] \<and> cr_stderr r = timed_out_text timeout
      | Exit_Won \<Rightarrow> (\<exists>status. ch_status c = Inr status \<and> ch_eof c None \<noteq> None \<and> cr_signal r = es_signal status \<and>
          cr_exit_code r = (case es_code status of Some code \<Rightarrow> code | None \<Rightarrow> -1) \<and>
          cr_stdout r = utf8_lossy (ch_stdout c None))
      | Nothing_Wins \<Rightarrow> False"
  using assms that
  by (auto simp: run_supervised_child_def Let_def split: sum.splits race.splits if_splits option.splits)

lemma race_of_deadline: "timeout = Some d \<Longrightarrow> race_of cancel timeout exit_at \<noteq> Nothing_Wins"
  by (cases cancel; cases exit_at) (auto simp: race_of_def)

text \<open>
  A deadline kills the child, not what the child has started: a descendant that holds the
  pipe keeps the call from returning.
\<close>

lemma deadline_does_not_bound_call:
  "\<exists>c. ch_exit_at c = Some 0 \<and> run_supervised_child (\<lambda>_. Inr c) cmd None (Some 60) fs = None"
proof -
  let ?c = "\<lparr> ch_exit_at = Some 0, ch_status = Inr \<lparr> es_code = Some 0, es_signal = None \<rparr>, ch_stdout = (\<lambda>_. []),
    ch_stderr = (\<lambda>_. []), ch_eof = (\<lambda>_. None), ch_effect = (\<lambda>_ x. x), ch_reaped = None \<rparr>"
  show ?thesis by (rule exI [of _ ?c]) (simp add: run_supervised_child_def race_of_def)
qed

end
