(* ===== verification/Toolset_Stdlib.thy ===== *)
theory Toolset_Stdlib
  imports Toolset_Exec Ordered_Map
begin

text \<open>
  The builtin tools of the standard toolset, \<^verbatim>\<open>toolset-runtime/src/stdlib.rs\<close>, and the
  declarations they are built from, \<^verbatim>\<open>images/toolset/tools.yaml\<close> with \<^verbatim>\<open>build.rs\<close>. The
  processes, ripgrep and the lower-casing of Unicode text are arguments. \<open>None\<close> is a call
  that does not answer: a panic, or a child that does not end.
\<close>

section \<open>The declarations\<close>

definition tools_yaml :: "(string \<times> string) list" where
  "tools_yaml = [
      (''tool.Shell.description'', ''Run a shell command and return stdout, stderr, exit code.''),
      (''tool.Shell.arg.command.type'', ''string''),
      (''tool.Shell.arg.command.required'', ''true''),
      (''tool.Shell.arg.command.env'', ''command''),
      (''tool.Shell.arg.command.description'', ''Shell command to execute under sh -c.''),
      (''tool.Shell.arg.timeout.type'', ''integer''),
      (''tool.Shell.arg.timeout.required'', ''false''),
      (''tool.Shell.arg.timeout.env'', ''timeout''),
      (''tool.Shell.arg.timeout.description'', ''Foreground timeout in seconds (default 60, hard cap 600).''),
      (''tool.Shell.arg.workdir.type'', ''string''),
      (''tool.Shell.arg.workdir.required'', ''false''),
      (''tool.Shell.arg.workdir.env'', ''workdir''),
      (''tool.Shell.arg.workdir.description'', ''Working directory override (default workspace cwd).''),
      (''tool.Read.description'', ''Read a text file, line-numbered LINE|CONTENT per row. 1 MiB hard cap.''),
      (''tool.Read.arg.file_path.type'', ''string''),
      (''tool.Read.arg.file_path.required'', ''true''),
      (''tool.Read.arg.file_path.env'', ''path''),
      (''tool.Read.arg.file_path.description'', ''File path.''),
      (''tool.Read.arg.offset.type'', ''integer''),
      (''tool.Read.arg.offset.required'', ''false''),
      (''tool.Read.arg.offset.env'', ''offset''),
      (''tool.Read.arg.offset.description'', ''1-indexed starting line (default 1).''),
      (''tool.Read.arg.limit.type'', ''integer''),
      (''tool.Read.arg.limit.required'', ''false''),
      (''tool.Read.arg.limit.env'', ''limit''),
      (''tool.Read.arg.limit.description'', ''Max lines to return (default unlimited).''),
      (''tool.Write.description'', ''Write content to a file, full overwrite. Parent directories auto-created.''),
      (''tool.Write.arg.file_path.type'', ''string''),
      (''tool.Write.arg.file_path.required'', ''true''),
      (''tool.Write.arg.file_path.env'', ''path''),
      (''tool.Write.arg.file_path.description'', ''File path.''),
      (''tool.Write.arg.content.type'', ''string''),
      (''tool.Write.arg.content.required'', ''true''),
      (''tool.Write.arg.content.env'', ''content''),
      (''tool.Write.arg.content.description'', ''Content to write.''),
      (''tool.Edit.description'', ''Replace exact unique substring in a file. Errors on 0 or >1 matches.''),
      (''tool.Edit.arg.file_path.type'', ''string''),
      (''tool.Edit.arg.file_path.required'', ''true''),
      (''tool.Edit.arg.file_path.env'', ''path''),
      (''tool.Edit.arg.file_path.description'', ''File path.''),
      (''tool.Edit.arg.old_string.type'', ''string''),
      (''tool.Edit.arg.old_string.required'', ''true''),
      (''tool.Edit.arg.old_string.env'', ''old_string''),
      (''tool.Edit.arg.old_string.description'', ''Substring to find (must appear exactly once).''),
      (''tool.Edit.arg.new_string.type'', ''string''),
      (''tool.Edit.arg.new_string.required'', ''true''),
      (''tool.Edit.arg.new_string.env'', ''new_string''),
      (''tool.Edit.arg.new_string.description'', ''Replacement substring.''),
      (''tool.Search.description'', ''Search files (target=files lists; target=content greps). Ripgrep-backed.''),
      (''tool.Search.arg.target.type'', ''string''),
      (''tool.Search.arg.target.required'', ''true''),
      (''tool.Search.arg.target.env'', ''target''),
      (''tool.Search.arg.target.description'', [CHR 0x22] @ ''content'' @ [CHR 0x22] @ '' greps inside files; '' @ [CHR 0x22] @ ''files'' @ [CHR 0x22] @ '' lists files by basename substring.''),
      (''tool.Search.arg.pattern.type'', ''string''),
      (''tool.Search.arg.pattern.required'', ''true''),
      (''tool.Search.arg.pattern.env'', ''pattern''),
      (''tool.Search.arg.pattern.description'', ''Regex (content) or case-insensitive basename substring (files; empty lists all).''),
      (''tool.Search.arg.root.type'', ''string''),
      (''tool.Search.arg.root.required'', ''false''),
      (''tool.Search.arg.root.env'', ''path''),
      (''tool.Search.arg.root.description'', ''Root path (default workspace cwd).''),
      (''tool.Search.arg.glob.type'', ''string''),
      (''tool.Search.arg.glob.required'', ''false''),
      (''tool.Search.arg.glob.env'', ''glob''),
      (''tool.Search.arg.glob.description'', ''Optional path glob filter.''),
      (''tool.Search.arg.limit.type'', ''integer''),
      (''tool.Search.arg.limit.required'', ''false''),
      (''tool.Search.arg.limit.env'', ''limit''),
      (''tool.Search.arg.limit.description'', ''Max results (default 50; offset+limit <= 1000).''),
      (''tool.Search.arg.offset.type'', ''integer''),
      (''tool.Search.arg.offset.required'', ''false''),
      (''tool.Search.arg.offset.env'', ''offset''),
      (''tool.Search.arg.offset.description'', ''Skip first N results (default 0).'')]"

definition builtin_names :: "string list \<Rightarrow> string list" where
  "builtin_names keys =
     map fst (foldl (\<lambda>names k.
         case Option.bind (strip_prefix ''tool.'' k) (split_once CHR ''.'') of
           Some (name, _) \<Rightarrow> bt_insert name () names
         | None \<Rightarrow> names) [] keys)"

definition BUILTIN_NAMES :: "string list" where
  "BUILTIN_NAMES = builtin_names (map fst tools_yaml)"

section \<open>Arguments and results\<close>

definition DEFAULT_MAX_OUTPUT_CHARS :: nat where "DEFAULT_MAX_OUTPUT_CHARS = 30000"
definition MIN_SHELL_TIMEOUT_SECS :: nat where "MIN_SHELL_TIMEOUT_SECS = 1"
definition DEFAULT_SHELL_TIMEOUT_SECS :: nat where "DEFAULT_SHELL_TIMEOUT_SECS = 60"
definition MAX_SHELL_TIMEOUT_SECS :: nat where "MAX_SHELL_TIMEOUT_SECS = 600"
definition READ_FILE_CAP_BYTES :: nat where "READ_FILE_CAP_BYTES = 1048576"
definition SEARCH_MAX_PAGE :: nat where "SEARCH_MAX_PAGE = 1000"
definition SEARCH_DEFAULT_LIMIT :: nat where "SEARCH_DEFAULT_LIMIT = 50"
definition SEARCH_MAX_COUNT_PER_FILE :: string where "SEARCH_MAX_COUNT_PER_FILE = ''100''"

type_synonym args = "string \<Rightarrow> string option"

definition ok_result :: "string \<Rightarrow> command_result" where
  "ok_result out = \<lparr> cr_stdout = out, cr_stderr = [], cr_exit_code = 0, cr_signal = None \<rparr>"

definition error_result :: "string \<Rightarrow> command_result" where
  "error_result err = \<lparr> cr_stdout = [], cr_stderr = err, cr_exit_code = 1, cr_signal = None \<rparr>"

definition require :: "args \<Rightarrow> string \<Rightarrow> command_result + string" where
  "require args key = ok_or (error_result (''missing required parameter: '' @ key)) (args key)"

text \<open>\<^verbatim>\<open>u64\<close> and \<^verbatim>\<open>usize\<close> are both 64 bits wide.\<close>

abbreviation u64_max :: nat where
  "u64_max \<equiv> 2 ^ 64 - 1"

definition parse_optional_u64 :: "args \<Rightarrow> string \<Rightarrow> nat \<Rightarrow> nat" where
  "parse_optional_u64 args key dflt =
     (case Option.bind (args key) (parse_unsigned u64_max) of Some n \<Rightarrow> n | None \<Rightarrow> dflt)"

definition parse_optional_usize :: "args \<Rightarrow> string \<Rightarrow> nat \<Rightarrow> nat" where
  "parse_optional_usize args key dflt =
     (case Option.bind (args key) (parse_unsigned u64_max) of Some n \<Rightarrow> n | None \<Rightarrow> dflt)"

definition failed_to_read :: "string \<Rightarrow> io_error \<Rightarrow> command_result" where
  "failed_to_read path e = error_result (''failed to read '' @ path @ '': '' @ io_text e)"

definition check_size_cap :: "fs_faults \<Rightarrow> string \<Rightarrow> pod_fs \<Rightarrow> command_result + unit" where
  "check_size_cap io path fs =
     and_then (map_err (failed_to_read path) (fs_stat io path fs)) (\<lambda>len.
       if len > READ_FILE_CAP_BYTES then
         Inl (error_result (''file too large: '' @ nat_string len @ '' bytes exceeds '' @ nat_string READ_FILE_CAP_BYTES @ '' byte cap''))
       else Inr ())"

definition result_of :: "command_result + command_result \<Rightarrow> command_result" where
  "result_of r = (case r of Inl e \<Rightarrow> e | Inr v \<Rightarrow> v)"

section \<open>Shell\<close>

record builtin_env =
  be_io :: fs_faults
  be_spawn :: "command \<Rightarrow> string + child"
  be_cancel :: "nat option"
  be_rg :: "command \<Rightarrow> string + int option \<times> string \<times> string"
  be_lower :: "string \<Rightarrow> string"

definition shell_command :: "args \<Rightarrow> string \<Rightarrow> string \<Rightarrow> command" where
  "shell_command args working_dir command =
     \<lparr> cmd_program = ''sh'', cmd_args = [''-c'', command], cmd_env = Map.empty,
       cmd_dir = Some (case args ''workdir'' of Some d \<Rightarrow> d | None \<Rightarrow> working_dir) \<rparr>"

definition shell_timeout :: "args \<Rightarrow> nat" where
  "shell_timeout args =
     max MIN_SHELL_TIMEOUT_SECS
       (min (parse_optional_u64 args ''timeout'' DEFAULT_SHELL_TIMEOUT_SECS) MAX_SHELL_TIMEOUT_SECS)"

definition execute_shell ::
  "builtin_env \<Rightarrow> args \<Rightarrow> string \<Rightarrow> pod_fs \<Rightarrow> (command_result \<times> pod_fs) option" where
  "execute_shell env args working_dir fs =
     (case require args ''command'' of
        Inl e \<Rightarrow> Some (e, fs)
      | Inr command \<Rightarrow>
          map_option (\<lambda>(r, fs1).
              (case r of Inr result \<Rightarrow> result | Inl e \<Rightarrow> error_result (''failed to execute command: '' @ e), fs1))
            (run_supervised_child (be_spawn env) (shell_command args working_dir command) (be_cancel env)
              (Some (shell_timeout args)) fs))"

section \<open>Read, Write and Edit\<close>

fun read_loop :: "nat \<Rightarrow> nat \<Rightarrow> nat \<Rightarrow> nat \<Rightarrow> string list \<Rightarrow> string" where
  "read_loop idx offset limit included [] = []"
| "read_loop idx offset limit included (line # ls) =
     (let lineno = idx + 1 in
      if lineno < offset then read_loop (idx + 1) offset limit included ls
      else if included \<ge> limit then []
      else nat_string lineno @ ''|'' @ line @ [newline] @ read_loop (idx + 1) offset limit (included + 1) ls)"

definition execute_read :: "fs_faults \<Rightarrow> args \<Rightarrow> pod_fs \<Rightarrow> command_result" where
  "execute_read io args fs =
     result_of (and_then (require args ''path'') (\<lambda>path.
       let offset = max (parse_optional_usize args ''offset'' 1) 1;
           limit = parse_optional_usize args ''limit'' u64_max in
       and_then (check_size_cap io path fs) (\<lambda>_.
       and_then (map_err (failed_to_read path) (read_to_string io path fs)) (\<lambda>content.
       Inr (ok_result (read_loop 0 offset limit 0 (lines content)))))))"

definition execute_write :: "fs_faults \<Rightarrow> args \<Rightarrow> pod_fs \<Rightarrow> command_result \<times> pod_fs" where
  "execute_write io args fs =
     (case and_then (require args ''path'') (\<lambda>path.
           and_then (require args ''content'') (\<lambda>content.
           and_then (case path_parent path of
               Some parent \<Rightarrow>
                 if parent = [] then Inr ()
                 else map_err (\<lambda>e. error_result (''failed to create parents for '' @ path @ '': '' @ e)) (create_dir_all io parent)
             | None \<Rightarrow> Inr ()) (\<lambda>_. Inr (path, content)))) of
        Inl e \<Rightarrow> (e, fs)
      | Inr (path, text) \<Rightarrow>
          (case fs_write io path text fs of
             (Inr _, fs1) \<Rightarrow> (ok_result (''wrote '' @ nat_string (length text) @ '' bytes to '' @ path), fs1)
           | (Inl e, fs1) \<Rightarrow> (error_result (''failed to write '' @ path @ '': '' @ e), fs1)))"

text \<open>\<^verbatim>\<open>matches(..).count()\<close> and \<^verbatim>\<open>replacen(.., 1)\<close>; the empty pattern matches at every boundary.\<close>

definition count_matches :: "string \<Rightarrow> string \<Rightarrow> nat" where
  "count_matches p s = (if p = [] then chars_count s + 1 else matches_count p s)"

definition replacen_1 :: "string \<Rightarrow> string \<Rightarrow> string \<Rightarrow> string" where
  "replacen_1 p t s = (if p = [] then t @ s else replace_first p t s)"

definition edit_plan :: "fs_faults \<Rightarrow> args \<Rightarrow> pod_fs \<Rightarrow> command_result + string \<times> string" where
  "edit_plan io args fs =
     and_then (require args ''path'') (\<lambda>path.
     and_then (require args ''old_string'') (\<lambda>old_string.
     and_then (require args ''new_string'') (\<lambda>new_string.
     and_then (ensure (old_string \<noteq> new_string) (error_result ''old_string and new_string are identical'')) (\<lambda>_.
     and_then (check_size_cap io path fs) (\<lambda>_.
     and_then (map_err (failed_to_read path) (read_to_string io path fs)) (\<lambda>content.
     let n = count_matches old_string content in
     and_then (ensure (n \<noteq> 0) (error_result (''old_string not found in '' @ path))) (\<lambda>_.
     and_then (ensure (\<not> n > 1) (error_result
         (''old_string matches '' @ nat_string n @ '' locations in '' @ path @ ''; must be unique''))) (\<lambda>_.
     Inr (path, replacen_1 old_string new_string content)))))))))"

definition execute_edit :: "fs_faults \<Rightarrow> args \<Rightarrow> pod_fs \<Rightarrow> command_result \<times> pod_fs" where
  "execute_edit io args fs =
     (case edit_plan io args fs of
        Inl e \<Rightarrow> (e, fs)
      | Inr (path, updated) \<Rightarrow>
          (case fs_write io path updated fs of
             (Inr _, fs1) \<Rightarrow> (ok_result (''edited '' @ path), fs1)
           | (Inl e, fs1) \<Rightarrow> (error_result (''failed to write '' @ path @ '': '' @ e), fs1)))"

section \<open>Search\<close>

datatype search_target = Search_Content | Search_Files

record search_plan =
  sp_target :: search_target
  sp_pattern :: string
  sp_path :: string
  sp_glob :: "string option"
  sp_limit :: nat
  sp_offset :: nat

definition search_args :: "args \<Rightarrow> string \<Rightarrow> command_result + search_plan" where
  "search_args args working_dir =
     and_then (require args ''target'') (\<lambda>target_raw.
     and_then (if target_raw = ''content'' then Inr Search_Content
               else if target_raw = ''files'' then Inr Search_Files
               else Inl (error_result (''target must be '' @ [CHR 0x27] @ ''content'' @ [CHR 0x27] @ '' or '' @ [CHR 0x27] @ ''files'' @
                 [CHR 0x27] @ '', got '' @ [CHR 0x27] @ target_raw @ [CHR 0x27]))) (\<lambda>target.
     and_then (require args ''pattern'') (\<lambda>pattern.
     and_then (ensure (\<not> (target = Search_Content \<and> pattern = [])) (error_result ''pattern cannot be empty for content search'')) (\<lambda>_.
     let limit = parse_optional_usize args ''limit'' SEARCH_DEFAULT_LIMIT;
         offset = parse_optional_usize args ''offset'' 0;
         page = min (offset + limit) u64_max in
     and_then (ensure (\<not> page > SEARCH_MAX_PAGE) (error_result
         (''offset + limit ('' @ nat_string page @ '') exceeds '' @ nat_string SEARCH_MAX_PAGE @ '' cap''))) (\<lambda>_.
     Inr \<lparr> sp_target = target, sp_pattern = pattern,
           sp_path = (case args ''path'' of Some p \<Rightarrow> p | None \<Rightarrow> working_dir),
           sp_glob = args ''glob'', sp_limit = limit, sp_offset = offset \<rparr>)))))"

definition search_command :: "search_plan \<Rightarrow> command" where
  "search_command p =
     \<lparr> cmd_program = ''rg'',
       cmd_args = [''--no-follow'', ''--no-ignore''] @ (case sp_glob p of Some g \<Rightarrow> [''--glob'', g] | None \<Rightarrow> []) @
         (case sp_target p of
            Search_Files \<Rightarrow> [''--files'', ''--'', sp_path p]
          | Search_Content \<Rightarrow> [''--max-count'', SEARCH_MAX_COUNT_PER_FILE, ''--'', sp_pattern p, sp_path p]),
       cmd_env = Map.empty, cmd_dir = None \<rparr>"

text \<open>\<^verbatim>\<open>Path::file_name\<close> of a listed path, lower-cased, contains the pattern.\<close>

definition name_matches :: "(string \<Rightarrow> string) \<Rightarrow> string \<Rightarrow> string \<Rightarrow> bool" where
  "name_matches lower pattern p =
     (case file_name p of Some s \<Rightarrow> contains_str (lower s) (lower pattern) | None \<Rightarrow> False)"

definition search_page :: "(string \<Rightarrow> string) \<Rightarrow> search_plan \<Rightarrow> string list \<Rightarrow> string list" where
  "search_page lower p ls =
     take (sp_limit p) (drop (sp_offset p)
       (if sp_target p = Search_Files \<and> sp_pattern p \<noteq> [] then filter (name_matches lower (sp_pattern p)) ls else ls))"

definition execute_search :: "builtin_env \<Rightarrow> args \<Rightarrow> string \<Rightarrow> command_result" where
  "execute_search env args working_dir =
     result_of (and_then (search_args args working_dir) (\<lambda>p.
       case be_rg env (search_command p) of
         Inl e \<Rightarrow> Inl (error_result (''failed to invoke rg: '' @ e))
       | Inr (code, out, err) \<Rightarrow>
           let exit = (case code of Some c \<Rightarrow> c | None \<Rightarrow> -1) in
           if exit = 1 then Inr (ok_result [])
           else if exit \<noteq> 0 then
             Inr \<lparr> cr_stdout = utf8_lossy out, cr_stderr = utf8_lossy err, cr_exit_code = exit, cr_signal = None \<rparr>
           else Inr (ok_result (join [newline] (search_page (be_lower env) p (lines (utf8_lossy out)))))))"

section \<open>Truncation and dispatch\<close>

text \<open>A slice \<^verbatim>\<open>&s[..n]\<close> or \<^verbatim>\<open>&s[n..]\<close> panics off a character boundary.\<close>

definition slice_to :: "string \<Rightarrow> nat \<Rightarrow> string option" where
  "slice_to s n = (if is_char_boundary s n then Some (take n s) else None)"

definition slice_from :: "string \<Rightarrow> nat \<Rightarrow> string option" where
  "slice_from s n = (if is_char_boundary s n then Some (drop n s) else None)"

definition truncation_marker :: "string \<Rightarrow> string" where
  "truncation_marker n = [newline] @ ''[...truncated '' @ n @ '' characters...]'' @ [newline]"

definition truncate_middle :: "string \<Rightarrow> nat \<Rightarrow> string option" where
  "truncate_middle output max_chars =
     (if length output \<le> max_chars then Some output
      else
        let digit_count = length (nat_string (length output - max_chars));
            marker_len = length (truncation_marker ''0'') - 1 + digit_count in
        if max_chars \<le> marker_len then slice_to output max_chars
        else
          let available = max_chars - marker_len;
              head_len = available * 2 div 5;
              tail_len = available - head_len in
          Option.bind (slice_to output head_len) (\<lambda>head.
          Option.bind (slice_from output (length output - tail_len)) (\<lambda>tail.
          let truncated = length output - head_len - tail_len in
          Some (head @ truncation_marker (nat_string truncated) @ tail))))"

definition builtin_result ::
  "builtin_env \<Rightarrow> string \<Rightarrow> args \<Rightarrow> string \<Rightarrow> pod_fs \<Rightarrow> (command_result \<times> pod_fs) option" where
  "builtin_result env name args working_dir fs =
     (if name = ''Shell'' then execute_shell env args working_dir fs
      else if name = ''Read'' then Some (execute_read (be_io env) args fs, fs)
      else if name = ''Write'' then Some (execute_write (be_io env) args fs)
      else if name = ''Edit'' then Some (execute_edit (be_io env) args fs)
      else if name = ''Search'' then Some (execute_search env args working_dir, fs)
      else Some (error_result (''unknown builtin: '' @ name), fs))"

definition dispatch_builtin ::
  "builtin_env \<Rightarrow> string \<Rightarrow> args \<Rightarrow> string \<Rightarrow> nat \<Rightarrow> pod_fs \<Rightarrow> (command_result \<times> pod_fs) option" where
  "dispatch_builtin env name args working_dir max_output_chars fs =
     Option.bind (builtin_result env name args working_dir fs) (\<lambda>(result, fs1).
     Option.bind (truncate_middle (cr_stdout result) max_output_chars) (\<lambda>out.
     Option.bind (truncate_middle (cr_stderr result) max_output_chars) (\<lambda>err.
     Some (result\<lparr> cr_stdout := out, cr_stderr := err \<rparr>, fs1))))"

section \<open>Declared and read\<close>

definition declared_env :: "string \<Rightarrow> string list" where
  "declared_env name =
     map snd (filter (\<lambda>(k, _). starts_with k (''tool.'' @ name @ ''.arg.'') \<and> ends_with k ''.env'') tools_yaml)"

lemma BUILTIN_NAMES_are: "BUILTIN_NAMES = [''Edit'', ''Read'', ''Search'', ''Shell'', ''Write'']"
  by code_simp

lemma declared_env_are:
  "declared_env ''Shell'' = [''command'', ''timeout'', ''workdir'']"
  "declared_env ''Read'' = [''path'', ''offset'', ''limit'']"
  "declared_env ''Write'' = [''path'', ''content'']"
  "declared_env ''Edit'' = [''path'', ''old_string'', ''new_string'']"
  "declared_env ''Search'' = [''target'', ''pattern'', ''path'', ''glob'', ''limit'', ''offset'']"
  by code_simp+

lemma builtin_result_cong:
  assumes "name \<in> set BUILTIN_NAMES" "\<And>k. k \<in> set (declared_env name) \<Longrightarrow> args k = args' k"
  shows "builtin_result env name args working_dir fs = builtin_result env name args' working_dir fs"
proof -
  from assms(1) consider "name = ''Edit''" | "name = ''Read''" | "name = ''Search''" | "name = ''Shell''" | "name = ''Write''"
    by (auto simp: BUILTIN_NAMES_are)
  then show ?thesis
  proof cases
    case 1
    with assms(2) show ?thesis by (simp add: builtin_result_def declared_env_are execute_edit_def edit_plan_def require_def)
  next
    case 2
    with assms(2) show ?thesis
      by (simp add: builtin_result_def declared_env_are execute_read_def require_def parse_optional_usize_def)
  next
    case 3
    with assms(2) show ?thesis
      by (simp add: builtin_result_def declared_env_are execute_search_def search_args_def require_def parse_optional_usize_def)
  next
    case 4
    with assms(2) have "require args ''command'' = require args' ''command''" "shell_timeout args = shell_timeout args'"
      "shell_command args working_dir = shell_command args' working_dir"
      by (simp_all add: declared_env_are shell_command_def shell_timeout_def require_def parse_optional_u64_def fun_eq_iff)
    with 4 show ?thesis
      by (cases "require args' ''command''") (simp_all add: builtin_result_def execute_shell_def)
  next
    case 5
    with assms(2) show ?thesis by (simp add: builtin_result_def declared_env_are execute_write_def require_def)
  qed
qed

section \<open>Reading\<close>

text \<open>The window of numbered lines that Read returns.\<close>

lemma read_loop_window:
  assumes "1 \<le> offset"
  shows "read_loop idx offset limit included ls =
    concat (map (\<lambda>(n, l). nat_string n @ ''|'' @ l @ [newline])
      (take (limit - included) (drop (offset - 1 - idx) (List.enumerate (idx + 1) ls))))"
proof (induction ls arbitrary: idx included)
  case (Cons l ls)
  show ?case
  proof (cases "idx + 1 < offset")
    case True
    then have "offset - 1 - idx = Suc (offset - 1 - (idx + 1))" by simp
    with True Cons.IH [of "idx + 1" included] show ?thesis by simp
  next
    case False
    then have "offset - 1 - idx = 0" "offset - 1 - (idx + 1) = 0" by simp_all
    with False Cons.IH [of "idx + 1" "included + 1"] show ?thesis
      by (cases "included < limit") (simp_all add: Suc_diff_Suc [symmetric] take_Suc_conv_app_nth)
  qed
qed simp

text \<open>What Write has written is what Read reads.\<close>

lemma write_then_read:
  assumes "execute_write io args fs = (r, fs')" "cr_exit_code r = 0" "args ''path'' = Some path" "args ''content'' = Some text"
    and "length text \<le> READ_FILE_CAP_BYTES" "utf8_valid text" "ff_stat io path = None" "ff_read io path = None"
  shows "execute_read io (\<lambda>k. if k = ''path'' then Some path else None) fs' =
    ok_result (concat (map (\<lambda>(n, l). nat_string n @ ''|'' @ l @ [newline]) (take u64_max (List.enumerate 1 (lines text)))))"
proof -
  have "fs' = put_file path text fs"
    using assms(1-4)
    by (auto simp: execute_write_def require_def error_result_def fs_write_def and_then_def map_err_def
        split: option.splits sum.splits if_splits write_fault.splits)
  then show ?thesis
    using assms(5-8) read_loop_window [of 1 0 u64_max 0 "lines text"]
    by (simp add: execute_read_def require_def result_of_def parse_optional_usize_def check_size_cap_def fs_stat_def
        read_to_string_def fs_read_def put_file_def Let_def)
qed

section \<open>Editing\<close>

text \<open>Where an error comes from.\<close>

lemma result_errs:
  "and_then x f = Inl e \<longleftrightarrow> x = Inl e \<or> (\<exists>v. x = Inr v \<and> f v = Inl e)"
  "map_err g y = Inl e \<longleftrightarrow> (\<exists>e'. y = Inl e' \<and> e = g e')"
  "ensure b e' = Inl e \<longleftrightarrow> \<not> b \<and> e = e'"
  "ok_or e' z = Inl e \<longleftrightarrow> z = None \<and> e = e'"
  by (cases x; cases y; cases z; auto simp: ensure_def)+

lemma replacen_1_split:
  assumes "count_matches p s \<noteq> 0" "\<not> count_matches p s > 1"
  obtains u v where "s = u @ p @ v" "replacen_1 p t s = u @ t @ v"
proof (cases "p = []")
  case True
  then show ?thesis using that [of "[]" s] by (simp add: replacen_1_def)
next
  case False
  with assms(1) have "matches_count p s > 0" by (simp add: count_matches_def)
  from replace_first_split [OF False this, of t] False show ?thesis
    using that by (auto simp: replacen_1_def)
qed

lemma edit_plan_Inr:
  assumes "edit_plan io args fs = Inr (path, updated)"
  obtains old new body u v where "args ''path'' = Some path" "args ''old_string'' = Some old" "args ''new_string'' = Some new"
    "fs_files fs path = Some body" "utf8_valid body" "length body \<le> READ_FILE_CAP_BYTES \<or> ff_stat io path \<noteq> None"
    "count_matches old body = 1" "body = u @ old @ v" "updated = u @ new @ v"
proof -
  from assms obtain old new body where a: "args ''path'' = Some path" "args ''old_string'' = Some old" "args ''new_string'' = Some new"
    and read: "read_to_string io path fs = Inr body" and cap: "check_size_cap io path fs = Inr ()"
    and n: "count_matches old body \<noteq> 0" "\<not> count_matches old body > 1" and upd: "updated = replacen_1 old new body"
    by (auto simp: edit_plan_def require_def Let_def result_simps)
  from read have body: "fs_files fs path = Some body" "utf8_valid body"
    by (auto simp: read_to_string_def result_simps split: if_splits)
  from cap body have "length body \<le> READ_FILE_CAP_BYTES \<or> ff_stat io path \<noteq> None"
    by (auto simp: check_size_cap_def fs_stat_def result_simps split: if_splits option.splits)
  with a body n upd show ?thesis using replacen_1_split [OF n] that by (metis One_nat_def less_one linorder_neqE_nat)
qed



text \<open>Occurrences that overlap count once: the first is replaced although the choice was ambiguous.\<close>

lemma edit_overlap: "count_matches ''aa'' ''aaa'' = 1 \<and> replacen_1 ''aa'' ''b'' ''aaa'' = ''ba''"
  by code_simp

section \<open>Truncating\<close>

lemma nat_string_length: "length (nat_string n) \<le> k \<longleftrightarrow> n < 10 ^ k \<and> 0 < k"
proof (induction n arbitrary: k rule: nat_string.induct)
  case (1 n)
  show ?case
  proof (cases "n < 10")
    case True
    then have "n < 10 ^ k" if "0 < k" using that self_le_power [of "10 :: nat" k] by simp
    with True show ?thesis by (auto simp: nat_string.simps [of n])
  next
    case False
    then have len: "length (nat_string n) = length (nat_string (n div 10)) + 1" by (simp add: nat_string.simps [of n])
    show ?thesis
    proof (cases k)
      case 0
      then show ?thesis using len by simp
    next
      case (Suc j)
      have "n div 10 < 10 ^ j \<longleftrightarrow> n < 10 ^ k" using Suc by (simp add: div_less_iff_less_mult mult.commute)
      moreover have "0 < j" if "n < 10 ^ k" using that False Suc by (cases j) auto
      ultimately show ?thesis using 1 [OF False, of j] len Suc by auto
    qed
  qed
qed

text \<open>The number of dropped bytes has at most one digit more than the code reserves.\<close>

lemma truncated_digits:
  "0 < n \<Longrightarrow> length (nat_string (n + (31 + length (nat_string n)))) \<le> length (nat_string n) + 1"
proof -
  let ?k = "length (nat_string n)"
  have k: "0 < ?k" "n < 10 ^ ?k" using nat_string_length [of n ?k] by simp_all
  have "31 + j \<le> 9 * 10 ^ j" if "0 < j" for j :: nat
    using that by (induction j rule: nat_induct_non_zero) simp_all
  from this [OF k(1)] k(2) have "n + (31 + ?k) < 10 ^ (?k + 1)" by simp
  then show ?thesis using nat_string_length [of "n + (31 + ?k)" "?k + 1"] by simp
qed

lemma truncation_marker_length: "length (truncation_marker n) = 31 + length n"
  by (simp add: truncation_marker_def)



text \<open>Output that is all ASCII is never cut inside a character; other output may be, and then the call panics.\<close>

lemma truncate_middle_ascii:
  assumes "list_all (\<lambda>c. \<not> is_cont_byte c) output"
  shows "truncate_middle output limit \<noteq> None"
proof -
  have "is_char_boundary output n" if "n \<le> length output" for n
    using that assms by (auto simp: is_char_boundary_def list_all_length)
  then show ?thesis
    by (auto simp: truncate_middle_def slice_to_def slice_from_def Let_def)
qed

lemma truncate_middle_panics:
  "utf8_valid (CHR ''a'' # concat (replicate 100 [CHR 0xC3, CHR 0xA9])) \<and>
   truncate_middle (CHR ''a'' # concat (replicate 100 [CHR 0xC3, CHR 0xA9])) 100 = None"
  by code_simp

end
