(* ===== verification/Toolset_Runtime.thy ===== *)
theory Toolset_Runtime
  imports Toolset_Stdlib Watcher Execution_Log
begin

text \<open>
  The pod that runs one tool, \<^verbatim>\<open>toolset-runtime/src/server.rs\<close>: the call from its assignment
  to the frames the harness reads, for builtins and for the tools of an image.
\<close>

section \<open>A call\<close>

record tool_call_assignment =
  tca_call_id :: string
  tca_working_dir :: string
  tca_args :: args

text \<open>
  The processes of a call: \<open>te_stream\<close> gives the moments of a streamed run, told whether a
  cancel comes. \<open>te_room\<close> is how many frames the harness takes before it leaves.
\<close>

record tool_env =
  te_builtin :: builtin_env
  te_stream :: "bool \<Rightarrow> command \<Rightarrow> string + pump list \<times> exit_status option"
  te_cancel_at :: nat
  te_room :: "nat option"

definition tool_frames ::
  "tool_env \<Rightarrow> string \<Rightarrow> scrub_set \<Rightarrow> bool \<Rightarrow> tool_call_assignment \<Rightarrow> pod_fs \<Rightarrow> (tool_result_frame list \<times> pod_fs) option" where
  "tool_frames env tool_name scrub cancelled assignment fs =
     (let io = be_io (te_builtin env);
          working_dir = (if tca_working_dir assignment = [] then ''/workspace'' else tca_working_dir assignment);
          benv = (te_builtin env)\<lparr> be_cancel := if cancelled then Some (te_cancel_at env) else None \<rparr> in
      if tool_name \<in> set BUILTIN_NAMES then
        map_option (\<lambda>(result, fs1).
            case frames_for io scrub (cr_stdout result) (cr_stderr result) (cr_exit_code result) fs1 of (frames, fs2) \<Rightarrow>
              ((case te_room env of Some n \<Rightarrow> take n frames | None \<Rightarrow> frames), fs2))
          (dispatch_builtin benv tool_name (tca_args assignment) working_dir DEFAULT_MAX_OUTPUT_CHARS fs)
      else
        stream_frames io scrub None (te_room env)
          (te_stream env cancelled (compose_dispatch_command tool_name (tca_args assignment) working_dir)) fs)"

text \<open>The handler, with the counters: a call that does not answer never leaves them.\<close>

definition run_tool ::
  "tool_env \<Rightarrow> string \<Rightarrow> scrub_set \<Rightarrow> nat \<times> nat \<Rightarrow> tool_call_assignment inbound
   \<Rightarrow> (activity \<times> pod_fs, status, tool_result_frame list) stm" where
  "run_tool env tool_name scrub clock messages =
     bindS (liftS (read_assignment ''the first RunToolCommand must be the tool-call assignment'' messages))
       (\<lambda>(assignment, later) (act, fs).
         let act1 = call_started (fst clock) act in
         case tool_frames env tool_name scrub (watch_cancel later) assignment fs of
           Some (frames, fs1) \<Rightarrow> (Inr frames, (call_finished (snd clock) act1, fs1))
         | None \<Rightarrow> (Inr [], (act1, fs)))"

section \<open>What leaves the pod\<close>

definition frame_texts :: "tool_result_frame \<Rightarrow> string list" where
  "frame_texts f = (case f of Some (Frame_Stdout t) \<Rightarrow> [t] | Some (Frame_Stderr t) \<Rightarrow> [t] | _ \<Rightarrow> [])"

lemma produced_texts: "produced scrub f \<Longrightarrow> t \<in> set (frame_texts f) \<Longrightarrow> t \<in> range (apply_scrub scrub)"
  by (auto simp: produced_def frame_texts_def split: option.splits frame.splits)

definition emitted :: "scrub_set \<Rightarrow> tool_result_frame \<Rightarrow> bool" where
  "emitted scrub f \<longleftrightarrow> produced scrub f \<or> (\<exists>oc c. f = complete_frame oc c)"

lemma emitted_texts: "emitted scrub f \<Longrightarrow> t \<in> set (frame_texts f) \<Longrightarrow> t \<in> range (apply_scrub scrub)"
  by (auto simp: emitted_def complete_frame_def frame_texts_def dest: produced_texts)

lemma emitted_simps [simp]:
  "emitted scrub (complete_frame oc c)" "emitted scrub (stderr_line_frame scrub l)"
  "emitted scrub (Some (Frame_Stdout (apply_scrub scrub t)))"
proof -
  show "emitted scrub (complete_frame oc c)" unfolding emitted_def by blast
  show "emitted scrub (stderr_line_frame scrub l)" by (simp add: emitted_def)
  show "emitted scrub (Some (Frame_Stdout (apply_scrub scrub t)))" by (simp add: emitted_def produced_def)
qed

lemma frames_for_emitted:
  assumes "frames_for io scrub out err code fs = (frames, fs')"
  shows "list_all (emitted scrub) frames"
proof -
  obtain outs img fs1 where outs: "stdout_frames io scrub (split_terminated newline out) fs = ((outs, img), fs1)"
    by (metis prod.collapse)
  with assms stdout_frames_produced [OF outs] show ?thesis
    by (auto simp: frames_for_def list_all_iff emitted_def)
qed

lemma pump_send_emitted:
  "emitted scrub f \<Longrightarrow> list_all (emitted scrub) (ps_sent st) \<Longrightarrow> list_all (emitted scrub) (ps_sent (pump_send f st))"
  by (simp add: pump_send_def)

lemma pump_step_emitted:
  assumes "list_all (emitted scrub) (ps_sent st)"
  shows "list_all (emitted scrub) (ps_sent (pump_step io scrub timeout m st))"
proof (cases m)
  case (Pump_Out x)
  show ?thesis
  proof (cases x)
    case (Some l)
    obtain frame err fs1 where a: "stdout_line_frame io scrub l (ps_fs st) = ((frame, err), fs1)"
      by (metis prod.collapse)
    from stdout_line_frame_produced [OF a] obtain f where "frame = Some f" "produced scrub f" by blast
    with a Some Pump_Out assms show ?thesis by (auto simp: Let_def emitted_def intro!: pump_send_emitted)
  qed (use Pump_Out assms in simp)
next
  case (Pump_Err x)
  with assms show ?thesis by (cases x) (auto simp: emitted_def intro!: pump_send_emitted)
qed (use assms in auto)

lemma pump_loop_emitted:
  "pump_loop io scrub timeout ms st = Some st' \<Longrightarrow> list_all (emitted scrub) (ps_sent st) \<Longrightarrow> list_all (emitted scrub) (ps_sent st')"
proof (induction ms arbitrary: st)
  case (Cons m ms)
  show ?case
  proof (cases "pump_over st")
    case False
    with Cons.prems(1) have "pump_loop io scrub timeout ms (pump_step io scrub timeout m st) = Some st'" by simp
    from Cons.IH [OF this pump_step_emitted [OF Cons.prems(2)]] show ?thesis .
  qed (use Cons.prems in simp)
qed (simp split: if_splits)

lemma stream_frames_emitted:
  assumes "stream_frames io scrub timeout room spawned fs = Some (frames, fs')"
  shows "list_all (emitted scrub) frames"
proof (cases spawned)
  case (Inl e)
  with assms show ?thesis by (auto simp: stream_frames_def Let_def intro!: pump_send_emitted)
next
  case (Inr run)
  obtain ms status where run: "run = (ms, status)" by (cases run)
  with Inr assms obtain st where st: "pump_loop io scrub timeout ms (pump_init room fs) = Some st"
    and frames: "frames = ps_sent (if ps_gone st then st else pump_finish scrub timeout status st)"
    by (auto simp: stream_frames_def Let_def)
  have "list_all (emitted scrub) (ps_sent st)" using pump_loop_emitted [OF st] by simp
  then have "list_all (emitted scrub) (ps_sent (pump_finish scrub timeout status st))"
    by (auto simp: pump_finish_def Let_def intro!: pump_send_emitted)
  with \<open>list_all (emitted scrub) (ps_sent st)\<close> frames show ?thesis by simp
qed

lemma tool_frames_emitted:
  assumes "tool_frames env tool_name scrub cancelled assignment fs = Some (frames, fs')"
  shows "list_all (emitted scrub) frames"
proof (cases "tool_name \<in> set BUILTIN_NAMES")
  case True
  with assms obtain result :: command_result and fs1 where r: "(case frames_for (be_io (te_builtin env)) scrub (cr_stdout result) (cr_stderr result)
      (cr_exit_code result) fs1 of (whole, fs2) \<Rightarrow> ((case te_room env of Some n \<Rightarrow> take n whole | None \<Rightarrow> whole), fs2)) = (frames, fs')"
    by (auto simp: tool_frames_def Let_def)
  obtain whole fs2 where w: "frames_for (be_io (te_builtin env)) scrub (cr_stdout result) (cr_stderr result)
      (cr_exit_code result) fs1 = (whole, fs2)" by (metis prod.collapse)
  from r frames_for_emitted [OF w] show ?thesis
    by (auto simp: w list_all_iff split: option.splits dest: in_set_takeD)
next
  case False
  with assms show ?thesis by (auto simp: tool_frames_def Let_def intro: stream_frames_emitted)
qed

lemma run_tool_clean:
  assumes "run_tool env tool_name (from_secrets b64 url secrets) clock messages (act, fs) = (Inr frames, s')"
    and "bracket_free_encoder b64" "bracket_free_encoder url" "scrubbable b64 url secrets"
    and "(n, v) \<in> set secrets" "trim v \<noteq> []" "p \<in> set (secret_forms b64 url v)"
  shows "list_all (\<lambda>f. list_all (\<lambda>t. \<not> contains_str t p) (frame_texts f)) frames"
proof -
  let ?S = "from_secrets b64 url secrets"
  have gone: "\<not> sublist p (apply_scrub ?S x)" for x
    using apply_scrub_removes [OF from_secrets_safe from_secrets_forms] assms(2-7) by simp
  have "list_all (emitted ?S) frames"
    using assms(1) by (auto simp: run_tool_def bindS_def liftS_def Let_def intro: tool_frames_emitted
        split: sum.splits prod.splits option.splits)
  then show ?thesis using gone by (fastforce simp: list_all_iff dest: emitted_texts)
qed


definition echo_env :: tool_env where
  "echo_env = \<lparr> te_builtin = \<lparr> be_io = no_faults, be_spawn = (\<lambda>_. Inl ''no shell''), be_cancel = None,
       be_rg = (\<lambda>_. Inl ''no rg''), be_lower = id \<rparr>,
     te_stream = (\<lambda>_ _. Inr ([Pump_Out (Some ''key=s3cr3t''), Pump_Out None, Pump_Err None], Some \<lparr> es_code = Some 0, es_signal = None \<rparr>)),
     te_cancel_at = 0, te_room = None \<rparr>"


text \<open>
  Scrubbing comes after truncation, so a secret that truncation cuts is not recognised:
  here all but its last byte leaves the pod.
\<close>

lemma truncation_before_scrub_leaks:
  "let S = from_secrets hex_encode hex_encode [(''K'', ''s3cr3t'')];
       out = replicate 21 CHR ''x'' @ ''s3cr3t'' @ replicate 150 CHR ''y''
   in case truncate_middle out 100 of
        Some r \<Rightarrow> contains_str (apply_scrub S r) ''s3cr3'' \<and> apply_scrub S out \<noteq> out
      | None \<Rightarrow> False"
  by code_simp

section \<open>The harness's reading\<close>

text \<open>The result the harness assembles is an error exactly when the terminal is not DONE.\<close>

lemma assemble_produced_not_error:
  "list_all (produced scrub) body \<Longrightarrow>
   as_is_error (foldl assemble_step a body) = as_is_error a \<and> as_exit_code (foldl assemble_step a body) = as_exit_code a"
  by (induction body arbitrary: a)
    (auto simp: assemble_step_def produced_def split: option.splits frame.splits)

lemma assembled_error:
  assumes "list_all (produced scrub) body"
  shows "resp_is_error (assemble_from_frames (body @ [Some (Frame_Complete outcome code)])) \<longleftrightarrow> outcome \<noteq> outcome_done"
  using assemble_produced_not_error [OF assms]
  by (simp add: assemble_from_frames_def assemble_finish_def assemble_step_def Let_def)

text \<open>A builtin that is cancelled while its child runs ends as FAILED, a streamed tool as CANCELED.\<close>

lemma cancelled_builtin_fails:
  assumes "frames_for io scrub out err (-1) fs = (frames, fs')"
  shows "last frames = complete_frame outcome_failed (-1)"
  using assms by (auto simp: frames_for_def split: prod.splits)

end
