(* ===== verification/Job.thy ===== *)
theory Job
  imports Toolset_Config Auth Pod
begin

text \<open>
  The Kubernetes Jobs the harness creates for its capability pods, \<^verbatim>\<open>harness/src/job.rs\<close>,
  with the fragments of \<^verbatim>\<open>shared\<close> they are made of: \<^verbatim>\<open>podspec.rs\<close>, \<^verbatim>\<open>scheduling.rs\<close> and the
  hardened security context. The records have the fields of the Kubernetes types that the
  code sets; a field it always sets has no option. The JSON printer is an argument. The
  theorems say which Secrets, volumes and identities a pod can have.
\<close>

section \<open>Fragments\<close>

record toleration =
  tol_key :: "string option"
  tol_operator :: "string option"
  tol_value :: "string option"
  tol_effect :: "string option"
  tol_seconds :: "int option"

record scheduling_config =
  sc_node_selector :: "(string \<times> string) list"
  sc_tolerations :: "toleration list"

definition default_scheduling :: scheduling_config where
  "default_scheduling = \<lparr> sc_node_selector = [], sc_tolerations = [] \<rparr>"

definition scheduling_load ::
  "(string \<Rightarrow> string + string) \<Rightarrow> (string \<Rightarrow> string + scheduling_config) \<Rightarrow> string \<Rightarrow> string + scheduling_config" where
  "scheduling_load read parse path =
     and_then (map_err (\<lambda>e. ''failed to read scheduling config '' @ path @ '': '' @ e) (read path)) (\<lambda>text.
     map_err ((@) ''failed to parse scheduling YAML: '') (parse text))"

definition scheduling_load_or_default ::
  "(string \<Rightarrow> string + string) \<Rightarrow> (string \<Rightarrow> string + scheduling_config) \<Rightarrow> string \<Rightarrow> bool
   \<Rightarrow> string + scheduling_config" where
  "scheduling_load_or_default read parse path has_kube =
     (if \<not> has_kube then Inr default_scheduling
      else map_err ((@) ''scheduling config required in-cluster: '') (scheduling_load read parse path))"

record env_var =
  ev_name :: string
  ev_value :: string

record key_to_path =
  kp_key :: string
  kp_path :: string

record token_projection =
  tp_path :: string
  tp_audience :: string
  tp_expiration_seconds :: nat

datatype volume_source = EmptyDir
  | SecretVolume (sv_secret: string) (sv_items: "key_to_path list") (sv_mode: nat)
  | PersistentVolumeClaim string
  | Projected "token_projection list"

record volume =
  vol_name :: string
  vol_source :: volume_source

record volume_mount =
  vm_name :: string
  vm_mount_path :: string
  vm_sub_path :: "string option"
  vm_read_only :: bool

definition sa_token_volume :: "string \<Rightarrow> string \<Rightarrow> volume \<times> volume_mount" where
  "sa_token_volume volume_name audience =
     (\<lparr> vol_name = volume_name,
        vol_source = Projected [\<lparr> tp_path = ''token'', tp_audience = audience, tp_expiration_seconds = 3600 \<rparr>] \<rparr>,
      \<lparr> vm_name = volume_name, vm_mount_path = ''/var/run/secrets/kubernetes.io/serviceaccount'',
        vm_sub_path = None, vm_read_only = True \<rparr>)"

record security_context =
  sx_run_as_non_root :: bool
  sx_run_as_user :: nat
  sx_read_only_root_filesystem :: bool
  sx_allow_privilege_escalation :: bool
  sx_drop :: "string list"
  sx_seccomp :: string

definition hardened_security_context :: security_context where
  "hardened_security_context = \<lparr> sx_run_as_non_root = True, sx_run_as_user = 1000,
     sx_read_only_root_filesystem = True, sx_allow_privilege_escalation = False,
     sx_drop = [''ALL''], sx_seccomp = ''RuntimeDefault'' \<rparr>"

section \<open>Jobs\<close>

record container =
  ct_name :: string
  ct_image :: string
  ct_env :: "env_var list"
  ct_volume_mounts :: "volume_mount list"
  ct_security_context :: security_context
  ct_port :: "nat \<times> string"
  ct_readiness_tcp_port :: nat

record pod_security_context =
  psx_run_as_non_root :: bool
  psx_run_as_user :: nat
  psx_fs_group :: nat

record pod_affinity_term =
  pat_match_labels :: "(string \<times> string) list"
  pat_topology_key :: string

record pod_spec =
  ps_hostname :: string
  ps_subdomain :: string
  ps_restart_policy :: string
  ps_service_account_name :: string
  ps_automount_service_account_token :: bool
  ps_security_context :: pod_security_context
  ps_share_process_namespace :: bool
  ps_containers :: "container list"
  ps_volumes :: "volume list"
  ps_affinity :: "pod_affinity_term list"
  ps_node_selector :: "(string \<times> string) list option"
  ps_tolerations :: "toleration list option"

record job =
  job_name :: string
  job_namespace :: string
  job_labels :: "(string \<times> string) list"
  job_ttl_seconds_after_finished :: nat
  job_backoff_limit :: nat
  job_active_deadline_seconds :: int
  job_pod_labels :: "(string \<times> string) list"
  job_pod :: pod_spec

definition GRANT_MOUNT_PATH :: string where
  "GRANT_MOUNT_PATH = ''/run/secrets/grant''"

definition GRANT_CREDENTIAL_PATH :: string where
  "GRANT_CREDENTIAL_PATH = ''/run/secrets/grant/credential''"

definition TOOL_JOB_DEFAULT_DEADLINE_SECONDS :: int where
  "TOOL_JOB_DEFAULT_DEADLINE_SECONDS = 3600"

definition PROVIDER_MOUNT_PATH :: string where
  "PROVIDER_MOUNT_PATH = ''/run/secrets/provider''"

definition PROVIDER_CREDENTIAL_PATH :: string where
  "PROVIDER_CREDENTIAL_PATH = ''/run/secrets/provider/credential''"

definition INFERENCE_JOB_DEADLINE_SECONDS :: int where
  "INFERENCE_JOB_DEADLINE_SECONDS = 3600"

definition TOOL_JOB_PORT :: nat where
  "TOOL_JOB_PORT = 9090"

record secret_mapping =
  sm_secret :: string
  sm_file :: string

definition label_map :: "(string \<times> string) list \<Rightarrow> (string \<times> string) list" where
  "label_map kvs = foldl (\<lambda>m (k, v). bt_insert k v m) [] kvs"

lemma map_of_label_map: "map_of (label_map kvs) = map_of (rev kvs)"
proof -
  have "map_of (foldl (\<lambda>m (k, v). bt_insert k v m) m kvs) = map_of m ++ map_of (rev kvs)" for m
    by (induction kvs arbitrary: m) (auto simp: map_add_def fun_eq_iff split: option.splits)
  then show ?thesis by (simp add: label_map_def)
qed

definition workspace_affinity :: "string \<Rightarrow> pod_affinity_term list" where
  "workspace_affinity workspace_name =
     [\<lparr> pat_match_labels = label_map [(''sycophant.md/workspace'', workspace_name)],
        pat_topology_key = ''kubernetes.io/hostname'' \<rparr>]"

definition push_forwarded_env :: "env_var list \<Rightarrow> toolset_entry \<Rightarrow> env_var list" where
  "push_forwarded_env env_vars entry =
     env_vars @ map (\<lambda>(name, value). \<lparr> ev_name = name, ev_value = value \<rparr>) (forwarded_env entry)"

definition secret_basename :: "string \<Rightarrow> string \<Rightarrow> string" where
  "secret_basename file_path secret_name =
     (case file_name file_path of Some f \<Rightarrow> f | None \<Rightarrow> secret_name)"

definition secret_volume :: "string \<Rightarrow> string \<Rightarrow> string \<Rightarrow> volume" where
  "secret_volume vname secret_name basename =
     \<lparr> vol_name = vname,
       vol_source = SecretVolume secret_name [\<lparr> kp_key = secret_name, kp_path = basename \<rparr>] 288 \<rparr>"

text \<open>The JSON values of the two registries; an object lists its keys in order. No secrets, no variable.\<close>

definition scrub_registry_json :: "secret_mapping list \<Rightarrow> json" where
  "scrub_registry_json secrets =
     JArray (map (\<lambda>s. JObject [(''file'', JString (sm_file s)), (''name'', JString (sm_secret s))]) secrets)"

definition credential_map_json :: "credential_map_entry list \<Rightarrow> json" where
  "credential_map_json entries =
     JArray (map (\<lambda>e. JObject [(''staging'', JString (ce_staging e)), (''target'', JString (ce_target e))]) entries)"

definition scrub_secrets_env :: "(json \<Rightarrow> string) \<Rightarrow> secret_mapping list \<Rightarrow> env_var list" where
  "scrub_secrets_env to_json secrets =
     (if secrets = [] then []
      else [\<lparr> ev_name = ''TOOLSET_SCRUB_SECRETS'', ev_value = to_json (scrub_registry_json secrets) \<rparr>])"

text \<open>
  What both builders push for the one credential of the pod: the volume, the mount and
  the variables.
\<close>

definition staging_path :: "string \<Rightarrow> string \<Rightarrow> string" where
  "staging_path vname basename = ''/tmp/credentials/'' @ vname @ ''/'' @ basename"

definition credential_mount :: "string \<Rightarrow> string \<Rightarrow> volume_mount" where
  "credential_mount vname basename =
     \<lparr> vm_name = vname, vm_mount_path = staging_path vname basename,
       vm_sub_path = Some basename, vm_read_only = True \<rparr>"

definition credential_map_env :: "(json \<Rightarrow> string) \<Rightarrow> string \<Rightarrow> string \<Rightarrow> env_var" where
  "credential_map_env to_json staging target =
     \<lparr> ev_name = ''TOOLSET_CREDENTIAL_MAP'',
       ev_value = to_json (credential_map_json [\<lparr> ce_staging = staging, ce_target = target \<rparr>]) \<rparr>"

definition empty_dir_volume :: "string \<Rightarrow> volume" where
  "empty_dir_volume name = \<lparr> vol_name = name, vol_source = EmptyDir \<rparr>"

definition rw_mount :: "string \<Rightarrow> string \<Rightarrow> volume_mount" where
  "rw_mount name path = \<lparr> vm_name = name, vm_mount_path = path, vm_sub_path = None, vm_read_only = False \<rparr>"

definition runtime_container ::
  "string \<Rightarrow> env_var list \<Rightarrow> volume_mount list \<Rightarrow> string \<Rightarrow> container" where
  "runtime_container img env_vars volume_mounts port_name =
     \<lparr> ct_name = ''runtime'', ct_image = img, ct_env = env_vars, ct_volume_mounts = volume_mounts,
       ct_security_context = hardened_security_context, ct_port = (TOOL_JOB_PORT, port_name),
       ct_readiness_tcp_port = TOOL_JOB_PORT \<rparr>"

definition runtime_pod ::
  "string \<Rightarrow> string \<Rightarrow> string \<Rightarrow> string \<Rightarrow> container \<Rightarrow> volume list \<Rightarrow> pod_affinity_term list
   \<Rightarrow> scheduling_config \<Rightarrow> pod_spec" where
  "runtime_pod call_id service_name restart_policy workspace_name container volumes affinity scheduling =
     \<lparr> ps_hostname = call_id, ps_subdomain = service_name, ps_restart_policy = restart_policy,
       ps_service_account_name = unprivileged_sa workspace_name,
       ps_automount_service_account_token = False,
       ps_security_context = \<lparr> psx_run_as_non_root = True, psx_run_as_user = 1000, psx_fs_group = 1000 \<rparr>,
       ps_share_process_namespace = False, ps_containers = [container], ps_volumes = volumes,
       ps_affinity = affinity,
       ps_node_selector = (if sc_node_selector scheduling = [] then None else Some (sc_node_selector scheduling)),
       ps_tolerations = (if sc_tolerations scheduling = [] then None else Some (sc_tolerations scheduling)) \<rparr>"

text \<open>\<^verbatim>\<open>&call_id[..8]\<close>, which panics on a shorter id.\<close>

definition id_prefix :: "string \<Rightarrow> string option" where
  "id_prefix call_id =
     (if 8 \<le> length call_id \<and> is_char_boundary call_id 8 then Some (take 8 call_id) else None)"

definition grant_target :: "capability_grant \<Rightarrow> string" where
  "grant_target grant = (case cg_path grant of Some p \<Rightarrow> p | None \<Rightarrow> GRANT_CREDENTIAL_PATH)"

definition grant_staging :: "capability_grant \<Rightarrow> string" where
  "grant_staging grant = staging_path ''grant-credential'' (secret_basename (grant_target grant) (cg_secret grant))"

definition build_tool_job ::
  "(json \<Rightarrow> string) \<Rightarrow> string \<Rightarrow> string \<Rightarrow> toolset_entry \<Rightarrow> string \<Rightarrow> string \<Rightarrow> string \<Rightarrow> string \<Rightarrow> string
   \<Rightarrow> scheduling_config \<Rightarrow> (string \<times> capability_grant) option \<Rightarrow> job option" where
  "build_tool_job to_json tool_name toolset_name entry call_id namespace service_name workspace_name
     workspace_pvc scheduling grant =
     map_option (\<lambda>prefix8.
       let keepalive = te_keepalive entry;
           env_vars = [\<lparr> ev_name = ''TOOLSET_TOOL_NAME'', ev_value = tool_name \<rparr>]
             @ (if keepalive then [\<lparr> ev_name = ''TOOLSET_KEEPALIVE'', ev_value = ''true'' \<rparr>] else [])
             @ [\<lparr> ev_name = ''HOME'', ev_value = ''/home/agent'' \<rparr>];
           volumes = [empty_dir_volume ''tmp'', empty_dir_volume ''home'', empty_dir_volume ''grant'',
             \<lparr> vol_name = ''workspace'', vol_source = PersistentVolumeClaim workspace_pvc \<rparr>];
           volume_mounts = [rw_mount ''tmp'' ''/tmp'', rw_mount ''home'' ''/home/agent'',
             rw_mount ''grant'' GRANT_MOUNT_PATH, rw_mount ''workspace'' WORKSPACE_MOUNT_PATH];
           env_vars = push_forwarded_env env_vars entry;
           env_vars = env_vars @ (case grant of
               None \<Rightarrow> []
             | Some (_, grant) \<Rightarrow>
                 [credential_map_env to_json (grant_staging grant) (grant_target grant)]
                 @ scrub_secrets_env to_json [\<lparr> sm_secret = cg_secret grant, sm_file = grant_target grant \<rparr>]);
           volumes = volumes @ (case grant of
               None \<Rightarrow> []
             | Some (_, grant) \<Rightarrow>
                 [secret_volume ''grant-credential'' (cg_secret grant) (secret_basename (grant_target grant) (cg_secret grant))]);
           volume_mounts = volume_mounts @ (case grant of
               None \<Rightarrow> []
             | Some (_, grant) \<Rightarrow>
                 [credential_mount ''grant-credential'' (secret_basename (grant_target grant) (cg_secret grant))]);
           auth = sa_token_volume ''tool-job-auth'' TOOL_TOOLSET_AUDIENCE;
           container = runtime_container (case te_image entry of Some i \<Rightarrow> i | None \<Rightarrow> [])
             env_vars (volume_mounts @ [snd auth]) ''tool-job'';
           labels = label_map [(''app.kubernetes.io/part-of'', ''sycophant''), (''sycophant.md/tool'', tool_name),
             (''sycophant.md/call-id'', call_id), (''sycophant.md/toolset'', toolset_name),
             (''sycophant.md/workspace'', workspace_name)];
           pod_labels = label_map ([(''app.kubernetes.io/component'', ''capability-job''),
             (''app.kubernetes.io/part-of'', ''sycophant''), (''sycophant.md/toolset'', toolset_name),
             (''sycophant.md/tool'', tool_name), (''sycophant.md/workspace'', workspace_name)]
             @ (case grant of Some (grant_name, _) \<Rightarrow> [(''sycophant.md/grant'', grant_name)] | None \<Rightarrow> []))
       in \<lparr> job_name = ''tool-'' @ tool_name_to_k8s_segment tool_name @ ''-'' @ prefix8,
            job_namespace = namespace, job_labels = labels,
            job_ttl_seconds_after_finished = 30, job_backoff_limit = 0,
            job_active_deadline_seconds =
              (case te_deadline_seconds entry of Some d \<Rightarrow> d | None \<Rightarrow> TOOL_JOB_DEFAULT_DEADLINE_SECONDS),
            job_pod_labels = pod_labels,
            job_pod = runtime_pod call_id service_name (if keepalive then ''OnFailure'' else ''Never'')
              workspace_name container (volumes @ [fst auth]) (workspace_affinity workspace_name) scheduling \<rparr>)
     (id_prefix call_id)"

definition build_inference_job ::
  "(json \<Rightarrow> string) \<Rightarrow> string \<Rightarrow> string \<Rightarrow> string \<Rightarrow> string \<Rightarrow> string \<Rightarrow> scheduling_config \<Rightarrow> string \<Rightarrow> string
   \<Rightarrow> string \<Rightarrow> string \<Rightarrow> string option \<Rightarrow> job option" where
  "build_inference_job to_json call_id namespace service_name workspace_name model_key scheduling img fmt
     model base_url secret =
     map_option (\<lambda>prefix8.
       let env_vars = [\<lparr> ev_name = ''INFERENCE_BASE_URL'', ev_value = base_url \<rparr>,
             \<lparr> ev_name = ''INFERENCE_FORMAT'', ev_value = fmt \<rparr>,
             \<lparr> ev_name = ''INFERENCE_MODEL'', ev_value = model \<rparr>,
             \<lparr> ev_name = ''HOME'', ev_value = ''/home/agent'' \<rparr>];
           volumes = [empty_dir_volume ''tmp'', empty_dir_volume ''home'', empty_dir_volume ''provider''];
           volume_mounts = [rw_mount ''tmp'' ''/tmp'', rw_mount ''home'' ''/home/agent'',
             rw_mount ''provider'' PROVIDER_MOUNT_PATH];
           target_path = PROVIDER_CREDENTIAL_PATH;
           basename = secret_basename target_path;
           env_vars = env_vars @ (case secret of
               None \<Rightarrow> []
             | Some secret \<Rightarrow>
                 [credential_map_env to_json (staging_path ''provider-credential'' (basename secret)) target_path,
                  \<lparr> ev_name = ''INFERENCE_API_KEY_FILE'', ev_value = target_path \<rparr>]
                 @ scrub_secrets_env to_json [\<lparr> sm_secret = secret, sm_file = target_path \<rparr>]);
           volumes = volumes @ (case secret of
               None \<Rightarrow> [] | Some secret \<Rightarrow> [secret_volume ''provider-credential'' secret (basename secret)]);
           volume_mounts = volume_mounts @ (case secret of
               None \<Rightarrow> [] | Some secret \<Rightarrow> [credential_mount ''provider-credential'' (basename secret)]);
           labels = label_map [(''app.kubernetes.io/part-of'', ''sycophant''),
             (''sycophant.md/call-id'', call_id), (''sycophant.md/workspace'', workspace_name)];
           pod_labels = label_map [(''app.kubernetes.io/component'', ''capability-job''),
             (''app.kubernetes.io/part-of'', ''sycophant''), (''sycophant.md/workspace'', workspace_name),
             (''sycophant.md/job-kind'', ''inference''), (''sycophant.md/model'', model_key)]
       in \<lparr> job_name = ''inference-'' @ prefix8, job_namespace = namespace, job_labels = labels,
            job_ttl_seconds_after_finished = 30, job_backoff_limit = 0,
            job_active_deadline_seconds = INFERENCE_JOB_DEADLINE_SECONDS,
            job_pod_labels = pod_labels,
            job_pod = runtime_pod call_id service_name ''Never'' workspace_name
              (runtime_container img env_vars volume_mounts ''inference'') volumes [] scheduling \<rparr>)
     (id_prefix call_id)"

section \<open>What a pod holds\<close>

text \<open>The variables of a container: Kubernetes takes the last of several with one name.\<close>

definition container_env :: "container \<Rightarrow> string \<rightharpoonup> string" where
  "container_env c = map_of (rev (map (\<lambda>e. (ev_name e, ev_value e)) (ct_env c)))"

definition pod_env :: "job \<Rightarrow> string \<rightharpoonup> string" where
  "pod_env j = container_env (hd (ps_containers (job_pod j)))"

definition pod_mounts :: "job \<Rightarrow> volume_mount list" where
  "pod_mounts j = ct_volume_mounts (hd (ps_containers (job_pod j)))"

text \<open>The Secrets a pod mounts, as name, data key and path.\<close>

definition mounted_secrets :: "job \<Rightarrow> (string \<times> string \<times> string) list" where
  "mounted_secrets j =
     [(s, kp_key i, vm_mount_path m). m \<leftarrow> pod_mounts j, v \<leftarrow> ps_volumes (job_pod j), vol_name v = vm_name m,
        (s, items) \<leftarrow> (case vol_source v of SecretVolume s items mode \<Rightarrow> [(s, items)] | _ \<Rightarrow> []),
        i \<leftarrow> items, vm_sub_path m = Some (kp_path i)]"

text \<open>
  Well-formedness as the API server and the kubelet require it: names of volumes are
  distinct, every mount names a volume, no two mounts share a path, and a sub path is a
  single component.
\<close>

definition mounts_wf :: "job \<Rightarrow> bool" where
  "mounts_wf j \<longleftrightarrow>
     distinct (map vol_name (ps_volumes (job_pod j))) \<and>
     set (map vm_name (pod_mounts j)) = set (map vol_name (ps_volumes (job_pod j))) \<and>
     distinct (map vm_mount_path (pod_mounts j)) \<and>
     list_all (\<lambda>m. case vm_sub_path m of None \<Rightarrow> True | Some p \<Rightarrow> CHR ''/'' \<notin> set p) (pod_mounts j)"

lemma secret_basename_no_slash:
  "CHR ''/'' \<notin> set s \<Longrightarrow> CHR ''/'' \<notin> set (secret_basename p s)"
  by (auto simp: secret_basename_def split: option.splits dest: file_name_no_slash)

lemmas job_parts = empty_dir_volume_def rw_mount_def credential_mount_def secret_volume_def staging_path_def
  sa_token_volume_def runtime_container_def runtime_pod_def GRANT_MOUNT_PATH_def WORKSPACE_MOUNT_PATH_def
  PROVIDER_MOUNT_PATH_def credential_map_env_def scrub_secrets_env_def

lemma tool_job_pod:
  assumes "build_tool_job to_json tool toolset entry call_id ns svc ws pvc sched grant = Some j"
  shows "pod_mounts j = [rw_mount ''tmp'' ''/tmp'', rw_mount ''home'' ''/home/agent'',
       rw_mount ''grant'' GRANT_MOUNT_PATH, rw_mount ''workspace'' WORKSPACE_MOUNT_PATH]
     @ (case grant of None \<Rightarrow> []
        | Some (_, g) \<Rightarrow> [credential_mount ''grant-credential'' (secret_basename (grant_target g) (cg_secret g))])
     @ [snd (sa_token_volume ''tool-job-auth'' TOOL_TOOLSET_AUDIENCE)]"
    and "ps_volumes (job_pod j) = [empty_dir_volume ''tmp'', empty_dir_volume ''home'', empty_dir_volume ''grant'',
       \<lparr> vol_name = ''workspace'', vol_source = PersistentVolumeClaim pvc \<rparr>]
     @ (case grant of None \<Rightarrow> []
        | Some (_, g) \<Rightarrow> [secret_volume ''grant-credential'' (cg_secret g) (secret_basename (grant_target g) (cg_secret g))])
     @ [fst (sa_token_volume ''tool-job-auth'' TOOL_TOOLSET_AUDIENCE)]"
    and "ct_env (hd (ps_containers (job_pod j))) = push_forwarded_env
       ([\<lparr> ev_name = ''TOOLSET_TOOL_NAME'', ev_value = tool \<rparr>]
        @ (if te_keepalive entry then [\<lparr> ev_name = ''TOOLSET_KEEPALIVE'', ev_value = ''true'' \<rparr>] else [])
        @ [\<lparr> ev_name = ''HOME'', ev_value = ''/home/agent'' \<rparr>]) entry
     @ (case grant of None \<Rightarrow> []
        | Some (_, g) \<Rightarrow> [credential_map_env to_json (grant_staging g) (grant_target g),
            \<lparr> ev_name = ''TOOLSET_SCRUB_SECRETS'',
              ev_value = to_json (scrub_registry_json [\<lparr> sm_secret = cg_secret g, sm_file = grant_target g \<rparr>]) \<rparr>])"
    and "ps_service_account_name (job_pod j) = unprivileged_sa ws" "\<not> ps_automount_service_account_token (job_pod j)"
    and "ps_hostname (job_pod j) = call_id" "ps_subdomain (job_pod j) = svc"
    and "map_of (job_pod_labels j) ''sycophant.md/grant'' = map_option fst grant"
    and "map_of (job_pod_labels j) ''sycophant.md/workspace'' = Some ws"
    and "map_of (job_pod_labels j) ''sycophant.md/toolset'' = Some toolset"
    and "map_of (job_pod_labels j) ''sycophant.md/tool'' = Some tool"
    and "job_name j = ''tool-'' @ tool_name_to_k8s_segment tool @ ''-'' @ take 8 call_id"
proof -
  from assms obtain p where id: "id_prefix call_id = Some p" by (auto simp: build_tool_job_def)
  then have p: "p = take 8 call_id" by (simp add: id_prefix_def split: if_splits)
  note whole = assms [unfolded build_tool_job_def id option.map option.inject Let_def, symmetric]
  show "pod_mounts j = [rw_mount ''tmp'' ''/tmp'', rw_mount ''home'' ''/home/agent'',
       rw_mount ''grant'' GRANT_MOUNT_PATH, rw_mount ''workspace'' WORKSPACE_MOUNT_PATH]
     @ (case grant of None \<Rightarrow> []
        | Some (_, g) \<Rightarrow> [credential_mount ''grant-credential'' (secret_basename (grant_target g) (cg_secret g))])
     @ [snd (sa_token_volume ''tool-job-auth'' TOOL_TOOLSET_AUDIENCE)]"
    unfolding whole pod_mounts_def runtime_pod_def runtime_container_def by simp
  show "ps_volumes (job_pod j) = [empty_dir_volume ''tmp'', empty_dir_volume ''home'', empty_dir_volume ''grant'',
       \<lparr> vol_name = ''workspace'', vol_source = PersistentVolumeClaim pvc \<rparr>]
     @ (case grant of None \<Rightarrow> []
        | Some (_, g) \<Rightarrow> [secret_volume ''grant-credential'' (cg_secret g) (secret_basename (grant_target g) (cg_secret g))])
     @ [fst (sa_token_volume ''tool-job-auth'' TOOL_TOOLSET_AUDIENCE)]"
    unfolding whole pod_mounts_def runtime_pod_def runtime_container_def by simp
  show "ct_env (hd (ps_containers (job_pod j))) = push_forwarded_env
       ([\<lparr> ev_name = ''TOOLSET_TOOL_NAME'', ev_value = tool \<rparr>]
        @ (if te_keepalive entry then [\<lparr> ev_name = ''TOOLSET_KEEPALIVE'', ev_value = ''true'' \<rparr>] else [])
        @ [\<lparr> ev_name = ''HOME'', ev_value = ''/home/agent'' \<rparr>]) entry
     @ (case grant of None \<Rightarrow> []
        | Some (_, g) \<Rightarrow> [credential_map_env to_json (grant_staging g) (grant_target g),
            \<lparr> ev_name = ''TOOLSET_SCRUB_SECRETS'',
              ev_value = to_json (scrub_registry_json [\<lparr> sm_secret = cg_secret g, sm_file = grant_target g \<rparr>]) \<rparr>])"
    unfolding whole runtime_pod_def runtime_container_def scrub_secrets_env_def by (simp split: option.split)
  show "ps_service_account_name (job_pod j) = unprivileged_sa ws"
    "\<not> ps_automount_service_account_token (job_pod j)"
    "ps_hostname (job_pod j) = call_id"
    "ps_subdomain (job_pod j) = svc"
    "map_of (job_pod_labels j) ''sycophant.md/grant'' = map_option fst grant"
    "map_of (job_pod_labels j) ''sycophant.md/workspace'' = Some ws"
    "map_of (job_pod_labels j) ''sycophant.md/toolset'' = Some toolset"
    "map_of (job_pod_labels j) ''sycophant.md/tool'' = Some tool"
    "job_name j = ''tool-'' @ tool_name_to_k8s_segment tool @ ''-'' @ take 8 call_id"
    by (cases grant; auto simp: whole runtime_pod_def map_of_label_map p)+
qed

text \<open>The pod's mounts are well-formed whatever path the grant asks for.\<close>

lemma tool_job_mounts_wf:
  assumes "build_tool_job to_json tool toolset entry call_id ns svc ws pvc sched grant = Some j"
    and "case grant of None \<Rightarrow> True | Some (_, g) \<Rightarrow> CHR ''/'' \<notin> set (cg_secret g)"
  shows "mounts_wf j"
  using assms(2) unfolding mounts_wf_def tool_job_pod(1,2) [OF assms(1)]
  by (cases grant) (auto simp: job_parts secret_basename_no_slash)

text \<open>The only Secret a tool pod mounts is that of its grant.\<close>

lemma tool_job_secret:
  assumes "build_tool_job to_json tool toolset entry call_id ns svc ws pvc sched grant = Some j"
  shows "mounted_secrets j = (case grant of None \<Rightarrow> []
     | Some (_, g) \<Rightarrow> [(cg_secret g, cg_secret g, grant_staging g)])"
  unfolding mounted_secrets_def tool_job_pod(1,2) [OF assms]
  by (cases grant) (auto simp: job_parts grant_staging_def)

end
