(* ===== verification/Pod_Start.thy ===== *)
theory Pod_Start
  imports Job Toolset_Runtime Inference_Runtime
begin

text \<open>
  From a Job to a serving pod: the start of the two runtimes, \<^verbatim>\<open>toolset-runtime/src/main.rs\<close>
  and \<^verbatim>\<open>inference-runtime/src/main.rs\<close>, and what it makes of the variables and mounts the
  harness put into the Job. The kubelet is an argument: the environment and the files a
  container starts with, of which the theorems assume what Kubernetes documents.
\<close>

section \<open>Starting a pod\<close>

text \<open>The readers and encoders of third-party crates.\<close>

record pod_libs =
  pl_parse_map :: "string \<Rightarrow> string + credential_map_entry list"
  pl_parse_scrub :: "string \<Rightarrow> scrub_entry list option"
  pl_b64 :: "string \<Rightarrow> string"
  pl_url :: "string \<Rightarrow> string"
  pl_de_format :: "string \<Rightarrow> string + wire_format"

definition load_scrub :: "pod_libs \<Rightarrow> (string \<Rightarrow> string option) \<Rightarrow> fs_faults \<Rightarrow> pod_fs \<Rightarrow> scrub_set" where
  "load_scrub lib env io fs =
     from_env_var (pl_b64 lib) (pl_url lib) env
       (\<lambda>p. case read_to_string io p fs of Inr v \<Rightarrow> Some v | Inl _ \<Rightarrow> None)
       (pl_parse_scrub lib) ''TOOLSET_SCRUB_SECRETS''"

record tool_service =
  ts_tool_name :: string
  ts_keepalive :: bool
  ts_scrub :: scrub_set

definition start_tool_pod ::
  "pod_libs \<Rightarrow> (string \<Rightarrow> string option) \<Rightarrow> fs_faults \<Rightarrow> (pod_fs, string, tool_service) stm" where
  "start_tool_pod lib env io =
     bindS (liftS (ok_or ''TOOLSET_TOOL_NAME must be set'' (env ''TOOLSET_TOOL_NAME''))) (\<lambda>tool_name.
     let keepalive = (env ''TOOLSET_KEEPALIVE'' = Some ''true'') in
     bindS (stage_credentials env (pl_parse_map lib) io) (\<lambda>_.
     getS (\<lambda>fs. \<lparr> ts_tool_name = tool_name, ts_keepalive = keepalive, ts_scrub = load_scrub lib env io fs \<rparr>)))"

text \<open>The log writer's scrub set is loaded before the credential is staged, the service's after.\<close>

record inference_service =
  is_log_scrub :: scrub_set
  is_format :: wire_format
  is_base_url :: string
  is_config :: provider_config
  is_scrub :: scrub_set

definition start_inference_pod ::
  "pod_libs \<Rightarrow> (string \<Rightarrow> string option) \<Rightarrow> fs_faults \<Rightarrow> (pod_fs, string, inference_service) stm" where
  "start_inference_pod lib env io =
     bindS (getS (load_scrub lib env io)) (\<lambda>log_scrub.
     bindS (stage_credentials env (pl_parse_map lib) io) (\<lambda>_.
     bindS (\<lambda>fs. (load_config env (pl_de_format lib) io fs, fs)) (\<lambda>(format, base_url, config).
     getS (\<lambda>fs. \<lparr> is_log_scrub = log_scrub, is_format = format, is_base_url = base_url, is_config = config,
       is_scrub = load_scrub lib env io fs \<rparr>))))"

section \<open>What the kubelet provides\<close>

text \<open>
  The container has the variables of its spec; a Secret's data key is a file at its mount;
  a read-only mount refuses writes; the JSON readers read what the printer printed.
\<close>

definition kubelet_env :: "job \<Rightarrow> (string \<Rightarrow> string option) \<Rightarrow> bool" where
  "kubelet_env j env \<longleftrightarrow> (\<forall>n v. pod_env j n = Some v \<longrightarrow> env n = Some v)"

definition kubelet_mounts :: "(string \<Rightarrow> string \<Rightarrow> string option) \<Rightarrow> job \<Rightarrow> pod_fs \<Rightarrow> bool" where
  "kubelet_mounts secrets j fs \<longleftrightarrow> list_all (\<lambda>(s, k, p). fs_files fs p = secrets s k) (mounted_secrets j)"

definition read_only_refused :: "job \<Rightarrow> fs_faults \<Rightarrow> bool" where
  "read_only_refused j io \<longleftrightarrow>
     list_all (\<lambda>m. vm_read_only m \<longrightarrow> ff_write io (vm_mount_path m) \<noteq> None) (pod_mounts j)"

definition registries_read_back :: "(json \<Rightarrow> string) \<Rightarrow> pod_libs \<Rightarrow> string \<Rightarrow> string \<Rightarrow> string \<Rightarrow> bool" where
  "registries_read_back to_json lib staging target secret \<longleftrightarrow>
     (let es = [\<lparr> ce_staging = staging, ce_target = target \<rparr>]; ss = [\<lparr> sm_secret = secret, sm_file = target \<rparr>] in
      to_json (credential_map_json es) \<noteq> [] \<and> pl_parse_map lib (to_json (credential_map_json es)) = Inr es \<and>
      to_json (scrub_registry_json ss) \<noteq> [] \<and>
      pl_parse_scrub lib (to_json (scrub_registry_json ss)) =
        Some [\<lparr> se_name = secret, se_env = None, se_file = Some target \<rparr>])"

section \<open>The environment of a job\<close>

lemma container_env_last:
  "map_of (rev (map (\<lambda>e. (ev_name e, ev_value e)) es)) n = Some v \<Longrightarrow>
   map_of (rev (map (\<lambda>e. (ev_name e, ev_value e)) (ds @ es))) n = Some v"
  by (simp add: map_of_append map_add_def)

lemma tool_job_env:
  assumes "build_tool_job to_json tool toolset entry call_id ns svc ws pvc sched (Some (gname, g)) = Some j"
  shows "pod_env j ''TOOLSET_CREDENTIAL_MAP'' =
      Some (to_json (credential_map_json [\<lparr> ce_staging = grant_staging g, ce_target = grant_target g \<rparr>]))"
    and "pod_env j ''TOOLSET_SCRUB_SECRETS'' =
      Some (to_json (scrub_registry_json [\<lparr> sm_secret = cg_secret g, sm_file = grant_target g \<rparr>]))"
  by (simp_all add: pod_env_def container_env_def tool_job_pod(3) [OF assms] credential_map_env_def)

lemma inference_job_parts:
  assumes "build_inference_job to_json call_id ns svc ws model_key sched img fmt model base_url secret = Some j"
  shows "mounted_secrets j = (case secret of None \<Rightarrow> []
      | Some s \<Rightarrow> [(s, s, ''/tmp/credentials/provider-credential/credential'')])"
    and "pod_env j ''INFERENCE_FORMAT'' = Some fmt" "pod_env j ''INFERENCE_MODEL'' = Some model"
    and "pod_env j ''INFERENCE_BASE_URL'' = Some base_url"
    and "pod_env j ''INFERENCE_API_KEY_FILE'' = map_option (\<lambda>_. PROVIDER_CREDENTIAL_PATH) secret"
    and "pod_env j ''TOOLSET_CREDENTIAL_MAP'' = map_option (\<lambda>_. to_json (credential_map_json
      [\<lparr> ce_staging = ''/tmp/credentials/provider-credential/credential'', ce_target = PROVIDER_CREDENTIAL_PATH \<rparr>])) secret"
    and "pod_env j ''TOOLSET_SCRUB_SECRETS'' =
      map_option (\<lambda>s. to_json (scrub_registry_json [\<lparr> sm_secret = s, sm_file = PROVIDER_CREDENTIAL_PATH \<rparr>])) secret"
proof -
  have base: "secret_basename PROVIDER_CREDENTIAL_PATH s = ''credential''" for s
    by (simp add: secret_basename_def PROVIDER_CREDENTIAL_PATH_def file_name_def path_components_def)
  from assms obtain p where id: "id_prefix call_id = Some p" by (auto simp: build_inference_job_def)
  note whole = assms [unfolded build_inference_job_def id option.map option.inject Let_def, symmetric]
  have mounts: "pod_mounts j = [rw_mount ''tmp'' ''/tmp'', rw_mount ''home'' ''/home/agent'', rw_mount ''provider'' PROVIDER_MOUNT_PATH]
      @ (case secret of None \<Rightarrow> [] | Some s \<Rightarrow> [credential_mount ''provider-credential'' (secret_basename PROVIDER_CREDENTIAL_PATH s)])"
    and volumes: "ps_volumes (job_pod j) = [empty_dir_volume ''tmp'', empty_dir_volume ''home'', empty_dir_volume ''provider'']
      @ (case secret of None \<Rightarrow> [] | Some s \<Rightarrow> [secret_volume ''provider-credential'' s (secret_basename PROVIDER_CREDENTIAL_PATH s)])"
    and env: "ct_env (hd (ps_containers (job_pod j))) =
      [\<lparr> ev_name = ''INFERENCE_BASE_URL'', ev_value = base_url \<rparr>, \<lparr> ev_name = ''INFERENCE_FORMAT'', ev_value = fmt \<rparr>,
       \<lparr> ev_name = ''INFERENCE_MODEL'', ev_value = model \<rparr>, \<lparr> ev_name = ''HOME'', ev_value = ''/home/agent'' \<rparr>]
      @ (case secret of None \<Rightarrow> [] | Some s \<Rightarrow>
          [credential_map_env to_json (staging_path ''provider-credential'' (secret_basename PROVIDER_CREDENTIAL_PATH s)) PROVIDER_CREDENTIAL_PATH,
           \<lparr> ev_name = ''INFERENCE_API_KEY_FILE'', ev_value = PROVIDER_CREDENTIAL_PATH \<rparr>]
          @ scrub_secrets_env to_json [\<lparr> sm_secret = s, sm_file = PROVIDER_CREDENTIAL_PATH \<rparr>])"
    unfolding whole pod_mounts_def runtime_pod_def runtime_container_def by simp_all
  show "mounted_secrets j = (case secret of None \<Rightarrow> []
      | Some s \<Rightarrow> [(s, s, ''/tmp/credentials/provider-credential/credential'')])"
    unfolding mounted_secrets_def mounts volumes by (cases secret) (auto simp: job_parts base)
  show "pod_env j ''INFERENCE_FORMAT'' = Some fmt" "pod_env j ''INFERENCE_MODEL'' = Some model"
    "pod_env j ''INFERENCE_BASE_URL'' = Some base_url"
    "pod_env j ''INFERENCE_API_KEY_FILE'' = map_option (\<lambda>_. PROVIDER_CREDENTIAL_PATH) secret"
    "pod_env j ''TOOLSET_CREDENTIAL_MAP'' = map_option (\<lambda>_. to_json (credential_map_json
      [\<lparr> ce_staging = ''/tmp/credentials/provider-credential/credential'', ce_target = PROVIDER_CREDENTIAL_PATH \<rparr>])) secret"
    "pod_env j ''TOOLSET_SCRUB_SECRETS'' =
      map_option (\<lambda>s. to_json (scrub_registry_json [\<lparr> sm_secret = s, sm_file = PROVIDER_CREDENTIAL_PATH \<rparr>])) secret"
    unfolding pod_env_def container_env_def env
    by (cases secret; simp add: credential_map_env_def scrub_secrets_env_def staging_path_def base)+
qed

section \<open>Credentials from the Secret to the tool\<close>

lemma load_scrub_one:
  assumes "env ''TOOLSET_SCRUB_SECRETS'' = Some json" "json \<noteq> []"
    and "pl_parse_scrub lib json = Some [\<lparr> se_name = n, se_env = None, se_file = Some target \<rparr>]"
  shows "load_scrub lib env io fs = from_secrets (pl_b64 lib) (pl_url lib)
     [(n, case read_to_string io target fs of Inr v \<Rightarrow> v | Inl _ \<Rightarrow> [])]"
  using assms
  by (simp add: load_scrub_def from_env_var_def entry_secret_def List.map_filter_def split: sum.splits)

lemma read_to_string_Inr:
  "ff_read io p = None \<Longrightarrow> fs_files fs p = Some v \<Longrightarrow> utf8_valid v \<Longrightarrow> read_to_string io p fs = Inr v"
  by (simp add: read_to_string_def fs_read_def)

text \<open>A tool pod that starts with a grant has the grant's Secret in place and registered.\<close>

lemma tool_pod_started:
  assumes job: "build_tool_job to_json tool toolset entry call_id ns svc ws pvc sched (Some (gname, g)) = Some j"
    and kubelet: "kubelet_env j env" "kubelet_mounts secrets j fs" "read_only_refused j io"
    and json: "registries_read_back to_json lib (grant_staging g) (grant_target g) (cg_secret g)"
    and v: "secrets (cg_secret g) (cg_secret g) = Some v" "utf8_valid v" "ff_read io (grant_target g) = None"
    and start: "start_tool_pod lib env io fs = (Inr service, fs')"
  shows "fs_files fs' (grant_target g) = Some v \<and> fs_mode fs' (grant_target g) = Some 384 \<and>
    (\<forall>p. p \<noteq> grant_target g \<longrightarrow> fs_files fs' p = fs_files fs p) \<and>
    ts_scrub service = from_secrets (pl_b64 lib) (pl_url lib) [(cg_secret g, v)]"
proof -
  let ?e = "\<lparr> ce_staging = grant_staging g, ce_target = grant_target g \<rparr>"
  have env: "env ''TOOLSET_CREDENTIAL_MAP'' = Some (to_json (credential_map_json [?e]))"
    "env ''TOOLSET_SCRUB_SECRETS'' = Some (to_json (scrub_registry_json [\<lparr> sm_secret = cg_secret g, sm_file = grant_target g \<rparr>]))"
    using kubelet(1) tool_job_env [OF job] by (auto simp: kubelet_env_def)
  have staged: "fs_files fs (grant_staging g) = Some v"
    using kubelet(2) v(1) by (simp add: kubelet_mounts_def tool_job_secret [OF job])
  have ro: "ff_write io (grant_staging g) \<noteq> None"
    using kubelet(3) by (simp add: read_only_refused_def tool_job_pod(1) [OF job] credential_mount_def grant_staging_def)
  from start have entry: "stage_entry io ?e fs = (Inr (), fs')"
    and scrub: "ts_scrub service = load_scrub lib env io fs'"
    using env(1) json
    by (auto simp: start_tool_pod_def stage_credentials_def registries_read_back_def result_simps Let_def)
  have "grant_staging g \<noteq> grant_target g"
    using entry ro by (auto simp: stage_entry_def result_simps Let_def)
  with stage_entry_lands [OF entry] staged
  have landed: "fs_files fs' (grant_target g) = Some v" "fs_mode fs' (grant_target g) = Some 384"
    "\<And>p. p \<noteq> grant_target g \<Longrightarrow> fs_files fs' p = fs_files fs p" by auto
  have "ts_scrub service = from_secrets (pl_b64 lib) (pl_url lib) [(cg_secret g, v)]"
    using load_scrub_one [where env = env and lib = lib and io = io and fs = fs', OF env(2)] json
      read_to_string_Inr [OF v(3) landed(1) v(2)]
    by (simp add: scrub registries_read_back_def Let_def)
  with landed show ?thesis by blast
qed


text \<open>A printer and readers for the two registries of one pod, and a pod with a grant.\<close>

definition sample_json :: "json \<Rightarrow> string" where
  "sample_json j = (case j of JArray [JObject ((k, v) # _)] \<Rightarrow> k | _ \<Rightarrow> ''x'')"

definition sample_pod_libs :: "string \<Rightarrow> string \<Rightarrow> string \<Rightarrow> pod_libs" where
  "sample_pod_libs staging target secret = \<lparr>
     pl_parse_map = (\<lambda>s. if s = ''staging'' then Inr [\<lparr> ce_staging = staging, ce_target = target \<rparr>] else Inl ''bad''),
     pl_parse_scrub = (\<lambda>s. if s = ''file'' then Some [\<lparr> se_name = secret, se_env = None, se_file = Some target \<rparr>] else None),
     pl_b64 = hex_encode, pl_url = hex_encode,
     pl_de_format = (\<lambda>s. if s = [CHR 0x22] @ ''openai'' @ [CHR 0x22] then Inr OpenAi else Inl ''unknown variant'') \<rparr>"

lemma sample_registries: "registries_read_back sample_json (sample_pod_libs staging target secret) staging target secret"
  by (simp add: registries_read_back_def sample_json_def sample_pod_libs_def credential_map_json_def scrub_registry_json_def)

definition refusing :: "string list \<Rightarrow> fs_faults" where
  "refusing ps = no_faults\<lparr> ff_write := (\<lambda>p. if p \<in> set ps then Some (Refused ''Read-only file system (os error 30)'') else None) \<rparr>"


section \<open>The inference pod\<close>

lemma stage_entry_no_faults:
  assumes "fs_files fs (ce_staging e) = Some v" "ce_staging e \<noteq> ce_target e"
  shows "stage_entry no_faults e fs = (Inr (), fs\<lparr> fs_files := (fs_files fs)(ce_target e \<mapsto> v),
    fs_mode := (fs_mode fs)(ce_target e \<mapsto> 384) \<rparr>)"
  using assms
  by (auto simp: stage_entry_def result_simps no_faults_def create_dir_all_def put_file_def Let_def split: option.split)



end
