(* ===== verification/Instructions.thy ===== *)
theory Instructions
  imports Pod Ordered_Map
begin

text \<open>
  The reader of a workspace's instruction tree, \<^verbatim>\<open>harness/src/instructions.rs\<close>, over a file
  system with symbolic links. The tree does not change while one operation runs. The
  theorems: whatever links the tree has, a read stays below the workspace's root, and
  a listed file without hidden components in its path can be read.
\<close>

section \<open>The file system\<close>

text \<open>
  A regular file gives its bytes or the error of reading it; a directory may refuse to be
  read; anything else is neither. Searching a path may fail too.
\<close>

datatype inode = Reg "io_error + string" | Dir bool "(string \<times> inode) list" | Link string | Special

record host_fs =
  hf_root :: inode
  hf_max_links :: nat
  hf_fault :: "string list \<Rightarrow> io_error option"

fun inode_at :: "inode \<Rightarrow> string list \<Rightarrow> inode option" where
  "inode_at node [] = Some node"
| "inode_at (Dir b es) (c # cs) = Option.bind (map_of es c) (\<lambda>n. inode_at n cs)"
| "inode_at _ (c # cs) = None"

definition is_directory :: "inode option \<Rightarrow> bool" where
  "is_directory n \<longleftrightarrow> (case n of Some (Dir _ _) \<Rightarrow> True | _ \<Rightarrow> False)"

text \<open>
  \<^verbatim>\<open>canonicalize\<close>: from a place without links, component by component; a link is replaced
  by its target, up to the system's limit. The result has the links that are left.
\<close>

function walk :: "host_fs \<Rightarrow> nat \<Rightarrow> string list \<Rightarrow> string list \<Rightarrow> io_error + nat \<times> string list" where
  "walk fs n cur [] = Inr (n, cur)"
| "walk fs n cur (c # cs) =
     (if \<not> is_directory (inode_at (hf_root fs) cur) then Inl (Io_Other ''Not a directory (os error 20)'')
      else if c = [] \<or> c = ''.'' then walk fs n cur cs
      else if c = ''..'' then walk fs n (butlast cur) cs
      else
        case hf_fault fs (cur @ [c]) of
          Some e \<Rightarrow> Inl e
        | None \<Rightarrow>
            (case inode_at (hf_root fs) (cur @ [c]) of
               None \<Rightarrow> Inl (Io_NotFound ''No such file or directory (os error 2)'')
             | Some (Link target) \<Rightarrow>
                 (case n of
                    0 \<Rightarrow> Inl (Io_Other ''Too many levels of symbolic links (os error 40)'')
                  | Suc m \<Rightarrow> walk fs m (if starts_with target ''/'' then [] else cur) (split_char CHR ''/'' target @ cs))
             | Some _ \<Rightarrow> walk fs n (cur @ [c]) cs))"
  by pat_completeness auto
termination by (relation "measures [\<lambda>(fs, n, cur, cs). n, \<lambda>(fs, n, cur, cs). length cs]") auto

definition canonicalize :: "host_fs \<Rightarrow> string list \<Rightarrow> io_error + string list" where
  "canonicalize fs path = and_then (walk fs (hf_max_links fs) [] path) (\<lambda>(n, p). Inr p)"

text \<open>\<^verbatim>\<open>read_to_string\<close> of a canonical path.\<close>

definition read_canonical :: "host_fs \<Rightarrow> string list \<Rightarrow> io_error + string" where
  "read_canonical fs p =
     (case inode_at (hf_root fs) p of
        Some (Reg r) \<Rightarrow> and_then r (\<lambda>c.
          if utf8_valid c then Inr c else Inl (Io_Other ''stream did not contain valid UTF-8''))
      | Some (Dir _ _) \<Rightarrow> Inl (Io_Other ''Is a directory (os error 21)'')
      | Some _ \<Rightarrow> Inl (Io_Other ''Invalid argument (os error 22)'')
      | None \<Rightarrow> Inl (Io_NotFound ''No such file or directory (os error 2)''))"

section \<open>The reader\<close>

datatype instructions_error = Ins_NotFound | Ins_InvalidName string | Ins_PathEscape | Ins_Io io_error

record instructions =
  in_root :: "string list"

definition validate_basename :: "string \<Rightarrow> instructions_error + unit" where
  "validate_basename name =
     (if name = [] then Inl (Ins_InvalidName name)
      else if CHR ''/'' \<in> set name \<or> CHR 0x5C \<in> set name \<or> name = ''.'' \<or> name = ''..'' then
        Inl (Ins_InvalidName name)
      else if starts_with name ''.'' then Inl (Ins_InvalidName name)
      else Inr ())"

definition bad_component :: "string \<Rightarrow> bool" where
  "bad_component c \<longleftrightarrow>
     c = [] \<or> c = ''.'' \<or> c = ''..'' \<or> CHR 0x5C \<in> set c \<or> starts_with c ''.''"

definition validate_relpath :: "string \<Rightarrow> instructions_error + unit" where
  "validate_relpath rel =
     (if rel = [] \<or> starts_with rel ''/'' then Inl (Ins_InvalidName rel)
      else if list_ex bad_component (split_char CHR ''/'' rel) then Inl (Ins_InvalidName rel)
      else Inr ())"

definition workspace_root :: "instructions \<Rightarrow> string \<Rightarrow> instructions_error + string list" where
  "workspace_root ins workspace =
     and_then (validate_basename workspace) (\<lambda>_. Inr (in_root ins @ [workspace]))"

definition not_found_or_io :: "io_error \<Rightarrow> instructions_error" where
  "not_found_or_io e = (case e of Io_NotFound _ \<Rightarrow> Ins_NotFound | Io_Other _ \<Rightarrow> Ins_Io e)"

text \<open>The two canonical paths and the check that one is below the other.\<close>

definition confine :: "host_fs \<Rightarrow> string list \<Rightarrow> string list \<Rightarrow> instructions_error + string list" where
  "confine fs ws_root full =
     and_then (map_err not_found_or_io (canonicalize fs full)) (\<lambda>canonical.
     and_then (map_err Ins_Io (canonicalize fs ws_root)) (\<lambda>canonical_root.
     if \<not> prefix canonical_root canonical then Inl Ins_PathEscape else Inr canonical))"

definition read_rel :: "host_fs \<Rightarrow> instructions \<Rightarrow> string \<Rightarrow> string \<Rightarrow> instructions_error + string" where
  "read_rel fs ins workspace rel_path =
     and_then (validate_relpath rel_path) (\<lambda>_.
     and_then (workspace_root ins workspace) (\<lambda>ws_root.
     and_then (confine fs ws_root (ws_root @ split_char CHR ''/'' rel_path)) (\<lambda>canonical.
     map_err Ins_Io (read_canonical fs canonical))))"

text \<open>\<^verbatim>\<open>Path::extension\<close> of the last component.\<close>

definition name_extension :: "string \<Rightarrow> string option" where
  "name_extension name =
     (if name = ''..'' \<or> CHR ''.'' \<notin> set name then None
      else
        let after = rev (takeWhile (\<lambda>c. c \<noteq> CHR ''.'') (rev name)) in
        if length name = length after + 1 then None else Some after)"

definition read_md :: "host_fs \<Rightarrow> instructions \<Rightarrow> string \<Rightarrow> string \<Rightarrow> instructions_error + string" where
  "read_md fs ins workspace rel =
     and_then (workspace_root ins workspace) (\<lambda>ws_root.
     and_then (confine fs ws_root (ws_root @ split_char CHR ''/'' rel)) (\<lambda>canonical.
     if canonical = [] \<or> name_extension (last canonical) \<noteq> Some ''md'' then Inl (Ins_InvalidName rel)
     else map_err Ins_Io (read_canonical fs canonical)))"

definition read_primary_agent :: "host_fs \<Rightarrow> instructions \<Rightarrow> string \<Rightarrow> instructions_error + string" where
  "read_primary_agent fs ins workspace = read_md fs ins workspace ''AGENTS.md''"

definition slice_lines :: "string \<Rightarrow> nat option \<Rightarrow> nat option \<Rightarrow> string" where
  "slice_lines body offset limit =
     (if offset = None \<and> limit = None then body
      else
        let ls = lines body;
            start = min (case offset of Some k \<Rightarrow> k - 1 | None \<Rightarrow> 0) (length ls);
            stop = (case limit of Some l \<Rightarrow> min (start + l) (length ls) | None \<Rightarrow> length ls)
        in join [newline] (drop start (take stop ls)))"

definition read_instructions ::
  "host_fs \<Rightarrow> instructions \<Rightarrow> string \<Rightarrow> string \<Rightarrow> nat option \<Rightarrow> nat option \<Rightarrow> instructions_error + string" where
  "read_instructions fs ins workspace rel_path offset limit =
     and_then (read_rel fs ins workspace rel_path) (\<lambda>body. Inr (slice_lines body offset limit))"

fun collect_files :: "string list \<Rightarrow> inode \<Rightarrow> string list"
  and collect_entries :: "string list \<Rightarrow> (string \<times> inode) list \<Rightarrow> string list" where
  "collect_files rel (Dir readable es) = (if readable then collect_entries rel es else [])"
| "collect_files rel _ = []"
| "collect_entries rel [] = []"
| "collect_entries rel ((name, node) # es) =
     (let path = rel @ [name] in
      (case node of
         Dir _ _ \<Rightarrow> collect_files path node
       | Reg _ \<Rightarrow> (let s = join ''/'' path in if utf8_valid s then [s] else [])
       | _ \<Rightarrow> [])) @ collect_entries rel es"

definition list_tree :: "host_fs \<Rightarrow> instructions \<Rightarrow> string \<Rightarrow> nat \<Rightarrow> string list" where
  "list_tree fs ins workspace cap =
     (case workspace_root ins workspace of
        Inl _ \<Rightarrow> []
      | Inr ws_root \<Rightarrow>
          (case canonicalize fs ws_root of
             Inl _ \<Rightarrow> []
           | Inr canonical_root \<Rightarrow>
               (case inode_at (hf_root fs) canonical_root of
                  Some node \<Rightarrow> take cap (sort (collect_files [] node))
                | None \<Rightarrow> [])))"

text \<open>\<^verbatim>\<open>first_paragraph\<close>: the loop over the lines with its buffer.\<close>

fun first_paragraph_lines :: "string list \<Rightarrow> string \<Rightarrow> string" where
  "first_paragraph_lines [] buf = buf"
| "first_paragraph_lines (l # ls) buf =
     (let trimmed = trim l in
      if trimmed = [] then (if buf \<noteq> [] then buf else first_paragraph_lines ls buf)
      else if starts_with trimmed ''#'' then first_paragraph_lines ls buf
      else first_paragraph_lines ls (buf @ (if buf \<noteq> [] then '' '' else []) @ trimmed))"

definition first_paragraph :: "string \<Rightarrow> string" where
  "first_paragraph body = first_paragraph_lines (lines body) []"

section \<open>Paths without links\<close>

lemma inode_at_append:
  "inode_at node (xs @ ys) = Option.bind (inode_at node xs) (\<lambda>n. inode_at n ys)"
  by (induction node xs rule: inode_at.induct) (auto simp: bind_eq_Some split: option.splits bind_splits)

lemma walk_append:
  "walk fs n cur (xs @ ys) = and_then (walk fs n cur xs) (\<lambda>(m, p). walk fs m p ys)"
proof (induction fs n cur xs rule: walk.induct)
  case (2 fs n cur c cs)
  consider "\<not> is_directory (inode_at (hf_root fs) cur) \<or> c = [] \<or> c = ''.'' \<or> c = ''..'' \<or> hf_fault fs (cur @ [c]) \<noteq> None"
    | t where "inode_at (hf_root fs) (cur @ [c]) = Some (Link t)"
    | "\<nexists>t. inode_at (hf_root fs) (cur @ [c]) = Some (Link t)" by blast
  then show ?case
  proof cases
    case 1
    with 2(1,2) show ?thesis by (auto split: option.split)
  next
    case (2 t)
    with "2.IH"(1,2) "2.IH"(5) [OF _ _ _ _ 2 refl] show ?thesis by (cases n) (auto split: option.split)
  next
    case 3
    with "2.IH"(1-4,6) show ?thesis by (auto split: option.split inode.split)
  qed
qed simp

text \<open>A path of proper names without links below a place walks to itself.\<close>

definition proper_name :: "string \<Rightarrow> bool" where
  "proper_name c \<longleftrightarrow> c \<noteq> [] \<and> c \<noteq> ''.'' \<and> c \<noteq> ''..'' \<and> CHR ''/'' \<notin> set c"

lemma walk_plain:
  assumes "inode_at (hf_root fs) cur = Some node" "inode_at node cs = Some (Reg r)"
    and "list_all proper_name cs" "\<And>p. hf_fault fs p = None"
  shows "walk fs n cur cs = Inr (n, cur @ cs)"
  using assms
proof (induction cs arbitrary: cur node)
  case (Cons c cs)
  from Cons.prems(2) obtain b es where node: "node = Dir b es" by (cases node) auto
  with Cons.prems(2) obtain next_node where nx: "map_of es c = Some next_node" "inode_at next_node cs = Some (Reg r)"
    by (auto simp: bind_eq_Some)
  have here: "inode_at (hf_root fs) (cur @ [c]) = Some next_node"
    using Cons.prems(1) node nx by (simp add: inode_at_append)
  have "\<nexists>t. next_node = Link t" using nx(2) by (cases cs) auto
  with Cons.IH [OF here nx(2)] Cons.prems node here show ?case
    by (cases next_node) (auto simp: is_directory_def proper_name_def)
qed simp

section \<open>Confinement\<close>

lemma confine_below:
  assumes "confine fs ws_root full = Inr canonical"
  obtains canonical_root rel where "canonicalize fs ws_root = Inr canonical_root" "canonical = canonical_root @ rel"
  using assms by (auto simp: confine_def result_simps elim: prefixE)

lemma read_canonical_Inr:
  "read_canonical fs p = Inr c \<longleftrightarrow> inode_at (hf_root fs) p = Some (Reg (Inr c)) \<and> utf8_valid c"
  by (auto simp: read_canonical_def result_simps split: option.splits inode.splits)

text \<open>
  C13. Reads stay in the workspace. Whatever a path asks for and wherever the links in the
  tree point, a read that succeeds, of a file by its path or of the primary agent, returns
  the text of a regular file that lies, without any link, below the canonical root of the
  workspace's own instructions.
\<close>

theorem instructions_confined:
  assumes "read_rel fs ins workspace rel_path = Inr body \<or> read_primary_agent fs ins workspace = Inr body"
  shows "\<exists>root tree path. validate_basename workspace = Inr () \<and>
    canonicalize fs (in_root ins @ [workspace]) = Inr root \<and> inode_at (hf_root fs) root = Some tree \<and>
    inode_at tree path = Some (Reg (Inr body))"
proof -
  from assms obtain full canonical where ws: "validate_basename workspace = Inr ()"
    and conf: "confine fs (in_root ins @ [workspace]) full = Inr canonical"
    and read: "read_canonical fs canonical = Inr body"
    by (auto simp: read_rel_def read_primary_agent_def read_md_def workspace_root_def result_simps)
  from confine_below [OF conf] obtain root path where "canonicalize fs (in_root ins @ [workspace]) = Inr root"
    "canonical = root @ path" .
  with ws read show ?thesis
    by (auto simp: read_canonical_Inr inode_at_append bind_eq_Some)
qed

definition sample_fs :: host_fs where
  "sample_fs = \<lparr> hf_root = Dir True
     [(''etc'', Dir True [(''ins'', Dir True
        [(''ws1'', Dir True [(''AGENTS.md'', Reg (Inr ''be kind'')), (''leak'', Link ''../ws2/key''),
            (''skills'', Dir True [(''a.md'', Reg (Inr ''# A'')), (''.b'', Reg (Inr ''hidden''))]), (''alias'', Link ''skills'')]),
         (''ws2'', Dir True [(''key'', Reg (Inr ''k''))])])])],
     hf_max_links = 40, hf_fault = (\<lambda>_. None) \<rparr>"

definition sample_instructions :: instructions where
  "sample_instructions = \<lparr> in_root = [''etc'', ''ins''] \<rparr>"

theorem instructions_confined_witness:
  "read_rel sample_fs sample_instructions ''ws1'' ''alias/a.md'' = Inr ''# A'' \<and>
   (\<exists>root tree path. validate_basename ''ws1'' = Inr () \<and>
    canonicalize sample_fs (in_root sample_instructions @ [''ws1'']) = Inr root \<and>
    inode_at (hf_root sample_fs) root = Some tree \<and> inode_at tree path = Some (Reg (Inr ''# A'')))"
proof -
  have "read_rel sample_fs sample_instructions ''ws1'' ''alias/a.md'' = Inr ''# A''" by code_simp
  then show ?thesis
    using instructions_confined [of sample_fs sample_instructions "''ws1''" "''alias/a.md''" "''# A''"] by blast
qed

text \<open>A link out of the workspace is followed and then refused.\<close>

lemma link_escape_refused:
  "read_rel sample_fs sample_instructions ''ws1'' ''leak'' = Inl Ins_PathEscape"
  by code_simp

section \<open>Listing\<close>

text \<open>Names in a directory are proper and distinct.\<close>

fun tree_wf :: "inode \<Rightarrow> bool" and entries_wf :: "(string \<times> inode) list \<Rightarrow> bool" where
  "tree_wf (Dir b es) = (distinct (map fst es) \<and> entries_wf es)"
| "tree_wf _ = True"
| "entries_wf [] = True"
| "entries_wf ((n, t) # es) = (proper_name n \<and> tree_wf t \<and> entries_wf es)"

lemma collect_sound:
  shows "tree_wf node \<Longrightarrow> s \<in> set (collect_files rel node) \<Longrightarrow>
     \<exists>path r. path \<noteq> [] \<and> s = join ''/'' (rel @ path) \<and> inode_at node path = Some (Reg r) \<and> list_all proper_name path"
    and "entries_wf es \<Longrightarrow> distinct (map fst es) \<Longrightarrow> s \<in> set (collect_entries rel es) \<Longrightarrow>
     \<exists>path r b. path \<noteq> [] \<and> s = join ''/'' (rel @ path) \<and> inode_at (Dir b es) path = Some (Reg r) \<and> list_all proper_name path"
proof (induction rel node and rel es rule: collect_files_collect_entries.induct)
  case (1 rel readable es)
  then obtain path r b where "path \<noteq> []" "s = join ''/'' (rel @ path)" "inode_at (Dir b es) path = Some (Reg r)"
    "list_all proper_name path" by (auto split: if_splits)
  then show ?case by (cases path) auto
next
  case (4 rel name node es)
  consider "s \<in> set (collect_entries rel es)"
    | "s \<in> set (collect_files (rel @ [name]) node)" "is_directory (Some node)"
    | r where "s = join ''/'' (rel @ [name])" "node = Reg r"
    using 4(5) by (cases node) (auto simp: is_directory_def Let_def split: if_splits)
  then show ?case
  proof cases
    case 1
    with 4 obtain path r b where p: "path \<noteq> []" "s = join ''/'' (rel @ path)" "inode_at (Dir b es) path = Some (Reg r)"
      "list_all proper_name path" by auto
    then obtain c cs where "path = c # cs" by (cases path) auto
    with p have "c \<in> fst ` set es" by (auto simp: bind_eq_Some dest: map_of_SomeD intro: rev_image_eqI)
    with 4(4) have "c \<noteq> name" by auto
    with p \<open>path = c # cs\<close> show ?thesis by (intro exI [of _ path]) auto
  next
    case 2
    then obtain b es' where "node = Dir b es'" by (auto simp: is_directory_def split: inode.splits)
    from 4(1) [OF refl this] 4(3) 2 obtain path r where "path \<noteq> []" "s = join ''/'' ((rel @ [name]) @ path)" "inode_at node path = Some (Reg r)"
      "list_all proper_name path" by fastforce
    with 4(3) show ?thesis by (intro exI [of _ "name # path"]) auto
  next
    case 3
    with 4(3) show ?thesis by (intro exI [of _ "[name]"]) auto
  qed
qed auto

lemma entries_wf_map_of: "entries_wf es \<Longrightarrow> map_of es c = Some t \<Longrightarrow> tree_wf t"
  by (induction es) (auto split: if_splits)

lemma tree_wf_at: "inode_at node path = Some t \<Longrightarrow> tree_wf node \<Longrightarrow> tree_wf t"
  by (induction node path rule: inode_at.induct) (auto simp: bind_eq_Some dest: entries_wf_map_of)

text \<open>A listed path that has no hidden component and no backslash is a valid path of the reader.\<close>

definition readable_name :: "string \<Rightarrow> bool" where
  "readable_name c \<longleftrightarrow> CHR 0x5C \<notin> set c \<and> \<not> starts_with c ''.''"

lemma join_head: "path \<noteq> [] \<Longrightarrow> hd path \<noteq> [] \<Longrightarrow> join d path \<noteq> [] \<and> hd (join d path) = hd (hd path)"
  by (induction d path rule: join.induct) auto

lemma validate_relpath_join:
  assumes "path \<noteq> []" "list_all proper_name path" "list_all readable_name path"
  shows "validate_relpath (join ''/'' path) = Inr ()" "split_char CHR ''/'' (join ''/'' path) = path"
proof -
  show split: "split_char CHR ''/'' (join ''/'' path) = path"
    using assms(1,2) by (intro join_split_char) (auto simp: list_all_iff proper_name_def)
  have hd: "hd path \<noteq> []" "CHR ''/'' \<notin> set (hd path)" using assms(1,2) by (cases path; auto simp: proper_name_def)+
  with join_head [OF assms(1) hd(1), of "''/''"] have "join ''/'' path \<noteq> []" "\<not> starts_with (join ''/'' path) ''/''"
    by (cases "join ''/'' path"; cases "hd path"; auto)+
  moreover have "\<not> list_ex bad_component path"
    using assms(2,3) by (auto simp: list_all_iff list_ex_iff bad_component_def proper_name_def readable_name_def)
  ultimately show "validate_relpath (join ''/'' path) = Inr ()" by (simp add: validate_relpath_def split)
qed

text \<open>
  C34. What is listed can be read. On a tree without faults, every path in the listing of a
  workspace, unless a component is hidden or has a backslash, names a regular file below the
  workspace's root, and reading it returns exactly that file's text, or says why the file
  itself cannot be read. The listing is sorted and has at most so many paths.
\<close>

theorem listed_file_reads:
  assumes "rel_path \<in> set (list_tree fs ins workspace cap)"
    and "list_all readable_name (split_char CHR ''/'' rel_path)"
    and "tree_wf (hf_root fs)" "\<And>p. hf_fault fs p = None"
  shows "\<exists>root tree r. canonicalize fs (in_root ins @ [workspace]) = Inr root \<and>
      inode_at (hf_root fs) root = Some tree \<and>
      inode_at tree (split_char CHR ''/'' rel_path) = Some (Reg r) \<and>
      read_rel fs ins workspace rel_path = map_err Ins_Io (read_canonical fs (root @ split_char CHR ''/'' rel_path)) \<and>
      sorted (list_tree fs ins workspace cap) \<and> length (list_tree fs ins workspace cap) \<le> cap"
proof -
  from assms(1) obtain root where ws: "workspace_root ins workspace = Inr (in_root ins @ [workspace])"
    and root: "canonicalize fs (in_root ins @ [workspace]) = Inr root"
    by (cases "validate_basename workspace"; cases "canonicalize fs (in_root ins @ [workspace])")
      (auto simp: list_tree_def workspace_root_def)
  from assms(1) obtain tree where tree: "inode_at (hf_root fs) root = Some tree"
    by (cases "inode_at (hf_root fs) root") (auto simp: list_tree_def ws root)
  have listed: "list_tree fs ins workspace cap = take cap (sort (collect_files [] tree))"
    by (simp add: list_tree_def ws root tree)
  have "tree_wf tree" using tree assms(3) by (rule tree_wf_at)
  moreover have "rel_path \<in> set (collect_files [] tree)" using assms(1) listed by (auto dest: in_set_takeD)
  ultimately obtain path r where path: "path \<noteq> []" "rel_path = join ''/'' path" "inode_at tree path = Some (Reg r)"
      "list_all proper_name path"
    using collect_sound(1) [of tree rel_path "[]"] by auto
  have split: "split_char CHR ''/'' rel_path = path"
    unfolding path(2) using path(1,4) by (intro join_split_char) (auto simp: list_all_iff proper_name_def)
  have valid: "validate_relpath rel_path = Inr ()"
    using validate_relpath_join(1) [OF path(1,4)] assms(2) path(2) split by simp
  from root obtain m where "walk fs (hf_max_links fs) [] (in_root ins @ [workspace]) = Inr (m, root)"
    by (auto simp: canonicalize_def result_simps)
  with walk_plain [OF tree path(3,4) assms(4)]
  have "canonicalize fs ((in_root ins @ [workspace]) @ path) = Inr (root @ path)"
    by (simp only: canonicalize_def walk_append) simp
  then have "read_rel fs ins workspace rel_path = map_err Ins_Io (read_canonical fs (root @ path))"
    by (simp add: read_rel_def valid ws confine_def root split)
  with root tree path(3) split listed show ?thesis by (auto intro: sorted_wrt_take)
qed

theorem listed_file_reads_witness:
  "list_tree sample_fs sample_instructions ''ws1'' 10 = [''AGENTS.md'', ''skills/.b'', ''skills/a.md''] \<and>
   read_rel sample_fs sample_instructions ''ws1'' ''skills/a.md'' = Inr ''# A''"
proof -
  have listed: "list_tree sample_fs sample_instructions ''ws1'' 10 = [''AGENTS.md'', ''skills/.b'', ''skills/a.md'']"
    by code_simp
  have split: "split_char CHR ''/'' ''skills/a.md'' = [''skills'', ''a.md'']" by code_simp
  have names: "list_all readable_name [''skills'', ''a.md'']" by code_simp
  have wf: "tree_wf (hf_root sample_fs)" by (simp add: sample_fs_def proper_name_def)
  have root: "canonicalize sample_fs (in_root sample_instructions @ [''ws1'']) = Inr [''etc'', ''ins'', ''ws1'']" by code_simp
  have body: "read_canonical sample_fs [''etc'', ''ins'', ''ws1'', ''skills'', ''a.md''] = Inr ''# A''" by code_simp
  from listed_file_reads [of "''skills/a.md''" sample_fs sample_instructions "''ws1''" 10]
  show ?thesis using listed split names wf root body by (auto simp: sample_fs_def)
qed

text \<open>A hidden file is listed and cannot be read.\<close>

lemma hidden_listed_not_read:
  "''skills/.b'' \<in> set (list_tree sample_fs sample_instructions ''ws1'' 10) \<and>
   read_rel sample_fs sample_instructions ''ws1'' ''skills/.b'' = Inl (Ins_InvalidName ''skills/.b'')"
  by code_simp

end
