(* ===== verification/Dispatch.thy ===== *)
theory Dispatch
  imports Job Tool_Router
begin

text \<open>
  The dispatch of tool calls to pods, \<^verbatim>\<open>harness/src/dispatch.rs\<close>: the queue, the senders, the
  cancel tokens and the table of active Jobs, and the tasks that work on them. A task is the
  point \<^verbatim>\<open>begin_call\<close> or a dial driver has reached; it moves from one use of the shared state
  to the next, and the tasks of all calls interleave in any order. An operation of the shared
  state is one step, also where it takes the locks of two maps in turn. The answers of the API
  server and of the pods, the clock and the iteration order of the hash maps come with each
  step. What holds in every reachable state is in \<open>Dispatch_Safety\<close>: a call only ever runs on
  the pod that was created for its tool and its grant.
\<close>

section \<open>Result channels\<close>

definition RESULT_CHANNEL_CAPACITY :: nat where
  "RESULT_CHANNEL_CAPACITY = 64"

text \<open>The frames sent so far, how many of them were received, and the two ends.\<close>

record channel =
  ch_sent :: "tool_result_frame list"
  ch_taken :: nat
  ch_open :: bool
  ch_receiver :: bool

definition channel_new :: channel where
  "channel_new = \<lparr> ch_sent = [], ch_taken = 0, ch_open = True, ch_receiver = True \<rparr>"

definition ch_room :: "channel \<Rightarrow> bool" where
  "ch_room ch \<longleftrightarrow> length (ch_sent ch) - ch_taken ch < RESULT_CHANNEL_CAPACITY"

definition try_send :: "tool_result_frame \<Rightarrow> channel \<Rightarrow> channel" where
  "try_send f ch = (if ch_receiver ch \<and> ch_room ch then ch\<lparr> ch_sent := ch_sent ch @ [f] \<rparr> else ch)"

text \<open>\<^verbatim>\<open>send(..).await\<close>: \<^const>\<open>None\<close> while the channel is full; without a receiver the frame is lost.\<close>

definition chan_send :: "tool_result_frame \<Rightarrow> channel \<Rightarrow> channel option" where
  "chan_send f ch =
     (if \<not> ch_receiver ch then Some ch
      else if ch_room ch then Some (ch\<lparr> ch_sent := ch_sent ch @ [f] \<rparr>)
      else None)"

text \<open>\<^verbatim>\<open>ToolResultGuard\<close>: the drop fires a terminal unless the guard was marked.\<close>

record tool_result_guard =
  tg_complete :: bool

definition guard_new :: tool_result_guard where
  "guard_new = \<lparr> tg_complete = False \<rparr>"

definition mark_complete :: "tool_result_guard \<Rightarrow> tool_result_guard" where
  "mark_complete g = g\<lparr> tg_complete := True \<rparr>"

definition guard_drop :: "tool_result_guard \<Rightarrow> channel \<Rightarrow> channel" where
  "guard_drop g ch =
     (if tg_complete g then ch else try_send failed_terminal ch)\<lparr> ch_open := False \<rparr>"

section \<open>The shared state\<close>

record pending_call =
  pq_call_id :: string
  pq_tool_name :: string
  pq_args :: "string \<rightharpoonup> string"
  pq_working_dir :: string
  pq_grant :: "string option"
  pq_target_job_id :: string

datatype record_eviction = Removed | NoRecord | SupersededByAnotherJob

record active_job =
  aj_job_name :: string
  aj_job_id :: string
  aj_tool_name :: string
  aj_keepalive_seconds :: nat
  aj_grant :: "string option"
  aj_last_activity :: nat

type_synonym active_key = "string \<times> string option"

record spawn_config =
  sp_namespace :: string
  sp_service_name :: string
  sp_workspace :: string
  sp_workspace_pvc :: string
  sp_scheduling :: scheduling_config

record dispatch_state =
  ds_pending_calls :: "active_key \<rightharpoonup> pending_call list"
  ds_result_txs :: "string \<rightharpoonup> tool_result_guard"
  ds_call_ids :: "string \<rightharpoonup> string"
  ds_cancel_tokens :: "string set"
  ds_active_jobs :: "active_key \<rightharpoonup> active_job"
  ds_dispatch_locks :: "string set"

definition spawn_new :: "string \<Rightarrow> string \<Rightarrow> string \<Rightarrow> scheduling_config \<Rightarrow> spawn_config" where
  "spawn_new namespace service_name workspace scheduling =
     \<lparr> sp_namespace = namespace, sp_service_name = service_name, sp_workspace = workspace,
       sp_workspace_pvc = WORKSPACE_PREFIX @ workspace @ ''-data'', sp_scheduling = scheduling \<rparr>"

definition dispatch_new :: dispatch_state where
  "dispatch_new = \<lparr> ds_pending_calls = Map.empty, ds_result_txs = Map.empty, ds_call_ids = Map.empty,
     ds_cancel_tokens = {}, ds_active_jobs = Map.empty, ds_dispatch_locks = {} \<rparr>"

definition TOOL_KEEPALIVE_IDLE_SECONDS :: nat where
  "TOOL_KEEPALIVE_IDLE_SECONDS = 600"

definition KEEPALIVE_ATTACH_MARGIN :: nat where
  "KEEPALIVE_ATTACH_MARGIN = 60"

text \<open>Times in seconds; the difference of two times saturates at zero.\<close>

definition attachable :: "active_job \<Rightarrow> nat \<Rightarrow> bool" where
  "attachable active now \<longleftrightarrow>
     aj_job_id active \<noteq> [] \<and> aj_keepalive_seconds active \<noteq> 0 \<and>
     (now - aj_last_activity active) + KEEPALIVE_ATTACH_MARGIN < aj_keepalive_seconds active"

subsection \<open>The call queue\<close>

definition calls_at :: "active_key \<Rightarrow> dispatch_state \<Rightarrow> pending_call list" where
  "calls_at k ds = (case ds_pending_calls ds k of Some calls \<Rightarrow> calls | None \<Rightarrow> [])"

definition enqueue_call :: "pending_call \<Rightarrow> dispatch_state \<Rightarrow> dispatch_state" where
  "enqueue_call call ds =
     (let k = (pq_tool_name call, pq_grant call) in
      ds\<lparr> ds_pending_calls := (ds_pending_calls ds)(k \<mapsto> calls_at k ds @ [call]) \<rparr>)"

text \<open>The first element with a property, and the rest.\<close>

fun take_first :: "('a \<Rightarrow> bool) \<Rightarrow> 'a list \<Rightarrow> ('a \<times> 'a list) option" where
  "take_first P [] = None"
| "take_first P (x # xs) = (if P x then Some (x, xs) else map_option (\<lambda>(y, ys). (y, x # ys)) (take_first P xs))"

text \<open>\<open>order\<close> is the order in which the map yields its buckets.\<close>

fun dequeue_buckets ::
  "active_key list \<Rightarrow> string \<Rightarrow> string \<Rightarrow> dispatch_state \<Rightarrow> pending_call option \<times> dispatch_state" where
  "dequeue_buckets [] tool_name job_id ds = (None, ds)"
| "dequeue_buckets (k # ks) tool_name job_id ds =
     (if fst k \<noteq> tool_name then dequeue_buckets ks tool_name job_id ds
      else
        (case take_first (\<lambda>c. pq_target_job_id c = job_id) (calls_at k ds) of
           Some (call, calls) \<Rightarrow>
             (Some call, ds\<lparr> ds_pending_calls := (ds_pending_calls ds)(k \<mapsto> calls) \<rparr>)
         | None \<Rightarrow> dequeue_buckets ks tool_name job_id ds))"

definition dequeue_call ::
  "active_key list \<Rightarrow> string \<Rightarrow> string \<Rightarrow> dispatch_state \<Rightarrow> pending_call option \<times> dispatch_state" where
  "dequeue_call order tool_name job_id ds =
     (if job_id = [] then (None, ds) else dequeue_buckets order tool_name job_id ds)"

definition remove_pending_call ::
  "string \<Rightarrow> string option \<Rightarrow> string \<Rightarrow> dispatch_state \<Rightarrow> bool \<times> dispatch_state" where
  "remove_pending_call tool_name grant call_id ds =
     (case ds_pending_calls ds (tool_name, grant) of
        None \<Rightarrow> (False, ds)
      | Some calls \<Rightarrow>
          let kept = filter (\<lambda>c. pq_call_id c \<noteq> call_id) calls in
          (length kept \<noteq> length calls,
           ds\<lparr> ds_pending_calls := (ds_pending_calls ds)((tool_name, grant) \<mapsto> kept) \<rparr>))"

subsection \<open>Senders and tokens\<close>

definition set_result_tx :: "string \<Rightarrow> string \<Rightarrow> dispatch_state \<Rightarrow> dispatch_state" where
  "set_result_tx call_id tool_name ds =
     ds\<lparr> ds_result_txs := (ds_result_txs ds)(call_id \<mapsto> guard_new),
         ds_call_ids := (ds_call_ids ds)(call_id \<mapsto> tool_name) \<rparr>"

definition take_result_tx :: "string \<Rightarrow> dispatch_state \<Rightarrow> (tool_result_guard \<times> string) option \<times> dispatch_state" where
  "take_result_tx call_id ds =
     (case ds_result_txs ds call_id of
        None \<Rightarrow> (None, ds)
      | Some g \<Rightarrow>
          (Some (g, case ds_call_ids ds call_id of Some t \<Rightarrow> t | None \<Rightarrow> []),
           ds\<lparr> ds_result_txs := (ds_result_txs ds)(call_id := None) \<rparr>))"

text \<open>The first half of \<^verbatim>\<open>retire_calls_for_tool_job\<close>: the queued calls of the tool, under every grant.\<close>

definition evict_pending :: "active_key list \<Rightarrow> string \<Rightarrow> dispatch_state \<Rightarrow> pending_call list \<times> dispatch_state" where
  "evict_pending order tool_name ds =
     (concat (map (\<lambda>k. calls_at k ds) (filter (\<lambda>k. fst k = tool_name) order)),
      ds\<lparr> ds_pending_calls := (\<lambda>k. if fst k = tool_name then None else ds_pending_calls ds k) \<rparr>)"

definition take_result_txs_for_tool_job :: "string \<Rightarrow> dispatch_state \<Rightarrow> (string \<rightharpoonup> tool_result_guard) \<times> dispatch_state" where
  "take_result_txs_for_tool_job tool_name ds =
     (let mine = (\<lambda>c. ds_call_ids ds c = Some tool_name) in
      (\<lambda>c. if mine c then ds_result_txs ds c else None,
       ds\<lparr> ds_result_txs := (\<lambda>c. if mine c then None else ds_result_txs ds c),
           ds_call_ids := (\<lambda>c. if mine c then None else ds_call_ids ds c) \<rparr>))"

definition register_call_cancel :: "string \<Rightarrow> dispatch_state \<Rightarrow> dispatch_state" where
  "register_call_cancel call_id ds = ds\<lparr> ds_cancel_tokens := insert call_id (ds_cancel_tokens ds) \<rparr>"

text \<open>The token of a call has the call's id; a call without one gets a token nobody fires.\<close>

definition call_cancel_token :: "string \<Rightarrow> dispatch_state \<Rightarrow> string option" where
  "call_cancel_token call_id ds = (if call_id \<in> ds_cancel_tokens ds then Some call_id else None)"

definition fire_call_cancel :: "string \<Rightarrow> dispatch_state \<Rightarrow> bool \<times> dispatch_state" where
  "fire_call_cancel call_id ds =
     (call_id \<in> ds_cancel_tokens ds, ds\<lparr> ds_cancel_tokens := ds_cancel_tokens ds - {call_id} \<rparr>)"

definition finish_call :: "string \<Rightarrow> dispatch_state \<Rightarrow> dispatch_state" where
  "finish_call call_id ds =
     ds\<lparr> ds_cancel_tokens := ds_cancel_tokens ds - {call_id}, ds_call_ids := (ds_call_ids ds)(call_id := None) \<rparr>"

subsection \<open>Active Jobs\<close>

definition get_active_job :: "string \<Rightarrow> string option \<Rightarrow> dispatch_state \<Rightarrow> active_job option" where
  "get_active_job tool_name grant ds = ds_active_jobs ds (tool_name, grant)"

definition set_active_job :: "active_job \<Rightarrow> dispatch_state \<Rightarrow> dispatch_state" where
  "set_active_job a ds = ds\<lparr> ds_active_jobs := (ds_active_jobs ds)((aj_tool_name a, aj_grant a) \<mapsto> a) \<rparr>"

definition remove_active_job_named ::
  "active_key list \<Rightarrow> string \<Rightarrow> string \<Rightarrow> dispatch_state \<Rightarrow> record_eviction \<times> dispatch_state" where
  "remove_active_job_named order tool_name name ds =
     (let mine = filter (\<lambda>k. fst k = tool_name \<and> ds_active_jobs ds k \<noteq> None) order in
      case find (\<lambda>k. aj_job_name (the (ds_active_jobs ds k)) = name) mine of
        Some k \<Rightarrow> (Removed, ds\<lparr> ds_active_jobs := (ds_active_jobs ds)(k := None) \<rparr>)
      | None \<Rightarrow> (if mine \<noteq> [] then SupersededByAnotherJob else NoRecord, ds))"

definition bump_last_activity :: "nat \<Rightarrow> string \<Rightarrow> string \<Rightarrow> dispatch_state \<Rightarrow> dispatch_state" where
  "bump_last_activity now tool_name name ds =
     ds\<lparr> ds_active_jobs := (\<lambda>k. map_option
        (\<lambda>a. if fst k = tool_name \<and> aj_job_name a = name then a\<lparr> aj_last_activity := now \<rparr> else a)
        (ds_active_jobs ds k)) \<rparr>"

definition pod_dial_name :: "string \<Rightarrow> string \<Rightarrow> string \<Rightarrow> string" where
  "pod_dial_name job_id service namespace =
     job_id @ ''.'' @ service @ ''.'' @ namespace @ ''.svc.cluster.local''"

section \<open>Tasks\<close>

text \<open>What a call of \<^verbatim>\<open>begin_call\<close> holds throughout; its toolset entry was read first.\<close>

record call_request =
  cq_call_id :: string
  cq_tool :: string
  cq_toolset :: string
  cq_entry :: toolset_entry
  cq_args :: "string \<rightharpoonup> string"
  cq_grant :: "(string \<times> capability_grant) option"

definition cq_grant_name :: "call_request \<Rightarrow> string option" where
  "cq_grant_name q = map_option fst (cq_grant q)"

text \<open>
  The points of \<^verbatim>\<open>begin_call\<close> (with the target's id and name once it has them), of the dial
  driver (with the call it claimed, the token, and the tool it read back) and of
  \<^verbatim>\<open>retire_calls_for_tool_job\<close>.
\<close>

datatype task =
    Begin_Lock call_request
  | Begin_Spawn call_request
  | Begin_Record call_request string
  | Begin_Publish call_request string string
  | Begin_Register call_request string string
  | Begin_Enqueue call_request string string
  | Begin_Check call_request string string
  | Begin_Withdraw call_request string string
  | Begin_Finish call_request
  | Begin_Drop call_request
  | Drive_Dequeue string string string
  | Drive_Token string string string pending_call
  | Drive_Take string string string pending_call "string option"
  | Drive_Dial string string string pending_call "string option" string
  | Drive_Stream string string string pending_call "string option" string
  | Drive_Finish string string string pending_call string bool
  | Drive_Record string string string bool
  | Retire_Evict string
  | Retire_Drop string "pending_call list"
  | Retire_Cancel "pending_call list"

record dispatch_sys =
  dy_state :: dispatch_state
  dy_tasks :: "task list"
  dy_channels :: "string \<rightharpoonup> channel"
  dy_fired :: "string set"
  dy_jobs :: "job list"
  dy_used :: "string set"
  dy_results :: "(string \<times> (string + unit)) list"

definition dispatch_sys_new :: dispatch_sys where
  "dispatch_sys_new = \<lparr> dy_state = dispatch_new, dy_tasks = [], dy_channels = Map.empty, dy_fired = {},
     dy_jobs = [], dy_used = {}, dy_results = [] \<rparr>"

text \<open>
  What the surroundings answer in one step. A request that times out may have created the
  Job all the same. A dial attempt connects, is refused or times out; the deadline has
  passed or not. The stream of a pod yields a frame, an error or its end.
\<close>

datatype create_answer = Created | Create_Failed string | Create_Timeout bool

datatype dial_answer = Dial_Connected bool | Dial_Failed bool

datatype stream_answer = Stream_Frame tool_result_frame | Stream_Error | Stream_End

record step_env =
  en_now :: nat
  en_order :: "active_key list"
  en_job_order :: "active_key list"
  en_create :: create_answer
  en_dial :: dial_answer
  en_stream :: stream_answer

text \<open>The state of a task's channel, the lock and the result of a call.\<close>

definition on_channel :: "string \<Rightarrow> (channel \<Rightarrow> channel) \<Rightarrow> dispatch_sys \<Rightarrow> dispatch_sys" where
  "on_channel c f s = s\<lparr> dy_channels := (dy_channels s)(c := map_option f (dy_channels s c)) \<rparr>"

definition on_state :: "(dispatch_state \<Rightarrow> dispatch_state) \<Rightarrow> dispatch_sys \<Rightarrow> dispatch_sys" where
  "on_state f s = s\<lparr> dy_state := f (dy_state s) \<rparr>"

definition unlock :: "string \<Rightarrow> dispatch_sys \<Rightarrow> dispatch_sys" where
  "unlock tool = on_state (\<lambda>ds. ds\<lparr> ds_dispatch_locks := ds_dispatch_locks ds - {tool} \<rparr>)"

definition return_call :: "call_request \<Rightarrow> string + unit \<Rightarrow> dispatch_sys \<Rightarrow> dispatch_sys" where
  "return_call q r s = s\<lparr> dy_results := dy_results s @ [(cq_call_id q, r)] \<rparr>"

definition tool_job :: "(json \<Rightarrow> string) \<Rightarrow> spawn_config \<Rightarrow> call_request \<Rightarrow> job option" where
  "tool_job to_json sp q =
     build_tool_job to_json (cq_tool q) (cq_toolset q) (cq_entry q) (cq_call_id q) (sp_namespace sp) (sp_service_name sp)
       (sp_workspace sp) (sp_workspace_pvc sp) (sp_scheduling sp) (cq_grant q)"

definition add_job :: "job option \<Rightarrow> dispatch_sys \<Rightarrow> dispatch_sys" where
  "add_job j s = (case j of Some j \<Rightarrow> s\<lparr> dy_jobs := dy_jobs s @ [j] \<rparr> | None \<Rightarrow> s)"

definition pending_of :: "call_request \<Rightarrow> string \<Rightarrow> pending_call" where
  "pending_of q target_job_id =
     \<lparr> pq_call_id = cq_call_id q, pq_tool_name = cq_tool q, pq_args = cq_args q, pq_working_dir = WORKSPACE_MOUNT_PATH,
       pq_grant = cq_grant_name q, pq_target_job_id = target_job_id \<rparr>"

text \<open>
  One step of \<^verbatim>\<open>begin_call\<close>: the tasks that take the place of the task, and the state.
  \<^const>\<open>None\<close> while it waits for the lock of its tool.
\<close>

fun begin_step ::
  "(json \<Rightarrow> string) \<Rightarrow> spawn_config \<Rightarrow> step_env \<Rightarrow> task \<Rightarrow> dispatch_sys \<Rightarrow> (task list \<times> dispatch_sys) option" where
  "begin_step to_json sp en (Begin_Lock q) s =
     (if cq_tool q \<in> ds_dispatch_locks (dy_state s) then None
      else
        (case get_active_job (cq_tool q) (cq_grant_name q) (dy_state s) of
           Some active \<Rightarrow>
             if attachable active (en_now en) then Some ([Begin_Publish q (aj_job_id active) (aj_job_name active)], s)
             else Some ([Begin_Spawn q], on_state (\<lambda>ds. ds\<lparr> ds_dispatch_locks := insert (cq_tool q) (ds_dispatch_locks ds) \<rparr>) s)
         | None \<Rightarrow>
             Some ([Begin_Spawn q], on_state (\<lambda>ds. ds\<lparr> ds_dispatch_locks := insert (cq_tool q) (ds_dispatch_locks ds) \<rparr>) s)))"
| "begin_step to_json sp en (Begin_Spawn q) s =
     (case en_create en of
        Created \<Rightarrow>
          Some ([Begin_Record q (case tool_job to_json sp q of Some j \<Rightarrow> job_name j | None \<Rightarrow> [])], add_job (tool_job to_json sp q) s)
      | Create_Failed e \<Rightarrow>
          Some ([], return_call q (Inl (''failed to create tool Job: '' @ e)) (unlock (cq_tool q) s))
      | Create_Timeout made \<Rightarrow>
          Some ([], return_call q (Inl ''k8s API timed out creating tool Job'')
            (unlock (cq_tool q) (if made then add_job (tool_job to_json sp q) s else s))))"
| "begin_step to_json sp en (Begin_Record q name) s =
     Some ([Begin_Publish q (cq_call_id q) name],
       unlock (cq_tool q) (on_state (set_active_job \<lparr> aj_job_name = name, aj_job_id = cq_call_id q, aj_tool_name = cq_tool q,
         aj_keepalive_seconds = (if te_keepalive (cq_entry q) then TOOL_KEEPALIVE_IDLE_SECONDS else 0),
         aj_grant = cq_grant_name q, aj_last_activity = en_now en \<rparr>) s))"
| "begin_step to_json sp en (Begin_Publish q target name) s =
     Some ([Begin_Register q target name],
       on_state (set_result_tx (cq_call_id q) (cq_tool q))
         (s\<lparr> dy_channels := (dy_channels s)(cq_call_id q \<mapsto> channel_new) \<rparr>))"
| "begin_step to_json sp en (Begin_Register q target name) s =
     Some ([Begin_Enqueue q target name], on_state (register_call_cancel (cq_call_id q)) s)"
| "begin_step to_json sp en (Begin_Enqueue q target name) s =
     Some ([Begin_Check q target name], on_state (enqueue_call (pending_of q target)) s)"
| "begin_step to_json sp en (Begin_Check q target name) s =
     (if target = [] \<or>
         (case get_active_job (cq_tool q) (cq_grant_name q) (dy_state s) of None \<Rightarrow> True | Some a \<Rightarrow> aj_job_id a \<noteq> target)
      then Some ([Begin_Withdraw q target name], s)
      else Some ([Drive_Dequeue (cq_tool q) target name], return_call q (Inr ()) s))"
| "begin_step to_json sp en (Begin_Withdraw q target name) s =
     (case remove_pending_call (cq_tool q) (cq_grant_name q) (cq_call_id q) (dy_state s) of
        (True, ds) \<Rightarrow> Some ([Begin_Finish q], s\<lparr> dy_state := ds \<rparr>)
      | (False, ds) \<Rightarrow> Some ([Drive_Dequeue (cq_tool q) target name], return_call q (Inr ()) (s\<lparr> dy_state := ds \<rparr>)))"
| "begin_step to_json sp en (Begin_Finish q) s =
     Some ([Begin_Drop q], on_state (finish_call (cq_call_id q)) s)"
| "begin_step to_json sp en (Begin_Drop q) s =
     (let s1 = (case take_result_tx (cq_call_id q) (dy_state s) of
          (Some (g, _), ds) \<Rightarrow> on_channel (cq_call_id q) (guard_drop g) (s\<lparr> dy_state := ds \<rparr>)
        | (None, ds) \<Rightarrow> s) in
      Some ([], return_call q
        (Inl (''the tool job for '' @ cq_tool q @ '' was retired before the call reached it'')) s1))"
| "begin_step to_json sp en _ s = None"

text \<open>
  The points of \<^verbatim>\<open>dial_and_run\<close>, which holds a guard of its own: each attempt to connect, then each
  frame. The driver does not look at the token again once it is connected.
\<close>

fun dial_step :: "step_env \<Rightarrow> task \<Rightarrow> dispatch_sys \<Rightarrow> (task list \<times> dispatch_sys) option" where
  "dial_step en (Drive_Dial tool target name call token shadow) s =
     (let failed = Some ([Drive_Finish tool target name call shadow False],
            on_channel (pq_call_id call) (guard_drop guard_new) s) in
      if (\<exists>c. token = Some c \<and> c \<in> dy_fired s) then failed
      else
        (case en_dial en of
           Dial_Connected accepted \<Rightarrow>
             if accepted then Some ([Drive_Stream tool target name call token shadow], s) else failed
         | Dial_Failed deadline_passed \<Rightarrow>
             if deadline_passed then failed else Some ([Drive_Dial tool target name call token shadow], s)))"
| "dial_step en (Drive_Stream tool target name call token shadow) s =
     (case en_stream en of
        Stream_Frame f \<Rightarrow>
          (case dy_channels s (pq_call_id call) of
             None \<Rightarrow> None
           | Some ch \<Rightarrow>
               (case chan_send f ch of
                  None \<Rightarrow> None
                | Some ch1 \<Rightarrow>
                    if is_terminal_frame f then
                      Some ([Drive_Finish tool target name call shadow True],
                        on_channel (pq_call_id call) (\<lambda>_. guard_drop (mark_complete guard_new) ch1) s)
                    else Some ([Drive_Stream tool target name call token shadow], on_channel (pq_call_id call) (\<lambda>_. ch1) s)))
      | _ \<Rightarrow> Some ([Drive_Finish tool target name call shadow False],
            on_channel (pq_call_id call) (guard_drop guard_new) s))"
| "dial_step en _ s = None"

text \<open>The points of \<^verbatim>\<open>retire_calls_for_tool_job\<close>.\<close>

fun retire_step :: "step_env \<Rightarrow> task \<Rightarrow> dispatch_sys \<Rightarrow> (task list \<times> dispatch_sys) option" where
  "retire_step en (Retire_Evict tool) s =
     (case evict_pending (en_order en) tool (dy_state s) of
        (evicted, ds) \<Rightarrow> Some ([Retire_Drop tool evicted], s\<lparr> dy_state := ds \<rparr>))"
| "retire_step en (Retire_Drop tool evicted) s =
     (case take_result_txs_for_tool_job tool (dy_state s) of
        (guards, ds) \<Rightarrow> Some ([Retire_Cancel evicted],
          s\<lparr> dy_state := ds,
             dy_channels := (\<lambda>c. case guards c of
                 Some g \<Rightarrow> map_option (guard_drop g) (dy_channels s c)
               | None \<Rightarrow> dy_channels s c) \<rparr>))"
| "retire_step en (Retire_Cancel calls) s =
     (case calls of
        [] \<Rightarrow> Some ([], s)
      | call # rest \<Rightarrow>
          (case fire_call_cancel (pq_call_id call) (dy_state s) of
             (found, ds) \<Rightarrow> Some ([Retire_Cancel rest],
               s\<lparr> dy_state := ds, dy_fired := (if found then insert (pq_call_id call) (dy_fired s) else dy_fired s) \<rparr>)))"
| "retire_step en _ s = None"

text \<open>
  One step of the dial driver around them. It ends when it finds no call or when the call's
  sender is gone.
\<close>

fun drive_step :: "step_env \<Rightarrow> task \<Rightarrow> dispatch_sys \<Rightarrow> (task list \<times> dispatch_sys) option" where
  "drive_step en (Drive_Dequeue tool target name) s =
     (case dequeue_call (en_order en) tool target (dy_state s) of
        (None, ds) \<Rightarrow> Some ([], s)
      | (Some call, ds) \<Rightarrow> Some ([Drive_Token tool target name call], s\<lparr> dy_state := ds \<rparr>))"
| "drive_step en (Drive_Token tool target name call) s =
     Some ([Drive_Take tool target name call (call_cancel_token (pq_call_id call) (dy_state s))], s)"
| "drive_step en (Drive_Take tool target name call token) s =
     (case take_result_tx (pq_call_id call) (dy_state s) of
        (None, ds) \<Rightarrow> Some ([], s)
      | (Some (g, shadow), ds) \<Rightarrow> Some ([Drive_Dial tool target name call token shadow], s\<lparr> dy_state := ds \<rparr>))"
| "drive_step en (Drive_Finish tool target name call shadow finished) s =
     Some ([Drive_Record tool name shadow finished], on_state (finish_call (pq_call_id call)) s)"
| "drive_step en (Drive_Record tool name shadow finished) s =
     (if finished then Some ([], on_state (bump_last_activity (en_now en) shadow name) s)
      else
        (case remove_active_job_named (en_job_order en) tool name (dy_state s) of
           (Removed, ds) \<Rightarrow> Some ([Retire_Evict tool], s\<lparr> dy_state := ds \<rparr>)
         | (_, ds) \<Rightarrow> Some ([], s)))"
| "drive_step en _ s = None"

section \<open>All interleavings\<close>

definition begin_entry :: "toolset_config \<Rightarrow> string \<Rightarrow> string + toolset_entry" where
  "begin_entry toolsets toolset_name = ok_or (''toolset '' @ toolset_name @ '' not found'') (toolsets toolset_name)"

definition task_step ::
  "(json \<Rightarrow> string) \<Rightarrow> spawn_config \<Rightarrow> step_env \<Rightarrow> task \<Rightarrow> dispatch_sys \<Rightarrow> (task list \<times> dispatch_sys) option" where
  "task_step to_json sp en t s =
     (case begin_step to_json sp en t s of
        Some r \<Rightarrow> Some r
      | None \<Rightarrow>
          (case drive_step en t s of
             Some r \<Rightarrow> Some r
           | None \<Rightarrow> (case dial_step en t s of Some r \<Rightarrow> Some r | None \<Rightarrow> retire_step en t s)))"

text \<open>The orders list the keys of the maps.\<close>

definition orders_ok :: "step_env \<Rightarrow> dispatch_sys \<Rightarrow> bool" where
  "orders_ok en s \<longleftrightarrow> set (en_order en) = dom (ds_pending_calls (dy_state s)) \<and> distinct (en_order en) \<and>
     set (en_job_order en) = dom (ds_active_jobs (dy_state s)) \<and> distinct (en_job_order en)"

definition with_tasks :: "task list \<Rightarrow> dispatch_sys \<Rightarrow> dispatch_sys" where
  "with_tasks ts s = s\<lparr> dy_tasks := ts \<rparr>"

text \<open>
  A call begins with a fresh id of the length of a UUID; a task takes a step; the consumer
  of a call receives a frame or goes away; a client cancels a call.
\<close>

inductive dispatch_step :: "(json \<Rightarrow> string) \<Rightarrow> spawn_config \<Rightarrow> dispatch_sys \<Rightarrow> dispatch_sys \<Rightarrow> bool"
  for to_json sp where
  call_begins:
  "begin_entry toolsets toolset = Inr entry \<Longrightarrow> call_id \<notin> dy_used s \<Longrightarrow> id_prefix call_id \<noteq> None \<Longrightarrow>
   dispatch_step to_json sp s (s\<lparr> dy_used := insert call_id (dy_used s),
     dy_tasks := dy_tasks s @ [Begin_Lock \<lparr> cq_call_id = call_id, cq_tool = tool, cq_toolset = toolset, cq_entry = entry,
       cq_args = args, cq_grant = grant \<rparr>] \<rparr>)"
| task_runs:
  "dy_tasks s = xs @ t # ys \<Longrightarrow> orders_ok en s \<Longrightarrow> task_step to_json sp en t s = Some (ts, s') \<Longrightarrow>
   dispatch_step to_json sp s (with_tasks (xs @ ts @ ys) s')"
| frame_received:
  "dy_channels s c = Some ch \<Longrightarrow> ch_receiver ch \<Longrightarrow> ch_taken ch < length (ch_sent ch) \<Longrightarrow>
   dispatch_step to_json sp s (on_channel c (\<lambda>ch. ch\<lparr> ch_taken := ch_taken ch + 1 \<rparr>) s)"
| receiver_dropped:
  "dispatch_step to_json sp s (on_channel c (\<lambda>ch. ch\<lparr> ch_receiver := False \<rparr>) s)"
| call_cancelled:
  "fire_call_cancel c (dy_state s) = (found, ds) \<Longrightarrow>
   dispatch_step to_json sp s (s\<lparr> dy_state := ds, dy_fired := (if found then insert c (dy_fired s) else dy_fired s) \<rparr>)"

inductive dispatch_reachable :: "(json \<Rightarrow> string) \<Rightarrow> spawn_config \<Rightarrow> dispatch_sys \<Rightarrow> bool"
  for to_json sp where
  reach_start: "dispatch_reachable to_json sp dispatch_sys_new"
| reach_step: "dispatch_reachable to_json sp s \<Longrightarrow> dispatch_step to_json sp s s' \<Longrightarrow> dispatch_reachable to_json sp s'"

end
