(* ===== verification/Dispatch_Safety.thy ===== *)
theory Dispatch_Safety
  imports Dispatch
begin

text \<open>
  Invariants of the dispatch of tool calls over all interleavings of its tasks, and the
  theorem they give: the pod that runs a call was created for the call's tool and grant.
\<close>

section \<open>A call runs on the pod of its grant\<close>

definition job_for :: "job list \<Rightarrow> string \<Rightarrow> string \<Rightarrow> string option \<Rightarrow> bool" where
  "job_for jobs job_id tool grant \<longleftrightarrow>
     (\<exists>j\<in>set jobs. ps_hostname (job_pod j) = job_id \<and> map_of (job_pod_labels j) ''sycophant.md/tool'' = Some tool \<and>
        map_of (job_pod_labels j) ''sycophant.md/grant'' = grant \<and> (grant = None \<longrightarrow> mounted_secrets j = []))"

fun task_ok :: "job list \<Rightarrow> task \<Rightarrow> bool" where
  "task_ok jobs (Begin_Record q name) = job_for jobs (cq_call_id q) (cq_tool q) (cq_grant_name q)"
| "task_ok jobs (Begin_Publish q target name) = job_for jobs target (cq_tool q) (cq_grant_name q)"
| "task_ok jobs (Begin_Register q target name) = job_for jobs target (cq_tool q) (cq_grant_name q)"
| "task_ok jobs (Begin_Enqueue q target name) = job_for jobs target (cq_tool q) (cq_grant_name q)"
| "task_ok jobs (Drive_Token tool target name call) =
     (pq_tool_name call = tool \<and> pq_target_job_id call = target \<and> job_for jobs target tool (pq_grant call))"
| "task_ok jobs (Drive_Take tool target name call token) =
     (pq_tool_name call = tool \<and> pq_target_job_id call = target \<and> job_for jobs target tool (pq_grant call))"
| "task_ok jobs (Drive_Dial tool target name call token shadow) =
     (pq_tool_name call = tool \<and> pq_target_job_id call = target \<and> job_for jobs target tool (pq_grant call))"
| "task_ok jobs (Drive_Stream tool target name call token shadow) =
     (pq_tool_name call = tool \<and> pq_target_job_id call = target \<and> job_for jobs target tool (pq_grant call))"
| "task_ok jobs _ = True"

definition state_ok :: "job list \<Rightarrow> dispatch_state \<Rightarrow> bool" where
  "state_ok jobs ds \<longleftrightarrow>
     (\<forall>k a. ds_active_jobs ds k = Some a \<longrightarrow> job_for jobs (aj_job_id a) (fst k) (snd k)) \<and>
     (\<forall>k. \<forall>c\<in>set (calls_at k ds). (pq_tool_name c, pq_grant c) = k \<and> job_for jobs (pq_target_job_id c) (fst k) (snd k))"

text \<open>The ids of calls whose Job is still to be created.\<close>

fun spawning :: "task \<Rightarrow> string list" where
  "spawning (Begin_Lock q) = [cq_call_id q]"
| "spawning (Begin_Spawn q) = [cq_call_id q]"
| "spawning _ = []"

definition spawn_ids :: "task list \<Rightarrow> string list" where
  "spawn_ids ts = concat (map spawning ts)"

definition hosts :: "job list \<Rightarrow> string list" where
  "hosts jobs = map (\<lambda>j. ps_hostname (job_pod j)) jobs"

lemma spawn_ids_simps [simp]:
  "spawn_ids [] = []" "spawn_ids (t # ts) = spawning t @ spawn_ids ts" "spawn_ids (xs @ ys) = spawn_ids xs @ spawn_ids ys"
  by (simp_all add: spawn_ids_def)

lemma job_for_mono: "job_for jobs i t g \<Longrightarrow> set jobs \<subseteq> set jobs' \<Longrightarrow> job_for jobs' i t g"
  by (auto simp: job_for_def)

lemma task_ok_mono: "task_ok jobs t \<Longrightarrow> set jobs \<subseteq> set jobs' \<Longrightarrow> task_ok jobs' t"
  by (cases t) (auto intro: job_for_mono)

lemma state_ok_mono: "state_ok jobs ds \<Longrightarrow> set jobs \<subseteq> set jobs' \<Longrightarrow> state_ok jobs' ds"
  unfolding state_ok_def by (blast intro: job_for_mono)

lemma take_first_Some:
  "take_first P xs = Some (y, ys) \<Longrightarrow> P y \<and> (\<exists>as bs. xs = as @ y # bs \<and> ys = as @ bs \<and> list_all (\<lambda>x. \<not> P x) as)"
proof (induction xs arbitrary: ys)
  case (Cons x xs)
  show ?case
  proof (cases "P x")
    case True
    with Cons.prems show ?thesis by (auto intro: exI [of _ "[]"])
  next
    case False
    with Cons.prems obtain zs where "take_first P xs = Some (y, zs)" "ys = x # zs" by auto
    moreover from Cons.IH [OF this(1)] obtain as bs where "P y" "xs = as @ y # bs" "zs = as @ bs" "list_all (\<lambda>x. \<not> P x) as" by blast
    ultimately show ?thesis using False by (intro conjI exI [of _ "x # as"] exI [of _ bs]) auto
  qed
qed simp

lemma take_first_None: "take_first P xs = None \<longleftrightarrow> list_all (\<lambda>x. \<not> P x) xs"
  by (induction xs) auto

text \<open>What dequeuing does: nothing, or it takes one call with the target out of a bucket of the tool.\<close>

lemma dequeue_buckets_cases:
  assumes "dequeue_buckets ks tool target ds = (r, ds')"
  obtains "r = None" "ds' = ds" "\<And>k. k \<in> set ks \<Longrightarrow> fst k = tool \<Longrightarrow> list_all (\<lambda>c. pq_target_job_id c \<noteq> target) (calls_at k ds)"
  | k call as bs where "r = Some call" "k \<in> set ks" "fst k = tool" "pq_target_job_id call = target"
    "calls_at k ds = as @ call # bs" "ds' = ds\<lparr> ds_pending_calls := (ds_pending_calls ds)(k \<mapsto> as @ bs) \<rparr>"
  using assms
proof (induction ks arbitrary: thesis)
  case (Cons k ks)
  show ?case
  proof (cases "fst k = tool \<and> take_first (\<lambda>c. pq_target_job_id c = target) (calls_at k ds) \<noteq> None")
    case True
    then obtain call calls where "take_first (\<lambda>c. pq_target_job_id c = target) (calls_at k ds) = Some (call, calls)" by auto
    moreover from take_first_Some [OF this] obtain as bs where "pq_target_job_id call = target"
      "calls_at k ds = as @ call # bs" "calls = as @ bs" by auto
    ultimately show ?thesis using True Cons.prems(3) by (intro Cons.prems(2) [of call k as bs]) (auto simp: fun_upd_def)
  next
    case False
    then have rest: "dequeue_buckets ks tool target ds = (r, ds')" using Cons.prems(3) by (auto split: option.splits)
    have here: "list_all (\<lambda>c. pq_target_job_id c \<noteq> target) (calls_at k ds)" if "fst k = tool"
      using False that by (simp add: take_first_None)
    show ?thesis
    proof (rule Cons.IH [OF _ _ rest])
      assume "r = None" "ds' = ds"
        "\<And>k. k \<in> set ks \<Longrightarrow> fst k = tool \<Longrightarrow> list_all (\<lambda>c. pq_target_job_id c \<noteq> target) (calls_at k ds)"
      with here show thesis by (intro Cons.prems(1)) auto
    next
      fix k' call as bs
      assume "r = Some call" "k' \<in> set ks" "fst k' = tool" "pq_target_job_id call = target"
        "calls_at k' ds = as @ call # bs" "ds' = ds\<lparr> ds_pending_calls := (ds_pending_calls ds)(k' \<mapsto> as @ bs) \<rparr>"
      then show thesis by (intro Cons.prems(2) [of call k' as bs]) (auto simp: fun_upd_def)
    qed
  qed
qed auto

lemma calls_at_upd [simp]:
  "calls_at k' (ds\<lparr> ds_pending_calls := (ds_pending_calls ds)(k \<mapsto> calls) \<rparr>) = (if k' = k then calls else calls_at k' ds)"
  by (simp add: calls_at_def)


lemma tool_job_for:
  assumes "tool_job to_json sp q = Some j"
  shows "job_for (jobs @ [j]) (cq_call_id q) (cq_tool q) (cq_grant_name q)" "ps_hostname (job_pod j) = cq_call_id q"
proof -
  note built = assms [unfolded tool_job_def]
  show "ps_hostname (job_pod j) = cq_call_id q" by (rule tool_job_pod(6) [OF built])
  then show "job_for (jobs @ [j]) (cq_call_id q) (cq_tool q) (cq_grant_name q)"
    using tool_job_pod(8,11) [OF built] tool_job_secret [OF built]
    by (auto simp: job_for_def cq_grant_name_def)
qed

lemma tool_job_Some: "id_prefix (cq_call_id q) \<noteq> None \<Longrightarrow> \<exists>j. tool_job to_json sp q = Some j"
  by (auto simp: tool_job_def build_tool_job_def)

subsection \<open>The operations keep the state well-formed\<close>

lemma state_ok_cong:
  "ds_active_jobs ds' = ds_active_jobs ds \<Longrightarrow> ds_pending_calls ds' = ds_pending_calls ds \<Longrightarrow> state_ok jobs ds' = state_ok jobs ds"
  by (simp add: state_ok_def calls_at_def)

lemma state_ok_kept [simp]:
  "state_ok jobs (set_result_tx c tool ds) = state_ok jobs ds" "state_ok jobs (register_call_cancel c ds) = state_ok jobs ds"
  "state_ok jobs (finish_call c ds) = state_ok jobs ds" "state_ok jobs (ds\<lparr> ds_dispatch_locks := l \<rparr>) = state_ok jobs ds"
  "state_ok jobs (ds\<lparr> ds_cancel_tokens := x \<rparr>) = state_ok jobs ds" "state_ok jobs (ds\<lparr> ds_result_txs := y \<rparr>) = state_ok jobs ds"
  "state_ok jobs (ds\<lparr> ds_result_txs := y, ds_call_ids := z \<rparr>) = state_ok jobs ds"
  by (rule state_ok_cong; simp add: set_result_tx_def register_call_cancel_def finish_call_def)+

lemma state_ok_take: "take_result_tx c ds = (r, ds') \<Longrightarrow> state_ok jobs ds \<Longrightarrow> state_ok jobs ds'"
  by (auto simp: take_result_tx_def split: option.splits)

lemma state_ok_enqueue:
  "state_ok jobs ds \<Longrightarrow> job_for jobs (pq_target_job_id c) (pq_tool_name c) (pq_grant c) \<Longrightarrow> state_ok jobs (enqueue_call c ds)"
  by (auto simp: state_ok_def enqueue_call_def Let_def)

lemma state_okD:
  assumes "state_ok jobs ds"
  shows "ds_active_jobs ds k = Some a \<Longrightarrow> job_for jobs (aj_job_id a) (fst k) (snd k)"
    and "c \<in> set (calls_at k ds) \<Longrightarrow> (pq_tool_name c, pq_grant c) = k \<and> job_for jobs (pq_target_job_id c) (fst k) (snd k)"
  using assms unfolding state_ok_def by blast+

lemma state_ok_fewer:
  assumes "state_ok jobs ds" "\<And>k. set (calls_at k ds') \<subseteq> set (calls_at k ds)"
    and "\<And>k a. ds_active_jobs ds' k = Some a \<Longrightarrow> \<exists>a'. ds_active_jobs ds k = Some a' \<and> aj_job_id a' = aj_job_id a"
  shows "state_ok jobs ds'"
  unfolding state_ok_def
proof (intro conjI allI impI)
  fix k a assume "ds_active_jobs ds' k = Some a"
  with assms(3) obtain a' where "ds_active_jobs ds k = Some a'" "aj_job_id a' = aj_job_id a" by blast
  with state_okD(1) [OF assms(1)] show "job_for jobs (aj_job_id a) (fst k) (snd k)" by metis
next
  fix k
  show "\<forall>c\<in>set (calls_at k ds'). (pq_tool_name c, pq_grant c) = k \<and> job_for jobs (pq_target_job_id c) (fst k) (snd k)"
    using state_okD(2) [OF assms(1)] subsetD [OF assms(2) [of k]] by blast
qed

lemma state_ok_active:
  "state_ok jobs ds \<Longrightarrow> job_for jobs (aj_job_id a) (aj_tool_name a) (aj_grant a) \<Longrightarrow> state_ok jobs (set_active_job a ds)"
  by (auto simp: state_ok_def set_active_job_def calls_at_def)

lemma state_ok_remove: "remove_pending_call tool g c ds = (r, ds') \<Longrightarrow> state_ok jobs ds \<Longrightarrow> state_ok jobs ds'"
  by (erule state_ok_fewer; auto simp: remove_pending_call_def calls_at_def Let_def split: option.splits if_splits)

lemma state_ok_evict: "state_ok jobs ds \<Longrightarrow> state_ok jobs (snd (evict_pending order tool ds))"
  by (erule state_ok_fewer; auto simp: evict_pending_def calls_at_def split: if_splits)

lemma state_ok_bump: "state_ok jobs ds \<Longrightarrow> state_ok jobs (bump_last_activity now tool name ds)"
  by (erule state_ok_fewer; auto simp: bump_last_activity_def calls_at_def split: if_splits)

lemma state_ok_unrecord: "remove_active_job_named order tool name ds = (r, ds') \<Longrightarrow> state_ok jobs ds \<Longrightarrow> state_ok jobs ds'"
  by (erule state_ok_fewer; auto simp: remove_active_job_named_def calls_at_def Let_def split: option.splits if_splits)

lemma dequeue_ok:
  assumes "dequeue_call order tool target ds = (r, ds')" "state_ok jobs ds"
  shows "state_ok jobs ds' \<and> (\<forall>call. r = Some call \<longrightarrow>
    pq_tool_name call = tool \<and> pq_target_job_id call = target \<and> job_for jobs target tool (pq_grant call))"
proof (cases "target = []")
  case False
  with assms(1) have "dequeue_buckets order tool target ds = (r, ds')" by (simp add: dequeue_call_def)
  then show ?thesis
  proof (cases rule: dequeue_buckets_cases)
    case (2 k call as bs)
    then have "call \<in> set (calls_at k ds)" by simp
    from state_okD(2) [OF assms(2) this] have "(pq_tool_name call, pq_grant call) = k"
      "job_for jobs (pq_target_job_id call) (fst k) (snd k)" by auto
    moreover have "state_ok jobs ds'" using 2 by (intro state_ok_fewer [OF assms(2)]) auto
    ultimately show ?thesis using 2 by auto
  qed (use assms in simp)
qed (use assms in \<open>simp add: dequeue_call_def\<close>)

lemma dy_simps [simp]:
  "dy_jobs (on_state f s) = dy_jobs s" "dy_state (on_state f s) = f (dy_state s)" "dy_tasks (on_state f s) = dy_tasks s"
  "dy_jobs (on_channel c g s) = dy_jobs s" "dy_state (on_channel c g s) = dy_state s" "dy_tasks (on_channel c g s) = dy_tasks s"
  "dy_jobs (return_call q r s) = dy_jobs s" "dy_state (return_call q r s) = dy_state s" "dy_tasks (return_call q r s) = dy_tasks s"
  "dy_used (on_state f s) = dy_used s" "dy_used (on_channel c g s) = dy_used s" "dy_used (return_call q r s) = dy_used s"
  "dy_channels (on_state f s) = dy_channels s" "dy_channels (return_call q r s) = dy_channels s"
  "dy_results (on_state f s) = dy_results s" "dy_results (on_channel c g s) = dy_results s"
  "dy_results (return_call q r s) = dy_results s @ [(cq_call_id q, r)]"
  by (simp_all add: on_state_def on_channel_def return_call_def)

lemma add_job_simps [simp]:
  "dy_state (add_job j s) = dy_state s" "dy_tasks (add_job j s) = dy_tasks s" "dy_used (add_job j s) = dy_used s"
  "dy_channels (add_job j s) = dy_channels s" "dy_results (add_job j s) = dy_results s"
  "dy_jobs (add_job j s) = dy_jobs s @ (case j of Some j \<Rightarrow> [j] | None \<Rightarrow> [])"
  by (simp_all add: add_job_def split: option.split)

lemma unlock_simps [simp]:
  "dy_jobs (unlock tool s) = dy_jobs s" "dy_tasks (unlock tool s) = dy_tasks s" "dy_used (unlock tool s) = dy_used s"
  "dy_channels (unlock tool s) = dy_channels s" "dy_results (unlock tool s) = dy_results s"
  "dy_state (unlock tool s) = (dy_state s)\<lparr> ds_dispatch_locks := ds_dispatch_locks (dy_state s) - {tool} \<rparr>"
  by (simp_all add: unlock_def)

lemma begin_step_ok:
  assumes "begin_step to_json sp en t s = Some (ts, s')" "state_ok (dy_jobs s) (dy_state s)" "task_ok (dy_jobs s) t"
    and "list_all (\<lambda>c. id_prefix c \<noteq> None) (spawning t)"
  shows "state_ok (dy_jobs s') (dy_state s') \<and> list_all (task_ok (dy_jobs s')) ts \<and> dy_used s' = dy_used s \<and>
    (dy_jobs s' = dy_jobs s \<and> (spawn_ids ts = spawning t \<or> spawn_ids ts = []) \<or>
     (\<exists>j. dy_jobs s' = dy_jobs s @ [j] \<and> spawning t = [ps_hostname (job_pod j)] \<and> spawn_ids ts = []))"
proof (cases t)
  case (Begin_Lock q)
  with assms show ?thesis
    by (auto simp: get_active_job_def split: option.splits if_splits dest: state_okD(1))
next
  case (Begin_Spawn q)
  with assms(4) tool_job_Some [of q to_json sp] obtain j where j: "tool_job to_json sp q = Some j" by auto
  have more: "state_ok (dy_jobs s @ [j]) (dy_state s)" by (rule state_ok_mono [OF assms(2)]) auto
  show ?thesis
    using Begin_Spawn assms(1,2) j more tool_job_for [OF j]
    by (cases "en_create en") (auto split: if_splits)
next
  case (Begin_Record q name)
  with assms show ?thesis by (auto intro!: state_ok_active)
next
  case (Begin_Enqueue q target name)
  with assms show ?thesis by (auto simp: pending_of_def intro!: state_ok_enqueue)
next
  case (Begin_Withdraw q target name)
  with assms show ?thesis by (auto split: prod.splits bool.splits dest: state_ok_remove)
next
  case (Begin_Drop q)
  with assms show ?thesis by (auto simp: Let_def split: prod.splits option.splits dest: state_ok_take)
qed (use assms in \<open>auto split: if_splits\<close>)

lemma drive_step_ok:
  assumes "drive_step en t s = Some (ts, s')" "state_ok (dy_jobs s) (dy_state s)" "task_ok (dy_jobs s) t"
  shows "state_ok (dy_jobs s') (dy_state s') \<and> list_all (task_ok (dy_jobs s')) ts \<and> dy_used s' = dy_used s \<and>
    dy_jobs s' = dy_jobs s \<and> spawn_ids ts = []"
proof (cases t)
  case (Drive_Dequeue tool target name)
  obtain r ds where d: "dequeue_call (en_order en) tool target (dy_state s) = (r, ds)" by fastforce
  with dequeue_ok [OF d assms(2)] assms Drive_Dequeue show ?thesis by (cases r) auto
next
  case (Drive_Take tool target name call token)
  with assms show ?thesis by (auto split: prod.splits option.splits dest: state_ok_take)
next
  case (Drive_Record tool name shadow finished)
  with assms show ?thesis
    by (auto intro: state_ok_bump state_ok_unrecord split: if_splits prod.splits record_eviction.splits)
qed (use assms in auto)

lemma dial_step_ok:
  assumes "dial_step en t s = Some (ts, s')" "state_ok (dy_jobs s) (dy_state s)" "task_ok (dy_jobs s) t"
  shows "state_ok (dy_jobs s') (dy_state s') \<and> list_all (task_ok (dy_jobs s')) ts \<and> dy_used s' = dy_used s \<and>
    dy_jobs s' = dy_jobs s \<and> spawn_ids ts = []"
proof (cases t)
  case (Drive_Dial tool target name call token shadow)
  with assms show ?thesis by (auto simp: Let_def split: dial_answer.splits if_splits)
next
  case (Drive_Stream tool target name call token shadow)
  with assms show ?thesis by (auto split: stream_answer.splits option.splits if_splits)
qed (use assms in auto)

lemma retire_step_ok:
  assumes "retire_step en t s = Some (ts, s')" "state_ok (dy_jobs s) (dy_state s)" "task_ok (dy_jobs s) t"
  shows "state_ok (dy_jobs s') (dy_state s') \<and> list_all (task_ok (dy_jobs s')) ts \<and> dy_used s' = dy_used s \<and>
    dy_jobs s' = dy_jobs s \<and> spawn_ids ts = []"
proof (cases t)
  case (Retire_Evict tool)
  with assms state_ok_evict [OF assms(2), of "en_order en" tool] show ?thesis by (auto split: prod.splits)
next
  case (Retire_Drop tool evicted)
  with assms show ?thesis by (auto simp: take_result_txs_for_tool_job_def Let_def)
next
  case (Retire_Cancel calls)
  with assms show ?thesis by (auto simp: fire_call_cancel_def split: list.splits)
qed (use assms in auto)

definition inv_jobs :: "dispatch_sys \<Rightarrow> bool" where
  "inv_jobs s \<longleftrightarrow>
     state_ok (dy_jobs s) (dy_state s) \<and> list_all (task_ok (dy_jobs s)) (dy_tasks s) \<and>
     distinct (hosts (dy_jobs s) @ spawn_ids (dy_tasks s)) \<and>
     set (hosts (dy_jobs s) @ spawn_ids (dy_tasks s)) \<subseteq> dy_used s \<and>
     (\<forall>c\<in>dy_used s. id_prefix c \<noteq> None)"

lemma task_step_ok:
  assumes "task_step to_json sp en t s = Some (ts, s')" "state_ok (dy_jobs s) (dy_state s)" "task_ok (dy_jobs s) t"
    and "list_all (\<lambda>c. id_prefix c \<noteq> None) (spawning t)"
  shows "state_ok (dy_jobs s') (dy_state s') \<and> list_all (task_ok (dy_jobs s')) ts \<and> dy_used s' = dy_used s \<and>
    (dy_jobs s' = dy_jobs s \<and> (spawn_ids ts = spawning t \<or> spawn_ids ts = []) \<or>
     (\<exists>j. dy_jobs s' = dy_jobs s @ [j] \<and> spawning t = [ps_hostname (job_pod j)] \<and> spawn_ids ts = []))"
proof -
  from assms(1) consider "begin_step to_json sp en t s = Some (ts, s')" | "drive_step en t s = Some (ts, s')"
    | "dial_step en t s = Some (ts, s')" | "retire_step en t s = Some (ts, s')"
    by (auto simp: task_step_def split: option.splits)
  then show ?thesis
  proof cases
    case 1 from begin_step_ok [OF this assms(2-4)] show ?thesis .
  next
    case 2 from drive_step_ok [OF this assms(2,3)] show ?thesis by blast
  next
    case 3 from dial_step_ok [OF this assms(2,3)] show ?thesis by blast
  next
    case 4 from retire_step_ok [OF this assms(2,3)] show ?thesis by blast
  qed
qed

lemma inv_jobs_task:
  assumes "inv_jobs s" "dy_tasks s = xs @ t # ys" "task_step to_json sp en t s = Some (ts, s')"
  shows "inv_jobs (with_tasks (xs @ ts @ ys) s')"
proof -
  have t: "task_ok (dy_jobs s) t" "list_all (\<lambda>c. id_prefix c \<noteq> None) (spawning t)"
    and st: "state_ok (dy_jobs s) (dy_state s)"
    and ctx: "list_all (task_ok (dy_jobs s)) (xs @ ys)"
    and dist: "distinct (hosts (dy_jobs s) @ spawn_ids xs @ spawning t @ spawn_ids ys)"
    and used: "set (hosts (dy_jobs s) @ spawn_ids xs @ spawning t @ spawn_ids ys) \<subseteq> dy_used s" "\<forall>c\<in>dy_used s. id_prefix c \<noteq> None"
    using assms(1,2) by (auto simp: inv_jobs_def list_all_iff)
  note step = task_step_ok [OF assms(3) st t]
  then have sub: "set (dy_jobs s) \<subseteq> set (dy_jobs s')" by auto
  have ctx': "list_all (task_ok (dy_jobs s')) (xs @ ys)"
    using ctx task_ok_mono [OF _ sub] by (simp add: list_all_iff)
  have ids: "distinct (hosts (dy_jobs s') @ spawn_ids xs @ spawn_ids ts @ spawn_ids ys) \<and>
    set (hosts (dy_jobs s') @ spawn_ids xs @ spawn_ids ts @ spawn_ids ys) \<subseteq> dy_used s"
    using step
  proof (elim conjE disjE exE)
    fix j assume "dy_jobs s' = dy_jobs s @ [j]" "spawning t = [ps_hostname (job_pod j)]" "spawn_ids ts = []"
    with dist used(1) show ?thesis by (auto simp: hosts_def)
  qed (use dist used(1) in auto)
  show ?thesis using step ctx' ids used(2) by (simp add: inv_jobs_def with_tasks_def)
qed

lemma inv_jobs_step:
  assumes "dispatch_step to_json sp s s'" "inv_jobs s"
  shows "inv_jobs s'"
  using assms
proof (cases rule: dispatch_step.cases)
  case (task_runs xs t ys en ts s1)
  with inv_jobs_task [OF assms(2)] show ?thesis by simp
next
  case (call_cancelled c found ds)
  then show ?thesis using assms(2) by (auto simp: inv_jobs_def fire_call_cancel_def)
qed (use assms(2) in \<open>auto simp: inv_jobs_def\<close>)

lemma inv_jobs_reachable: "dispatch_reachable to_json sp s \<Longrightarrow> inv_jobs s"
proof (induction rule: dispatch_reachable.induct)
  case reach_start
  show ?case
    by (simp add: inv_jobs_def dispatch_sys_new_def dispatch_new_def state_ok_def calls_at_def hosts_def)
qed (rule inv_jobs_step)

text \<open>The call a driver is running, with the id of the pod it dials.\<close>

fun dialling :: "task \<Rightarrow> (string \<times> pending_call) option" where
  "dialling (Drive_Dial tool target name call token shadow) = Some (target, call)"
| "dialling (Drive_Stream tool target name call token shadow) = Some (target, call)"
| "dialling _ = None"

text \<open>
  C11. A call runs only on a pod of its own grant. However the calls, drivers, retirements
  and cancels interleave: the pod a driver dials or streams from exists, no other pod has
  its name, and it was created for the tool of the call and for the grant the call selected.
  A call that selected no grant runs on a pod that mounts no Secret.
\<close>

theorem call_runs_on_pod_of_grant:
  assumes "dispatch_reachable to_json sp s" "t \<in> set (dy_tasks s)" "dialling t = Some (job_id, call)"
  shows "\<exists>j. {j' \<in> set (dy_jobs s). ps_hostname (job_pod j') = job_id} = {j} \<and>
    map_of (job_pod_labels j) ''sycophant.md/tool'' = Some (pq_tool_name call) \<and>
    map_of (job_pod_labels j) ''sycophant.md/grant'' = pq_grant call \<and>
    (pq_grant call = None \<longrightarrow> mounted_secrets j = [])"
proof -
  have inv: "inv_jobs s" by (rule inv_jobs_reachable [OF assms(1)])
  then have "task_ok (dy_jobs s) t" using assms(2) by (simp add: inv_jobs_def list_all_iff)
  with assms(3) have "job_for (dy_jobs s) job_id (pq_tool_name call) (pq_grant call)" by (cases t) simp_all
  then obtain j where j: "j \<in> set (dy_jobs s)" "ps_hostname (job_pod j) = job_id"
    "map_of (job_pod_labels j) ''sycophant.md/tool'' = Some (pq_tool_name call)"
    "map_of (job_pod_labels j) ''sycophant.md/grant'' = pq_grant call" "pq_grant call = None \<longrightarrow> mounted_secrets j = []"
    unfolding job_for_def by (elim bexE conjE)
  have "distinct (hosts (dy_jobs s))" using inv unfolding inv_jobs_def by simp
  then have inj: "inj_on (\<lambda>j. ps_hostname (job_pod j)) (set (dy_jobs s))" by (simp add: hosts_def distinct_map)
  have "j' = j" if "j' \<in> set (dy_jobs s)" "ps_hostname (job_pod j') = job_id" for j'
    using inj_onD [OF inj, of j' j] that j(1,2) by simp
  then have "{j' \<in> set (dy_jobs s). ps_hostname (job_pod j') = job_id} = {j}" using j(1,2) by blast
  with j(3-5) show ?thesis by (intro exI [of _ j] conjI)
qed

text \<open>A first call goes all the way to its dial.\<close>

definition env_with :: "active_key list \<Rightarrow> active_key list \<Rightarrow> step_env" where
  "env_with order job_order = \<lparr> en_now = 0, en_order = order, en_job_order = job_order, en_create = Created,
     en_dial = Dial_Connected True, en_stream = Stream_End \<rparr>"

lemma with_tasks_simps [simp]:
  "dy_state (with_tasks ts s) = dy_state s" "dy_tasks (with_tasks ts s) = ts" "dy_used (with_tasks ts s) = dy_used s"
  "dy_jobs (with_tasks ts s) = dy_jobs s" "dy_channels (with_tasks ts s) = dy_channels s" "dy_results (with_tasks ts s) = dy_results s"
  "dy_fired (with_tasks ts s) = dy_fired s"
  by (simp_all add: with_tasks_def)

definition reaches :: "(json \<Rightarrow> string) \<Rightarrow> spawn_config \<Rightarrow> task \<Rightarrow> dispatch_state \<Rightarrow> bool" where
  "reaches to_json sp t ds \<longleftrightarrow> (\<exists>s. dispatch_reachable to_json sp s \<and> dy_tasks s = [t] \<and> dy_state s = ds)"

lemma reaches_step:
  assumes "reaches to_json sp t ds"
    and "set order = dom (ds_pending_calls ds)" "distinct order" "set jobs = dom (ds_active_jobs ds)" "distinct jobs"
    and "\<And>s. dy_state s = ds \<Longrightarrow> \<exists>s'. task_step to_json sp (env_with order jobs) t s = Some ([t'], s') \<and> dy_state s' = ds'"
  shows "reaches to_json sp t' ds'"
proof -
  from assms(1) obtain s where s: "dispatch_reachable to_json sp s" "dy_tasks s = [] @ t # []" "dy_state s = ds"
    by (auto simp: reaches_def)
  with assms(6) obtain s' where s': "task_step to_json sp (env_with order jobs) t s = Some ([t'], s')" "dy_state s' = ds'" by blast
  have "orders_ok (env_with order jobs) s" using s(3) assms(2-5) by (simp add: orders_ok_def env_with_def)
  from reach_step [OF s(1) task_runs [OF s(2) this s'(1)]] s'(2) show ?thesis
    by (auto simp: reaches_def intro!: exI [of _ "with_tasks [t'] s'"])
qed

lemma first_call_dials:
  fixes grant :: "(string \<times> capability_grant) option"
  assumes "begin_entry toolsets toolset = Inr entry" "id_prefix call_id \<noteq> None"
  shows "\<exists>name ds. reaches to_json sp (Drive_Dial tool call_id name
    \<lparr> pq_call_id = call_id, pq_tool_name = tool, pq_args = args, pq_working_dir = WORKSPACE_MOUNT_PATH,
      pq_grant = map_option fst grant, pq_target_job_id = call_id \<rparr> (Some call_id) tool) ds"
proof -
  define q where "q = \<lparr> cq_call_id = call_id, cq_tool = tool, cq_toolset = toolset, cq_entry = entry, cq_args = args, cq_grant = grant \<rparr>"
  let ?g = "map_option fst grant"
  have q: "cq_call_id q = call_id" "cq_tool q = tool" "cq_grant_name q = ?g" "cq_args q = args"
    by (simp_all add: q_def cq_grant_name_def)
  have ne: "call_id \<noteq> []" using assms(2) by (auto simp: id_prefix_def)
  obtain j where j: "tool_job to_json sp q = Some j" using tool_job_Some [of q to_json sp] assms(2) q(1) by auto
  define a where "a = \<lparr> aj_job_name = job_name j, aj_job_id = call_id, aj_tool_name = tool,
    aj_keepalive_seconds = (if te_keepalive (cq_entry q) then TOOL_KEEPALIVE_IDLE_SECONDS else 0), aj_grant = ?g, aj_last_activity = 0 \<rparr>"
  have a: "aj_job_id a = call_id" "aj_tool_name a = tool" "aj_grant a = ?g" by (simp_all add: a_def)
  define p where "p = pending_of q call_id"
  have p: "pq_call_id p = call_id" "pq_tool_name p = tool" "pq_grant p = ?g" "pq_target_job_id p = call_id"
    by (simp_all add: p_def pending_of_def q)
  note defs = env_with_def task_step_def q j a p get_active_job_def dispatch_new_def set_active_job_def set_result_tx_def
    register_call_cancel_def enqueue_call_def calls_at_def dequeue_call_def take_result_tx_def call_cancel_token_def Let_def
  let ?d3 = "set_active_job a (dispatch_new\<lparr> ds_dispatch_locks := {} \<rparr>)"
  let ?d4 = "set_result_tx call_id tool ?d3"
  let ?d5 = "register_call_cancel call_id ?d4"
  let ?d6 = "enqueue_call p ?d5"
  let ?d7 = "?d6\<lparr> ds_pending_calls := [(tool, ?g) \<mapsto> []] \<rparr>"
  have "dispatch_reachable to_json sp (dispatch_sys_new\<lparr> dy_used := insert call_id (dy_used dispatch_sys_new),
      dy_tasks := dy_tasks dispatch_sys_new @ [Begin_Lock q] \<rparr>)" unfolding q_def
    by (rule reach_step [OF reach_start call_begins [OF assms(1)]]) (use assms(2) in \<open>simp_all add: dispatch_sys_new_def\<close>)
  then have "reaches to_json sp (Begin_Lock q) dispatch_new"
    unfolding reaches_def by (intro exI conjI) (assumption, simp_all add: dispatch_sys_new_def)
  then have "reaches to_json sp (Begin_Spawn q) (dispatch_new\<lparr> ds_dispatch_locks := {tool} \<rparr>)"
    by (rule reaches_step [where order = "[]" and jobs = "[]"]) (auto simp: defs)
  then have "reaches to_json sp (Begin_Record q (job_name j)) (dispatch_new\<lparr> ds_dispatch_locks := {tool} \<rparr>)"
    by (rule reaches_step [where order = "[]" and jobs = "[]"]) (auto simp: defs)
  then have "reaches to_json sp (Begin_Publish q call_id (job_name j)) ?d3"
    by (rule reaches_step [where order = "[]" and jobs = "[]"]) (auto simp: defs a_def)
  then have "reaches to_json sp (Begin_Register q call_id (job_name j)) ?d4"
    by (rule reaches_step [where order = "[]" and jobs = "[(tool, ?g)]"]) (auto simp: defs)
  then have "reaches to_json sp (Begin_Enqueue q call_id (job_name j)) ?d5"
    by (rule reaches_step [where order = "[]" and jobs = "[(tool, ?g)]"]) (auto simp: defs)
  then have "reaches to_json sp (Begin_Check q call_id (job_name j)) ?d6"
    by (rule reaches_step [where order = "[]" and jobs = "[(tool, ?g)]"]) (auto simp: defs p_def)
  then have "reaches to_json sp (Drive_Dequeue tool call_id (job_name j)) ?d6"
    by (rule reaches_step [where order = "[(tool, ?g)]" and jobs = "[(tool, ?g)]"]) (auto simp: defs ne)
  then have "reaches to_json sp (Drive_Token tool call_id (job_name j) p) ?d7"
    by (rule reaches_step [where order = "[(tool, ?g)]" and jobs = "[(tool, ?g)]"]) (auto simp: defs ne)
  then have "reaches to_json sp (Drive_Take tool call_id (job_name j) p (Some call_id)) ?d7"
    by (rule reaches_step [where order = "[(tool, ?g)]" and jobs = "[(tool, ?g)]"]) (auto simp: defs)
  then have "reaches to_json sp (Drive_Dial tool call_id (job_name j) p (Some call_id) tool) (?d7\<lparr> ds_result_txs := Map.empty \<rparr>)"
    by (rule reaches_step [where order = "[(tool, ?g)]" and jobs = "[(tool, ?g)]"]) (auto simp: defs)
  then show ?thesis unfolding p_def pending_of_def q by blast
qed

theorem call_runs_on_pod_of_grant_witness:
  "\<exists>s t call. dispatch_reachable (\<lambda>_. []) (spawn_new ''ns'' ''svc'' ''w'' default_scheduling) s \<and> t \<in> set (dy_tasks s) \<and>
     dialling t = Some (''abcdef12-0'', call) \<and> pq_grant call = Some ''reader'' \<and>
     (\<exists>j \<in> set (dy_jobs s). map_of (job_pod_labels j) ''sycophant.md/grant'' = Some ''reader'')"
proof -
  let ?g = "\<lparr> cg_secret = ''db-key'', cg_path = None, cg_egress = None \<rparr>"
  let ?sp = "spawn_new ''ns'' ''svc'' ''w'' default_scheduling"
  have "begin_entry [''db'' \<mapsto> default_entry] ''db'' = Inr default_entry" by (simp add: begin_entry_def)
  moreover have "id_prefix ''abcdef12-0'' \<noteq> None" by code_simp
  ultimately obtain s name call where s: "dispatch_reachable (\<lambda>_. []) ?sp s"
      "dy_tasks s = [Drive_Dial ''query'' ''abcdef12-0'' name call (Some ''abcdef12-0'') ''query'']" "pq_grant call = Some ''reader''"
    using first_call_dials [of "[''db'' \<mapsto> default_entry]" "''db''" default_entry "''abcdef12-0''" "\<lambda>_. []" ?sp "''query''"
        Map.empty "Some (''reader'', ?g)"] by (auto simp: reaches_def)
  from call_runs_on_pod_of_grant [OF s(1), of "Drive_Dial ''query'' ''abcdef12-0'' name call (Some ''abcdef12-0'') ''query''"
      "''abcdef12-0''" call] s
  show ?thesis by (intro exI [of _ s] exI [of _ "hd (dy_tasks s)"] exI [of _ call]) auto
qed

end
