(* ===== verification/Spec2Isabelle.thy ===== *)
theory Spec2Isabelle
  imports Scrub Auth Watcher Identity Toolset_Config Conversation Execution_Log Registry
    Turn Agent Framework_Tools Tool_Router Harness_Api Harness_Service
    Gateway_State Gateway Relay_Internal Relay Sample_Run Model_Provider
    Inference_Runtime Toolset_Runtime Pod_Start Instructions Dispatch_Safety
begin

text \<open>
  Verification of sycophant, a control plane that runs conversational agents in Kubernetes.
  The modelled part is the Rust code under \<^verbatim>\<open>src/crates\<close>.

  \<^bold>\<open>The program.\<close> Clients and channels talk to the \<^emph>\<open>relay\<close> (\<^verbatim>\<open>relay-controller\<close>), which
  authenticates every call, decides from the identity table which workspaces a subject may
  reach, keeps the open channel streams and forwards messages. Each workspace has one
  \<^emph>\<open>harness\<close> (\<^verbatim>\<open>harness\<close>), which owns the conversations of the workspace, runs the agent loop
  and routes tool calls. For a model call it dials an \<^emph>\<open>inference pod\<close> (\<^verbatim>\<open>inference-runtime\<close>
  with \<^verbatim>\<open>model-provider\<close>), for a tool call a \<^emph>\<open>tool pod\<close> (\<^verbatim>\<open>toolset-runtime\<close>). The crate
  \<^verbatim>\<open>shared\<close> holds what they have in common.

  \<^bold>\<open>How it is modelled.\<close> A Rust string or byte vector is the list of its bytes. A \<^verbatim>\<open>Result\<close>
  is a sum with the error on the left. A handler that changes state is a function from a
  state to its result and the state it leaves (\<open>stm\<close> of \<open>Prelude\<close>), an error keeping the
  changes made before it. A \<^verbatim>\<open>tokio::select!\<close> loop is a function of the sequence of branches
  it takes. Code that is not part of the repository is an argument: the Kubernetes API
  server, the JSON and YAML readers, base64 and percent encoding, hashing, clocks and fresh
  identifiers, the HTTP exchange with a model, processes and ripgrep. The theorems that need
  documented behaviour of such code name it as a hypothesis and have a witness.

  \<^bold>\<open>Shared library.\<close> \<open>Prelude\<close> has results, the state monad and the relational logic
  \<open>runs_in\<close> with which a property of a handler is read off its parts. \<open>Rust_Str\<close> and \<open>Utf8\<close>
  model the operations of \<^verbatim>\<open>str\<close>. \<open>Ordered_Map\<close> gives \<^verbatim>\<open>BTreeMap\<close> as a locale with its
  interpretation on sorted association lists. \<open>Line_File\<close> is the locale of line-oriented log
  files with torn writes. \<open>Proto\<close> has the messages of the \<^verbatim>\<open>.proto\<close> files.

  \<^bold>\<open>Crate shared.\<close> \<open>Scrub\<close> (\<^verbatim>\<open>scrub.rs\<close>): no form of a registered secret survives scrubbing.
  \<open>Auth\<close> (\<^verbatim>\<open>auth.rs\<close>): exactly which tokens verify. \<open>Watcher\<close> (\<^verbatim>\<open>configmap_watcher.rs\<close>,
  \<^verbatim>\<open>watcher_retry.rs\<close>, \<^verbatim>\<open>keepalive.rs\<close>): the table in force is the merge of the live
  ConfigMaps, whatever order events came in. \<open>Toolset_Config\<close> (\<^verbatim>\<open>toolset.rs\<close>, and
  \<^verbatim>\<open>model_config.rs\<close> of the harness): well-formed tables, argument validation.

  \<^bold>\<open>Relay.\<close> \<open>Identity\<close> (\<^verbatim>\<open>identity.rs\<close>, \<^verbatim>\<open>identity_watcher.rs\<close>, \<^verbatim>\<open>capabilities.rs\<close>): a handle
  resolves to the sole subject that claims it. \<open>Gateway_State\<close> (\<^verbatim>\<open>state.rs\<close>), \<open>Gateway\<close>
  (\<^verbatim>\<open>gateway.rs\<close>) and \<open>Relay_Internal\<close> (\<^verbatim>\<open>internal.rs\<close>) have every RPC of the two services.
  A request has an effect only when its caller is authorized, an open stream ends when its
  authorization does, and a harness touches its own workspace only.

  \<^bold>\<open>Harness.\<close> \<open>Conversation\<close>, \<open>Execution_Log\<close> and \<open>Registry\<close> (the files of the same names)
  have the logs on disk: what was appended is read back after a restart, with torn and
  failed writes in the model. \<open>Harness_Api\<close> is the interface \<^verbatim>\<open>HarnessControl\<close> as a locale,
  \<open>Harness_Service\<close> (\<^verbatim>\<open>grpc_server.rs\<close>) its interpretation. \<open>Turn\<close> (\<^verbatim>\<open>turn.rs\<close>) and \<open>Agent\<close>
  (\<^verbatim>\<open>agent.rs\<close>) have the agent loop: every request it sends pairs each tool call with its
  result, the log holds the history, and the loop is bounded. \<open>Framework_Tools\<close>
  (\<^verbatim>\<open>runtime_tools.rs\<close>, \<^verbatim>\<open>channel_stream_tools.rs\<close>, \<^verbatim>\<open>tool_approval.rs\<close>) and \<open>Tool_Router\<close>
  (\<^verbatim>\<open>tool_router.rs\<close>): a tool that needs approval runs only after an approval, a call runs
  under the grant that is bound, and a client can attach to a running call at any time.
  \<open>Instructions\<close> (\<^verbatim>\<open>instructions.rs\<close>): whatever links the tree has, a read stays below the
  workspace's root, and a listed file can be read.

  \<^bold>\<open>From the harness to its pods.\<close> \<open>Job\<close> (\<^verbatim>\<open>job.rs\<close>, and \<^verbatim>\<open>podspec.rs\<close> and \<^verbatim>\<open>scheduling.rs\<close> of
  \<^verbatim>\<open>shared\<close>) has the Jobs the harness creates. \<open>Dispatch\<close> (the tool side of \<^verbatim>\<open>dispatch.rs\<close>) has
  the queue, senders, tokens and warm pods, with \<^verbatim>\<open>begin_call\<close>, the dial driver and the
  retirement of a pod as tasks that interleave between operations; \<open>Dispatch_Safety\<close> proves by
  an invariant over all interleavings that a call runs on the pod of its own tool and grant.
  \<open>Pod_Start\<close> (the \<^verbatim>\<open>main.rs\<close> files of the runtimes) goes from a Job to a serving pod, with
  what the kubelet provides as hypotheses: a granted Secret is staged where the Job says and
  leaves the pod in no frame, and an inference pod has the configuration of its Job.

  \<^bold>\<open>Pods.\<close> \<open>Model_Provider\<close> (crate \<^verbatim>\<open>model-provider\<close>): the parsed stream does not depend on
  the chunking of the response, the operator's fields win, tool results stay next to their
  calls. \<open>Pod\<close> and \<open>Inference_Runtime\<close> (\<^verbatim>\<open>inference-runtime\<close>): the turn's result is what the
  model said; a pod that starts has its credentials. \<open>Toolset_Exec\<close>, \<open>Toolset_Stdlib\<close> and
  \<open>Toolset_Runtime\<close> (\<^verbatim>\<open>toolset-runtime\<close>): one terminal frame per call, streaming agrees with
  buffering, no secret leaves the pod, an edit changes one occurrence.

  \<^bold>\<open>The system.\<close> \<open>Relay\<close> puts the relay in front of any harnesses that satisfy the interface,
  as a step relation over client requests, harness calls, background tasks, harness steps
  and restarts, and \<open>Sample_Run\<close> is a concrete run of it. The properties that span relay and
  harness are below: conversations are private to their owner, messages and answers come
  from whom they say, and a parked request is answered.

  \<^bold>\<open>Bounds and fuel.\<close> Nothing runs on fuel. Loops over events, chunks, polls and moments are
  recursions over the list of what happens, which is arbitrary. The agent loop recurses over
  the code's own iteration limit. Loops over text terminate by length. A call that does not
  return (a panic, a child that never ends) is \<open>None\<close>, and the theorems that say a call
  answers prove that it is not. Counters that the code keeps at 64 bits and that cannot
  reach the bound are natural numbers; parsed numbers are checked against their bound.

  \<^bold>\<open>Not modelled.\<close> The operator CLI (\<^verbatim>\<open>src/cli\<close>) and the Go client (\<^verbatim>\<open>src/cmd\<close>), which
  format arguments for helm, kubectl and docker and draw a terminal; the generated protobuf
  code; the set-up of listeners and tasks in the \<^verbatim>\<open>main.rs\<close> files; log output; test doubles. Of
  the harness: the inference side of \<^verbatim>\<open>dispatch.rs\<close> (\<^verbatim>\<open>InferenceDispatch\<close> and its turn sources),
  the dispatch of \<^verbatim>\<open>runtime_tools.rs\<close>, the message loop of \<^verbatim>\<open>runtime_entrypoint.rs\<close> with
  \<^verbatim>\<open>message_source.rs\<close>, \<^verbatim>\<open>config.rs\<close> and the client set-up of \<^verbatim>\<open>clients.rs\<close>. These could be
  modelled; the agent loop and the tool router take what they provide as arguments. Of the
  dispatch of tool calls, no theorem says that every result stream ends. The capacity of
  channels is modelled for result channels only; elsewhere a full queue delays its sender,
  which the model does not show.
\<close>

section \<open>The relay in front of the harnesses\<close>



text \<open>
  C8. A harness hears a conversation only from its owner. Whatever the system does next, a
  message that appears on a workspace's bus was put there by the request of a client who
  holds a channel stream bound to that workspace; the apiserver vouched for the subject of
  that stream on this very request and lets it reach the workspace; it is one message, put
  after the ones before; and its conversation belongs to nobody else.
\<close>

theorem messages_from_owner:
  assumes "relay_reach (harness_service lib parse start_call fire) (service_ok lib) service_owner untorn r"
    and "relay_step (harness_service lib parse start_call fire) (service_ok lib) service_owner untorn ev r r'"
    and "subscribers (rl_state r) w = Some sent" "subscribers (rl_state r') w = Some sent'" "sent' \<noteq> sent"
  shows "\<exists>env q opener s m. ev = Ev_Request env (ChannelStreamIngest q) \<and>
    channel_stream_binding (ir_channel_stream_id q) (rl_state r) = Some (opener, s, w) \<and>
    vouched env s (rl_state r) \<and> may_reach env s w (rl_state r) \<and>
    sent' = sent @ [m] \<and> service_owner (rl_harness r' w) (um_conversation_id m) \<in> {None, Some s}"
proof -
  obtain env q s m where "ev = Ev_Request env (ChannelStreamIngest q)"
      "authorize_ingest env (ir_channel_stream_id q) (rl_state r) = Inr (s, w)"
      "sent' = sent @ [m]" "service_owner (rl_harness r' w) (um_conversation_id m) \<in> {None, Some s}"
    using service.step_message_from_owner [OF service.reach_sound [OF assms(1)] assms(2-5)] by blast
  then show ?thesis using authorize_ingest_vouched [of env "ir_channel_stream_id q" "rl_state r" s w] by blast
qed

theorem messages_from_owner_witness:
  "sample_reach sample_opened \<and> subscribers (rl_state sample_opened) ''notes'' = Some [] \<and>
   subscribers (rl_state sample_written) ''notes'' = Some [sample_user_message] \<and>
   (\<exists>s. service_owner (rl_harness sample_written ''notes'') (um_conversation_id sample_user_message) \<in> {None, Some s})"
proof -
  have bus: "subscribers (rl_state sample_opened) ''notes'' = Some []"
    "subscribers (rl_state sample_written) ''notes'' = Some [sample_user_message]"
    by (simp_all add: written_state opened_state subscribed_state)
  have "relay_step sample_service (service_ok unary_libs) service_owner untorn
      (Ev_Request (person_env ''alice'' ''c3'') sample_message) sample_opened sample_written"
    unfolding sample_written_def
    by (rule relay_step.request [OF _ _ prod.collapse [symmetric]], simp, rule sample_fresh)
      (simp_all add: opened_state subscribed_state gateway_new_with_idp_def)
  from messages_from_owner [OF sample_reached(2) [unfolded sample_service_def] this [unfolded sample_service_def] bus] bus
  show ?thesis using sample_reached(2) by auto
qed

text \<open>
  C7. An answer is the client's own. If in any step a call of the harness of workspace
  \<open>w\<close> that is parked on request \<open>i\<close> is given a client's outcome, and the harness will read
  the result \<open>json\<close> from the relay's reply, then the step is the request of a client who
  holds a channel stream bound to \<open>w\<close>, for whose subject the apiserver vouched and whom it
  lets reach \<open>w\<close>, and \<open>json\<close> is what that client answered to request \<open>i\<close>.
\<close>

theorem answers_from_clients:
  assumes "relay_reach (harness_service lib parse start_call fire) (service_ok lib) service_owner untorn r"
    and "relay_step (harness_service lib parse start_call fire) (service_ok lib) service_owner untorn ev r r'"
    and "waiters (rl_state r) n = Some (Parked (w, i))" "waiters (rl_state r') n = Some (Answered (Inr out))"
    and "response_outcome (request_response (Inr out)) = Outcome_Result json"
  shows "\<exists>env q opener s cr. ev = Ev_Request env (ChannelStreamIngest q) \<and>
    channel_stream_binding (ir_channel_stream_id q) (rl_state r) = Some (opener, s, w) \<and>
    vouched env s (rl_state r) \<and> may_reach env s w (rl_state r) \<and>
    ir_client_response q = Some cr \<and> cr_request_id cr = i \<and> cr_result_json cr = json"
proof -
  obtain env req where d: "ev = Ev_Request env req" "delivers env req (rl_state r) w i out"
    using answer_delivered [OF reach_requests [OF assms(1)] assms(2-4)] by blast
  moreover have "cr_result_json cr = json" if "client_response_outcome cr = Inr out" for cr
    using that assms(5)
    by (auto simp: client_response_outcome_def request_response_def response_outcome_def empty_response_def Let_def
        split: option.splits if_splits request_outcome.splits)
  moreover obtain q s cr where "req = ChannelStreamIngest q" "ir_client_response q = Some cr" "cr_request_id cr = i"
      "authorize_ingest env (ir_channel_stream_id q) (rl_state r) = Inr (s, w)" "client_response_outcome cr = Inr out"
    using d(2) unfolding delivers_def by blast
  ultimately show ?thesis using authorize_ingest_vouched [of env "ir_channel_stream_id q" "rl_state r" s w] by blast
qed

theorem answers_from_clients_witness:
  "sample_reach sample_asked \<and> waiters (rl_state sample_answered) 0 = Some (Answered (Inr (Client_Result ''yes''))) \<and>
   (\<exists>s. vouched (person_env ''alice'' ''c4'') s (rl_state sample_asked))"
proof -
  note asked = asked_state
  obtain frames where st: "map_of (channel_streams (rl_state sample_asked)) ''stc2'' = Some (sample_stream frames turn_working [''approve''])"
    using asked(5) by blast
  have auth: "authorize_ingest (person_env ''alice'' ''c4'') ''stc2'' (rl_state sample_asked) = Inr (''alice'', ''notes'')"
    by (rule sample_ingest [OF asked(3,4) st])
  have ans: "waiters (rl_state sample_answered) 0 = Some (Answered (Inr (Client_Result ''yes'')))"
    unfolding sample_answered_def gateway_step.simps snd_respond
    by (simp add: channel_stream_ingest_def bind_checkS sample_answer_def auth)
      (simp add: require_conversation_subject_def bindS_def updateS_def retS_def ingest_client_response_def liftS_def
        client_response_outcome_def deliver_answers_parked(2) [OF reach_requests [OF sample_reached(4)], of 0] asked(1))
  have own: "conversation_owners (rl_state sample_asked) ''c4'' = None" using asked(6) by simp
  have "relay_step sample_service (service_ok unary_libs) service_owner untorn
      (Ev_Request (person_env ''alice'' ''c4'') (ChannelStreamIngest sample_answer)) sample_asked sample_answered"
    unfolding sample_answered_def
    by (rule relay_step.request [OF _ _ prod.collapse [symmetric]], simp, rule sample_fresh [OF own asked(2)]) simp
  from answers_from_clients [OF sample_reached(4) [unfolded sample_service_def] this [unfolded sample_service_def] _ ans,
      of "''notes''" "''q1''" "''yes''"] asked(1)
  show ?thesis using sample_reached(4) ans
    by (auto simp: request_response_def response_outcome_def empty_response_def)
qed



end
